theory Spec2Isabelle
  imports Complex_Main "HOL-Library.List_Lexorder"
begin

section \<open>Python values\<close>

text \<open>
  A Python \<^verbatim>\<open>str\<close> is a sequence of Unicode code points, so it is modelled as a list
  of naturals: \<^verbatim>\<open>len\<close> is \<open>length\<close> and counts code points. ASCII literals of the
  source are written \<open>ascii ''...''\<close>.
\<close>

type_synonym pystr = "nat list"

definition ascii :: "string \<Rightarrow> pystr" where
  "ascii s = map of_char s"

text \<open>
  The code points for which \<^verbatim>\<open>str.isspace\<close> holds; \<^verbatim>\<open>str.strip()\<close> removes
  them from both ends.
\<close>

definition is_space :: "nat \<Rightarrow> bool" where
  "is_space c \<longleftrightarrow>
     (9 \<le> c \<and> c \<le> 13) \<or> (28 \<le> c \<and> c \<le> 32) \<or> c = 133 \<or> c = 160 \<or> c = 5760 \<or>
     (8192 \<le> c \<and> c \<le> 8202) \<or> c = 8232 \<or> c = 8233 \<or> c = 8239 \<or> c = 8287 \<or>
     c = 12288"

definition strip :: "pystr \<Rightarrow> pystr" where
  "strip s = rev (dropWhile is_space (rev (dropWhile is_space s)))"

text \<open>
  A Python \<^verbatim>\<open>float\<close>: a finite value (taken as a real number: the comparisons and
  the clamping of the source are exact on floats, rounding is not modelled), the two
  infinities and NaN, which \<^verbatim>\<open>json.loads\<close> accepts.
\<close>

datatype pyfloat = Fin real | PosInf | NegInf | NaN

fun flt :: "pyfloat \<Rightarrow> pyfloat \<Rightarrow> bool" where
  "flt NaN _ = False"
| "flt _ NaN = False"
| "flt (Fin a) (Fin b) = (a < b)"
| "flt NegInf NegInf = False"
| "flt NegInf _ = True"
| "flt _ NegInf = False"
| "flt PosInf _ = False"
| "flt _ PosInf = True"

fun fle :: "pyfloat \<Rightarrow> pyfloat \<Rightarrow> bool" where
  "fle NaN _ = False"
| "fle _ NaN = False"
| "fle a b = (a = b \<or> flt a b)"

text \<open>\<^verbatim>\<open>min(a, b)\<close> and \<^verbatim>\<open>max(a, b)\<close> of Python return the first argument unless
  the second is strictly smaller (larger).\<close>

definition py_min :: "pyfloat \<Rightarrow> pyfloat \<Rightarrow> pyfloat" where
  "py_min a b = (if flt b a then b else a)"

definition py_max :: "pyfloat \<Rightarrow> pyfloat \<Rightarrow> pyfloat" where
  "py_max a b = (if flt a b then b else a)"

text \<open>The values \<^verbatim>\<open>json.loads\<close> produces. An object keeps its keys in insertion
  order, each key once.\<close>

datatype json =
    JNull
  | JBool bool
  | JInt int
  | JFloat pyfloat
  | JStr pystr
  | JArr "json list"
  | JObj "(pystr \<times> json) list"

text \<open>The exceptions the modelled code raises and handles by their class alone.\<close>

datatype exn =
  IndexError | KeyError | TypeError | ValueError | FileNotFoundError | OverflowError

text \<open>\<^verbatim>\<open>str(e)\<close> of the OverflowError that \<^verbatim>\<open>float\<close> raises on an int.\<close>

definition overflow_message :: pystr where
  "overflow_message = ascii ''int too large to convert to float''"

text \<open>The exceptions that leave \<^verbatim>\<open>validate_labels\<close>. An AttributeError carries the
  type name of the object and the attribute looked up, and \<^verbatim>\<open>str(e)\<close> is built from
  them; the other one is the OverflowError of \<^verbatim>\<open>float\<close>.\<close>

datatype labels_exn = AttributeError pystr pystr | FloatOverflow

fun str_labels_exn :: "labels_exn \<Rightarrow> pystr" where
  "str_labels_exn (AttributeError ty attr) =
     [39] @ ty @ [39] @ ascii '' object has no attribute '' @ [39] @ attr @ [39]"
| "str_labels_exn FloatOverflow = overflow_message"

definition type_name :: "json \<Rightarrow> pystr" where
  "type_name v = (case v of
      JNull \<Rightarrow> ascii ''NoneType''
    | JBool _ \<Rightarrow> ascii ''bool''
    | JInt _ \<Rightarrow> ascii ''int''
    | JFloat _ \<Rightarrow> ascii ''float''
    | JStr _ \<Rightarrow> ascii ''str''
    | JArr _ \<Rightarrow> ascii ''list''
    | JObj _ \<Rightarrow> ascii ''dict'')"

text \<open>
  \<^verbatim>\<open>float(x)\<close>: a bool or a float converts; an int converts when it rounds to a
  finite double, which it does below \<open>2 ^ 1024 - 2 ^ 970\<close> in absolute value (the
  midpoint between the largest double and \<open>2 ^ 1024\<close>, which rounds to even, that
  is up), and raises OverflowError from there on; a string converts when it parses
  as a number (the parser of the interpreter is the parameter \<open>pf\<close>, \<open>None\<close> where it
  raises) and raises ValueError otherwise; None, a list and a dict raise TypeError.
  The value of a converted int is kept exact: the rounding to 53 bits is not
  modelled, and it leaves 0 and 1, the bounds every comparison below is made
  against, and the order with respect to them unchanged.
\<close>

definition float_limit :: int where
  "float_limit = 2 ^ 1024 - 2 ^ 970"

fun py_float :: "(pystr \<Rightarrow> pyfloat option) \<Rightarrow> json \<Rightarrow> exn + pyfloat" where
  "py_float pf (JBool b) = Inr (Fin (if b then 1 else 0))"
| "py_float pf (JInt i) =
    (if \<bar>i\<bar> < float_limit then Inr (Fin (of_int i)) else Inl OverflowError)"
| "py_float pf (JFloat x) = Inr x"
| "py_float pf (JStr s) = (case pf s of None \<Rightarrow> Inl ValueError | Some x \<Rightarrow> Inr x)"
| "py_float pf JNull = Inl TypeError"
| "py_float pf (JArr _) = Inl TypeError"
| "py_float pf (JObj _) = Inl TypeError"

section \<open>config/labels.py\<close>

definition TNMT_LABELS :: "(nat \<times> pystr) list" where
  "TNMT_LABELS =
    [(1, [66, 105, 7875, 110, 32, 45, 32, 104, 7843, 105, 32, 273, 7843, 111]),
     (2, [84, 104, 244, 110, 103, 32, 116, 105, 110, 32, 99, 104, 117, 110, 103]),
     (3, [77, 244, 105, 32, 116, 114, 432, 7901, 110, 103]),
     (4, [272, 7883, 97, 32, 99, 104, 7845, 116, 32, 45, 32, 75, 104, 111, 225, 110, 103,
          32, 115, 7843, 110]),
     (5, [272, 7845, 116, 32, 273, 97, 105]),
     (6, [272, 97, 32, 100, 7841, 110, 103, 32, 115, 105, 110, 104, 32, 104, 7885, 99]),
     (7, [86, 105, 7877, 110, 32, 116, 104, 225, 109]),
     (8, [81, 117, 7843, 110, 32, 108, 253, 32, 99, 104, 7845, 116, 32, 116, 104, 7843,
          105, 32, 114, 7855, 110]),
     (9, [272, 111, 32, 273, 7841, 99, 32, 118, 224, 32, 98, 7843, 110, 32, 273, 7891]),
     (10, [75, 104, 237, 32, 116, 432, 7907, 110, 103, 32, 116, 104, 7911, 121, 32, 118,
           259, 110, 32, 45, 32, 66, 105, 7871, 110, 32, 273, 7893, 105, 32, 107, 104,
           237, 32, 104, 7853, 117]),
     (11, [84, 224, 105, 32, 110, 103, 117, 121, 234, 110, 32, 110, 432, 7899, 99]),
     (12, [75, 104, 225, 99])]"

definition get_label_list :: "pystr list" where
  "get_label_list = map snd TNMT_LABELS"

section \<open>utils/validators.py\<close>

subsection \<open>Strings: formatting, searching, lower-casing\<close>

text \<open>The decimal digits of \<^verbatim>\<open>str(i)\<close>, as an f-string inserts them.\<close>

fun str_nat :: "nat \<Rightarrow> pystr" where
  "str_nat n = (if n < 10 then [48 + n] else str_nat (n div 10) @ [48 + n mod 10])"

declare str_nat.simps [simp del]

definition startswith :: "pystr \<Rightarrow> pystr \<Rightarrow> bool" where
  "startswith s p \<longleftrightarrow> take (length p) s = p"

definition endswith :: "pystr \<Rightarrow> pystr \<Rightarrow> bool" where
  "endswith s p \<longleftrightarrow> length p \<le> length s \<and> drop (length s - length p) s = p"

text \<open>\<^verbatim>\<open>sub in s\<close> on strings.\<close>

fun contains :: "pystr \<Rightarrow> pystr \<Rightarrow> bool" where
  "contains [] sub = (sub = [])"
| "contains (c # cs) sub = (startswith (c # cs) sub \<or> contains cs sub)"

text \<open>\<^verbatim>\<open>str.lower()\<close>, on the ASCII letters; other code points are left as they
  are (the keys the theorems below speak of are ASCII).\<close>

definition lower :: "pystr \<Rightarrow> pystr" where
  "lower s = map (\<lambda>c. if 65 \<le> c \<and> c \<le> 90 then c + 32 else c) s"

subsection \<open>DataValidator.validate_text_record\<close>

definition validate_text_record :: "pystr \<Rightarrow> pystr \<Rightarrow> pystr \<Rightarrow> bool \<times> pystr list" where
  "validate_text_record title description content =
    (let errors = [];
         errors = (if title = [] \<or> strip title = [] then errors @ [ascii ''Title is empty'']
                   else errors);
         errors = (if description = [] \<or> strip description = []
                   then errors @ [ascii ''Description is empty''] else errors);
         errors = (if content = [] \<or> strip content = []
                   then errors @ [ascii ''Content is empty''] else errors);
         errors = (if length (strip title) < 5
                   then errors @ [ascii ''Title too short (< 5 characters)''] else errors)
     in (length errors = 0, errors))"

subsection \<open>ResponseValidator.validate_labels\<close>

record label_pred =
  label :: pystr
  confidence :: pyfloat

text \<open>\<^verbatim>\<open>item.get(key, default)\<close> on a parsed object.\<close>

definition dict_get :: "(pystr \<times> json) list \<Rightarrow> pystr \<Rightarrow> json \<Rightarrow> json" where
  "dict_get d k dflt = (case map_of d k of None \<Rightarrow> dflt | Some v \<Rightarrow> v)"

definition invalid_label_warning :: "pystr \<Rightarrow> pystr" where
  "invalid_label_warning l = ascii ''Invalid label: '' @ [39] @ l @ [39] @ ascii '' - skipping''"

definition invalid_confidence_warning :: "pystr \<Rightarrow> pystr" where
  "invalid_confidence_warning l =
     ascii ''Invalid confidence for '' @ [39] @ l @ [39] @ ascii '' - using default 0.5''"

text \<open>
  The loop of \<^verbatim>\<open>validate_labels\<close>, with its two accumulators. \<^verbatim>\<open>item.get\<close> on a
  value that is not a dict and \<^verbatim>\<open>.strip()\<close> on a label that is not a string raise
  AttributeError, which the function does not catch. Of the exceptions of
  \<^verbatim>\<open>float(confidence)\<close>, \<^verbatim>\<open>except (ValueError, TypeError)\<close> catches those two and
  lets the OverflowError of an int beyond the doubles leave the function.
\<close>

fun validate_labels_loop ::
  "(pystr \<Rightarrow> pyfloat option) \<Rightarrow> json list \<Rightarrow> label_pred list \<Rightarrow> pystr list
     \<Rightarrow> labels_exn + (label_pred list \<times> pystr list)" where
  "validate_labels_loop pf [] cleaned_data warnings = Inr (cleaned_data, warnings)"
| "validate_labels_loop pf (item # rest) cleaned_data warnings =
    (case item of
       JObj d \<Rightarrow>
         (case dict_get d (ascii ''label'') (JStr []) of
            JStr s \<Rightarrow>
              (let lab = strip s;
                   conf = dict_get d (ascii ''confidence'') (JFloat (Fin 0))
               in if lab \<notin> set get_label_list
                  then validate_labels_loop pf rest cleaned_data
                         (warnings @ [invalid_label_warning lab])
                  else (case py_float pf conf of
                          Inr c \<Rightarrow>
                            validate_labels_loop pf rest
                              (cleaned_data @
                                 [\<lparr>label = lab, confidence = py_max (Fin 0) (py_min (Fin 1) c)\<rparr>])
                              warnings
                        | Inl e \<Rightarrow>
                            (if e = ValueError \<or> e = TypeError
                             then validate_labels_loop pf rest
                                    (cleaned_data @ [\<lparr>label = lab, confidence = Fin 0.5\<rparr>])
                                    (warnings @ [invalid_confidence_warning lab])
                             else Inl FloatOverflow)))
          | v \<Rightarrow> Inl (AttributeError (type_name v) (ascii ''strip'')))
     | v \<Rightarrow> Inl (AttributeError (type_name v) (ascii ''get'')))"

definition validate_labels ::
  "(pystr \<Rightarrow> pyfloat option) \<Rightarrow> json list
     \<Rightarrow> labels_exn + (label_pred list \<times> pystr list)" where
  "validate_labels pf labels_data = validate_labels_loop pf labels_data [] []"

subsection \<open>\<^verbatim>\<open>_try_reconstruct_from_flat_structure\<close>\<close>

definition label_item :: "json \<Rightarrow> pyfloat \<Rightarrow> json" where
  "label_item l c = JObj [(ascii ''label'', l), (ascii ''confidence'', JFloat c)]"

text \<open>
  The \<^verbatim>\<open>while\<close> loop over the numbered keys \<^verbatim>\<open>label{i}\<close>, \<^verbatim>\<open>confidence{i}\<close>.
  It stops at the first \<open>i\<close> for which one of the two keys is missing. It terminates
  because the object is finite and the keys of distinct \<open>i\<close> differ. A
  \<^verbatim>\<open>float(...)\<close> that raises ends the loop with its exception.
\<close>

definition digits_value :: "pystr \<Rightarrow> nat" where
  "digits_value ds = foldl (\<lambda>a d. 10 * a + (d - 48)) 0 ds"

lemma digits_value_str_nat: "digits_value (str_nat n) = n"
proof (induction n rule: str_nat.induct)
  case (1 n)
  show ?case
  proof (cases "n < 10")
    case True
    then show ?thesis by (simp add: str_nat.simps[of n] digits_value_def)
  next
    case False
    with 1 have "digits_value (str_nat (n div 10)) = n div 10" by simp
    then show ?thesis using False
      by (simp add: str_nat.simps[of n] digits_value_def)
  qed
qed

lemma str_nat_inj: "str_nat m = str_nat n \<Longrightarrow> m = n"
  by (metis digits_value_str_nat)

lemma finite_numbered_keys:
  assumes "finite A"
  shows "finite {j. i \<le> j \<and> p @ str_nat j \<in> A}"
proof -
  have "inj (\<lambda>j. p @ str_nat j)" by (rule injI) (simp add: str_nat_inj)
  then have "finite ((\<lambda>j. p @ str_nat j) -` A)"
    using assms by (rule finite_vimageI[rotated])
  moreover have "{j. i \<le> j \<and> p @ str_nat j \<in> A} \<subseteq> (\<lambda>j. p @ str_nat j) -` A" by auto
  ultimately show ?thesis by (rule rev_finite_subset)
qed

function numbered_loop ::
  "(pystr \<Rightarrow> pyfloat option) \<Rightarrow> (pystr \<times> json) list \<Rightarrow> nat \<Rightarrow> json list
     \<Rightarrow> exn + json list" where
  "numbered_loop pf data i labels =
    (case (map_of data (ascii ''label'' @ str_nat i),
           map_of data (ascii ''confidence'' @ str_nat i)) of
       (Some l, Some c) \<Rightarrow>
         (case py_float pf c of
            Inl e \<Rightarrow> Inl e
          | Inr x \<Rightarrow> numbered_loop pf data (i + 1) (labels @ [label_item l x]))
     | _ \<Rightarrow> Inr labels)"
  by pat_completeness auto
termination
proof (relation "measure (\<lambda>(pf, data, i, labels).
         card {j. i \<le> j \<and> ascii ''label'' @ str_nat j \<in> fst ` set data})")
  show "wf (measure (\<lambda>(pf, data, i, labels).
         card {j. i \<le> j \<and> ascii ''label'' @ str_nat j \<in> fst ` set data}))" by simp
next
  fix pf :: "pystr \<Rightarrow> pyfloat option" and data :: "(pystr \<times> json) list" and i :: nat
    and labels :: "json list" and x y l c v
  assume "(x, y) = (map_of data (ascii ''label'' @ str_nat i),
           map_of data (ascii ''confidence'' @ str_nat i))" "x = Some l"
  then have mem: "ascii ''label'' @ str_nat i \<in> fst ` set data"
    by (metis map_of_eq_None_iff option.distinct(1) prod.inject)
  let ?S = "\<lambda>i. {j. i \<le> j \<and> ascii ''label'' @ str_nat j \<in> fst ` set data}"
  have "i \<in> ?S i" "i \<notin> ?S (i + 1)" "?S (i + 1) \<subseteq> ?S i" using mem by auto
  then have "?S (i + 1) \<subset> ?S i" by blast
  then have "card (?S (i + 1)) < card (?S i)"
    by (intro psubset_card_mono finite_numbered_keys) auto
  then show "((pf, data, i + 1, labels @ [label_item l v]), pf, data, i, labels)
       \<in> measure (\<lambda>(pf, data, i, labels).
         card {j. i \<le> j \<and> ascii ''label'' @ str_nat j \<in> fst ` set data})"
    by simp
qed

declare numbered_loop.simps [simp del]

text \<open>The \<^verbatim>\<open>for ... in zip(sorted(label_keys), sorted(conf_keys))\<close> loop.\<close>

fun paired_loop ::
  "(pystr \<Rightarrow> pyfloat option) \<Rightarrow> (pystr \<times> json) list \<Rightarrow> (pystr \<times> pystr) list
     \<Rightarrow> json list \<Rightarrow> exn + json list" where
  "paired_loop pf data [] labels = Inr labels"
| "paired_loop pf data ((label_key, conf_key) # rest) labels =
    (case (map_of data label_key, map_of data conf_key) of
       (Some l, Some c) \<Rightarrow>
         (case py_float pf c of
            Inl e \<Rightarrow> Inl e
          | Inr x \<Rightarrow> paired_loop pf data rest (labels @ [label_item l x]))
     | _ \<Rightarrow> Inl KeyError)"

text \<open>The clause \<^verbatim>\<open>except (ValueError, KeyError, TypeError)\<close> of the function makes
  it return \<^verbatim>\<open>None\<close>; any other exception of the two loops, which is the
  OverflowError of \<^verbatim>\<open>float\<close>, is raised to the caller.\<close>

definition handled :: "exn \<Rightarrow> bool" where
  "handled e = (e = ValueError \<or> e = KeyError \<or> e = TypeError)"

definition try_reconstruct_from_flat_structure ::
  "(pystr \<Rightarrow> pyfloat option) \<Rightarrow> (pystr \<times> json) list \<Rightarrow> exn + json list option" where
  "try_reconstruct_from_flat_structure pf data =
    (case numbered_loop pf data 1 [] of
       Inl e \<Rightarrow> (if handled e then Inr None else Inl e)
     | Inr labels \<Rightarrow>
         (if labels = [] then
            (let label_keys = filter (\<lambda>k. contains (lower k) (ascii ''label'')) (map fst data);
                 conf_keys = filter (\<lambda>k. contains (lower k) (ascii ''confidence'') \<or>
                                         contains (lower k) (ascii ''conf'')) (map fst data)
             in if length label_keys = length conf_keys \<and> length label_keys > 0
                then (case paired_loop pf data (zip (sort label_keys) (sort conf_keys)) [] of
                        Inl e \<Rightarrow> (if handled e then Inr None else Inl e)
                      | Inr labels' \<Rightarrow> Inr (if labels' = [] then None else Some labels'))
                else Inr None)
          else Inr (Some labels)))"

subsection \<open>ResponseValidator.validate_json_response\<close>

text \<open>The first value of a list on which \<open>f\<close> is not \<^verbatim>\<open>None\<close>: the
  \<^verbatim>\<open>for value in obj.values()\<close> loop with its early return.\<close>

fun first_some :: "('a \<Rightarrow> 'b option) \<Rightarrow> 'a list \<Rightarrow> 'b option" where
  "first_some f [] = None"
| "first_some f (x # xs) = (case f x of None \<Rightarrow> first_some f xs | Some r \<Rightarrow> Some r)"

definition is_label_object :: "json \<Rightarrow> bool" where
  "is_label_object first_item =
     (case first_item of
        JObj d \<Rightarrow> map_of d (ascii ''label'') \<noteq> None \<or> map_of d (ascii ''name'') \<noteq> None
      | _ \<Rightarrow> False)"

text \<open>The first argument is \<^verbatim>\<open>max_depth\<close>; the source starts it at 5.\<close>

fun find_array_recursive :: "nat \<Rightarrow> json \<Rightarrow> json list option" where
  "find_array_recursive 0 obj = None"
| "find_array_recursive (Suc n) (JArr []) = None"
| "find_array_recursive (Suc n) (JArr (first_item # rest)) =
     (if is_label_object first_item then Some (first_item # rest) else None)"
| "find_array_recursive (Suc n) (JObj d) = first_some (find_array_recursive n) (map snd d)"
| "find_array_recursive (Suc n) _ = None"

text \<open>The diagnostic messages, one constructor per message of the source; the item
  number of the message is the argument. \<open>Validation_error\<close> is the message of the
  clause \<^verbatim>\<open>except Exception\<close>, built from the exception that reached it.\<close>

datatype diagnostic =
    Valid
  | No_valid_label_array "pystr list"
  | Not_array_or_object pystr
  | Item_not_dictionary nat
  | Item_missing_label nat
  | Item_missing_confidence nat
  | Item_confidence_range nat
  | Item_confidence_not_number nat
  | Invalid_JSON
  | Validation_error exn

definition possible_keys :: "pystr list" where
  "possible_keys = [ascii ''output'', ascii ''result'', ascii ''labels'', ascii ''data'',
     ascii ''classifications'', ascii ''predictions'', ascii ''items'']"

text \<open>The loop over \<^verbatim>\<open>possible_keys\<close>, leaving at the first key that holds a list.\<close>

fun known_key_array :: "(pystr \<times> json) list \<Rightarrow> pystr list \<Rightarrow> json list option" where
  "known_key_array parsed [] = None"
| "known_key_array parsed (key # keys) =
     (case map_of parsed key of
        Some (JArr xs) \<Rightarrow> Some xs
      | _ \<Rightarrow> known_key_array parsed keys)"

text \<open>The validation loop over \<^verbatim>\<open>enumerate(labels_data)\<close>: the first item that
  fails a check gives the diagnostic.\<close>

fun validate_items :: "(pystr \<Rightarrow> pyfloat option) \<Rightarrow> nat \<Rightarrow> json list \<Rightarrow> diagnostic option" where
  "validate_items pf i [] = None"
| "validate_items pf i (item # rest) =
    (case item of
       JObj d \<Rightarrow>
         (if map_of d (ascii ''label'') = None then Some (Item_missing_label i)
          else (case map_of d (ascii ''confidence'') of
                  None \<Rightarrow> Some (Item_missing_confidence i)
                | Some v \<Rightarrow>
                    (case py_float pf v of
                       Inl e \<Rightarrow>
                         (if e = ValueError \<or> e = TypeError
                          then Some (Item_confidence_not_number i)
                          else Some (Validation_error e))
                     | Inr c \<Rightarrow>
                         (if \<not> (fle (Fin 0) c \<and> fle c (Fin 1))
                          then Some (Item_confidence_range i)
                          else validate_items pf (i + 1) rest))))
     | _ \<Rightarrow> Some (Item_not_dictionary i))"

text \<open>The part of \<^verbatim>\<open>validate_json_response\<close> after \<^verbatim>\<open>json.loads\<close>.\<close>

definition validate_parsed ::
  "(pystr \<Rightarrow> pyfloat option) \<Rightarrow> json \<Rightarrow> bool \<times> json list option \<times> diagnostic" where
  "validate_parsed pf parsed =
    (let labels_data =
       (case parsed of
          JArr xs \<Rightarrow> Inr xs
        | JObj d \<Rightarrow>
            (let labels_data = known_key_array d possible_keys;
                 labels_data = (if labels_data = None then find_array_recursive 5 parsed
                                else labels_data);
                 labels_data = (if labels_data = None
                                then try_reconstruct_from_flat_structure pf d
                                else Inr labels_data)
             in (case labels_data of
                   Inl e \<Rightarrow> Inl (Validation_error e)
                 | Inr None \<Rightarrow> Inl (No_valid_label_array (map fst d))
                 | Inr (Some xs) \<Rightarrow> Inr xs))
        | v \<Rightarrow> Inl (Not_array_or_object (type_name v)))
     in (case labels_data of
           Inl msg \<Rightarrow> (False, None, msg)
         | Inr xs \<Rightarrow>
             (case validate_items pf 0 xs of
                Some msg \<Rightarrow> (False, None, msg)
              | None \<Rightarrow> (True, Some xs, Valid))))"

text \<open>
  The markdown fence is stripped, then the text is parsed. \<^verbatim>\<open>json.loads\<close> is the
  parameter \<open>loads\<close>, \<open>None\<close> where it raises JSONDecodeError.
\<close>

definition clean_response :: "pystr \<Rightarrow> pystr" where
  "clean_response response =
    (let cleaned_response = strip response;
         cleaned_response = (if startswith cleaned_response (ascii ''```json'')
                             then drop 7 cleaned_response else cleaned_response);
         cleaned_response = (if endswith cleaned_response (ascii ''```'')
                             then take (length cleaned_response - 3) cleaned_response
                             else cleaned_response)
     in strip cleaned_response)"

definition validate_json_response ::
  "(pystr \<Rightarrow> json option) \<Rightarrow> (pystr \<Rightarrow> pyfloat option) \<Rightarrow> pystr
     \<Rightarrow> bool \<times> json list option \<times> diagnostic" where
  "validate_json_response loads pf response =
    (case loads (clean_response response) of
       None \<Rightarrow> (False, None, Invalid_JSON)
     | Some parsed \<Rightarrow> validate_parsed pf parsed)"

subsection \<open>ResponseValidator.check_response_quality\<close>

datatype quality_issue =
    No_labels_predicted
  | Low_confidence_labels "pystr list"
  | Too_many_labels nat

definition check_response_quality :: "label_pred list \<Rightarrow> pyfloat \<Rightarrow> bool \<times> quality_issue list" where
  "check_response_quality labels_data min_confidence =
    (if labels_data = [] then (False, [No_labels_predicted])
     else
       (let issues = [];
            low_confidence_labels =
              map label (filter (\<lambda>item. flt (confidence item) min_confidence) labels_data);
            issues = (if low_confidence_labels \<noteq> []
                      then issues @ [Low_confidence_labels low_confidence_labels] else issues);
            issues = (if length labels_data > 4
                      then issues @ [Too_many_labels (length labels_data)] else issues)
        in (length issues = 0, issues)))"

section \<open>src/api\_client.py\<close>

subsection \<open>The completion service and the effects of the client\<close>

text \<open>
  The completion service is outside the program. One call of
  \<^verbatim>\<open>client.chat.completions.create\<close> either returns a response (its text and the
  reported token usage) or raises; an exception is kept with its class, as far as the
  source tells the classes apart, and its message \<^verbatim>\<open>str(e)\<close>.
\<close>

record response =
  content :: pystr
  prompt_tokens :: nat
  completion_tokens :: nat

datatype api_error = RateLimitError pystr | APIError pystr | OtherError pystr

fun str_api_error :: "api_error \<Rightarrow> pystr" where
  "str_api_error (RateLimitError m) = m"
| "str_api_error (APIError m) = m"
| "str_api_error (OtherError m) = m"

datatype attempt = Completed response | Raised api_error

text \<open>
  The state of the outside world as the client changes it: the number of calls of the
  completion service made so far, and the durations, in seconds, of the
  \<^verbatim>\<open>time.sleep\<close> calls, in order.
\<close>

record world =
  attempts :: nat
  slept :: "nat list"

text \<open>The text of one record, as \<^verbatim>\<open>process_batch\<close> hands it over.\<close>

record batch_record =
  index :: int
  title :: pystr
  description :: pystr
  content_text :: pystr

text \<open>
  What the client is constructed with and what it calls: the completion service
  (which answers the \<open>n\<close>-th call for a model and a record's text; the prompt is a
  function of the text), \<^verbatim>\<open>json.loads\<close>, the float parser, the cost calculator, the
  two model names and the confidence threshold of the configuration.
\<close>

record env =
  create :: "nat \<Rightarrow> pystr \<Rightarrow> pystr \<times> pystr \<times> pystr \<Rightarrow> attempt"
  json_loads :: "pystr \<Rightarrow> json option"
  parse_float :: "pystr \<Rightarrow> pyfloat option"
  calculate_cost :: "nat \<Rightarrow> nat \<Rightarrow> real"
  model :: pystr
  fallback_model :: pystr
  CONFIDENCE_THRESHOLD :: pyfloat

subsection \<open>\<^verbatim>\<open>_make_api_call\<close>\<close>

text \<open>
  The body of \<^verbatim>\<open>_make_api_call\<close>: one call of the service. A rate-limit error
  sleeps 60 seconds before it is raised again.
\<close>

definition make_api_call_body ::
  "env \<Rightarrow> pystr \<Rightarrow> pystr \<times> pystr \<times> pystr \<Rightarrow> world
     \<Rightarrow> (api_error + response \<times> pystr) \<times> world" where
  "make_api_call_body e model_arg messages w =
    (let model_to_use = (if model_arg = [] then model e else model_arg);
         w' = w\<lparr>attempts := attempts w + 1\<rparr>
     in (case create e (attempts w) model_to_use messages of
           Completed r \<Rightarrow> (Inr (r, model_to_use), w')
         | Raised (RateLimitError m) \<Rightarrow>
             (Inl (RateLimitError m), w'\<lparr>slept := slept w' @ [60]\<rparr>)
         | Raised err \<Rightarrow> (Inl err, w')))"

text \<open>
  Modelled from the spec: the decorator \<^verbatim>\<open>retry(tries, delay, backoff)\<close> of the
  third-party package \<^verbatim>\<open>retry\<close>, which is not part of the sources. It calls the
  function up to \<open>tries\<close> times; after a failed attempt that is not the last it sleeps
  \<open>delay\<close> seconds and multiplies the delay by \<open>backoff\<close>; the exception of the last
  attempt is raised. With no attempt left at all the wrapper returns \<^verbatim>\<open>None\<close>.
\<close>

fun retry ::
  "nat \<Rightarrow> nat \<Rightarrow> nat \<Rightarrow> (world \<Rightarrow> (api_error + 'a) \<times> world) \<Rightarrow> world
     \<Rightarrow> (api_error + 'a option) \<times> world" where
  "retry 0 delay backoff f w = (Inr None, w)"
| "retry (Suc tries) delay backoff f w =
    (case f w of
       (Inr r, w') \<Rightarrow> (Inr (Some r), w')
     | (Inl err, w') \<Rightarrow>
         (if tries = 0 then (Inl err, w')
          else retry tries (delay * backoff) backoff f (w'\<lparr>slept := slept w' @ [delay]\<rparr>)))"

definition make_api_call ::
  "env \<Rightarrow> pystr \<Rightarrow> pystr \<times> pystr \<times> pystr \<Rightarrow> world
     \<Rightarrow> (api_error + (response \<times> pystr) option) \<times> world" where
  "make_api_call e model_arg messages = retry 3 1 2 (make_api_call_body e model_arg messages)"

subsection \<open>\<^verbatim>\<open>classify_text\<close>\<close>

record classification =
  labels :: "label_pred list"
  model_used :: pystr
  input_tokens :: nat
  output_tokens :: nat
  cost :: real
  warnings :: "pystr list"
  quality_issues :: "quality_issue list"
  raw_response :: pystr

record failure =
  error :: pystr
  validation_message :: "diagnostic option"
  failed_response :: "pystr option"

datatype result = Labelled classification | Failure failure

text \<open>
  \<^verbatim>\<open>classify_text\<close> returns the success flag and the result dictionary. Every
  exception raised inside it is caught and becomes a failure whose error is
  \<^verbatim>\<open>str(e)\<close>: the error of the service after the retries, the TypeError of
  subscripting \<^verbatim>\<open>None\<close>, the exception that left \<^verbatim>\<open>validate_labels\<close>.
  A call that returns at all returns \<^verbatim>\<open>success: True\<close>, so the branch
  \<^verbatim>\<open>'API call failed'\<close> of the source is never taken and has no counterpart here;
  the token count taken before the call is not used by the source and is left out.
\<close>

definition classify_text ::
  "env \<Rightarrow> pystr \<Rightarrow> pystr \<Rightarrow> pystr \<Rightarrow> bool \<Rightarrow> world \<Rightarrow> (bool \<times> result) \<times> world" where
  "classify_text e ttl desc cont use_fallback w =
    (let model_to_use = (if use_fallback then fallback_model e else model e)
     in (case make_api_call e model_to_use (ttl, desc, cont) w of
           (Inl err, w') \<Rightarrow>
             ((False, Failure \<lparr>error = str_api_error err, validation_message = None,
                               failed_response = None\<rparr>), w')
         | (Inr None, w') \<Rightarrow>
             ((False, Failure \<lparr>error = [39] @ ascii ''NoneType'' @ [39] @
                                        ascii '' object is not subscriptable'',
                               validation_message = None, failed_response = None\<rparr>), w')
         | (Inr (Some (r, used)), w') \<Rightarrow>
             (let response_content = content r;
                  actual_input_tokens = prompt_tokens r;
                  actual_output_tokens = completion_tokens r;
                  cst = calculate_cost e actual_input_tokens actual_output_tokens
              in (case validate_json_response (json_loads e) (parse_float e) response_content of
                    (False, _, validation_msg) \<Rightarrow>
                      ((False, Failure \<lparr>error = ascii ''Invalid response format'',
                                        validation_message = Some validation_msg,
                                        failed_response = Some response_content\<rparr>), w')
                  | (True, parsed_labels, _) \<Rightarrow>
                      (case validate_labels (parse_float e) (case parsed_labels of None \<Rightarrow> [] | Some xs \<Rightarrow> xs) of
                         Inl ae \<Rightarrow>
                           ((False, Failure \<lparr>error = str_labels_exn ae,
                                             validation_message = None,
                                             failed_response = None\<rparr>), w')
                       | Inr (cleaned_labels, warns) \<Rightarrow>
                           (case check_response_quality cleaned_labels (CONFIDENCE_THRESHOLD e) of
                              (is_quality, issues) \<Rightarrow>
                                ((True, Labelled
                                    \<lparr>labels = cleaned_labels, model_used = used,
                                     input_tokens = actual_input_tokens,
                                     output_tokens = actual_output_tokens,
                                     cost = cst, warnings = warns,
                                     quality_issues = (if \<not> is_quality then issues else []),
                                     raw_response = response_content\<rparr>), w')))))))"

subsection \<open>\<^verbatim>\<open>classify_batch\<close>\<close>

record metadata =
  meta_model_used :: pystr
  meta_cost :: real
  meta_warnings :: "pystr list"
  meta_quality_issues :: "quality_issue list"
  used_fallback :: bool

text \<open>One entry of the list \<^verbatim>\<open>classify_batch\<close> returns. A failed outcome has the
  empty dictionary as metadata (\<open>None\<close> here) and no labels.\<close>

record outcome =
  outcome_index :: int
  success :: bool
  outcome_labels :: "label_pred list"
  outcome_metadata :: "metadata option"
  outcome_error :: "pystr option"

text \<open>What \<^verbatim>\<open>classify_batch\<close> does besides returning: the calls of
  \<^verbatim>\<open>classify_text\<close> (record index and \<^verbatim>\<open>use_fallback\<close>) and the pacing sleeps.\<close>

datatype event = Call int bool | Sleep nat

text \<open>\<^verbatim>\<open>result.get('error', 'Unknown error')\<close>.\<close>

definition get_error :: "result \<Rightarrow> pystr" where
  "get_error r = (case r of Failure f \<Rightarrow> error f | Labelled c \<Rightarrow> ascii ''Unknown error'')"

definition success_outcome :: "int \<Rightarrow> classification \<Rightarrow> bool \<Rightarrow> outcome" where
  "success_outcome idx c fb =
     \<lparr>outcome_index = idx, success = True, outcome_labels = labels c,
      outcome_metadata = Some \<lparr>meta_model_used = model_used c, meta_cost = cost c,
                               meta_warnings = warnings c,
                               meta_quality_issues = quality_issues c,
                               used_fallback = fb\<rparr>,
      outcome_error = None\<rparr>"

definition failed_outcome :: "int \<Rightarrow> pystr \<Rightarrow> outcome" where
  "failed_outcome idx msg =
     \<lparr>outcome_index = idx, success = False, outcome_labels = [], outcome_metadata = None,
      outcome_error = Some msg\<rparr>"

text \<open>
  The \<^verbatim>\<open>try\<close> block of the loop body, up to the pacing sleep. \<^verbatim>\<open>classify_text\<close> is
  the parameter \<open>ct\<close>, with a state \<open>'w\<close> of its own; it returns \<open>Inl\<close> the message of
  an exception it lets escape. \<open>Inl\<close> of the block is the message of the exception
  that reaches the \<^verbatim>\<open>except Exception\<close> clause: one \<open>ct\<close> raised, or the KeyError of
  reading \<^verbatim>\<open>result['labels']\<close> from a dictionary without labels.
\<close>

definition try_classify ::
  "(batch_record \<Rightarrow> bool \<Rightarrow> 'w \<Rightarrow> (pystr + bool \<times> result) \<times> 'w) \<Rightarrow> batch_record \<Rightarrow> 'w
     \<Rightarrow> (pystr + outcome) \<times> event list \<times> 'w" where
  "try_classify ct data w =
    (case ct data False w of
       (Inl msg, w1) \<Rightarrow> (Inl msg, [Call (index data) False], w1)
     | (Inr (True, r), w1) \<Rightarrow>
         (case r of
            Labelled c \<Rightarrow>
              (Inr (success_outcome (index data) c False), [Call (index data) False], w1)
          | Failure f \<Rightarrow>
              (Inl ([39] @ ascii ''labels'' @ [39]), [Call (index data) False], w1))
     | (Inr (False, r), w1) \<Rightarrow>
         (case ct data True w1 of
            (Inl msg, w2) \<Rightarrow>
              (Inl msg, [Call (index data) False, Call (index data) True], w2)
          | (Inr (True, r2), w2) \<Rightarrow>
              (case r2 of
                 Labelled c \<Rightarrow>
                   (Inr (success_outcome (index data) c True),
                    [Call (index data) False, Call (index data) True], w2)
               | Failure f \<Rightarrow>
                   (Inl ([39] @ ascii ''labels'' @ [39]),
                    [Call (index data) False, Call (index data) True], w2))
          | (Inr (False, r2), w2) \<Rightarrow>
              (Inr (failed_outcome (index data) (get_error r)),
               [Call (index data) False, Call (index data) True], w2)))"

text \<open>The loop body: the \<^verbatim>\<open>try\<close> block, the sleep of one second unless the record is
  the last of the batch, and the \<^verbatim>\<open>except\<close> clause, which records a failure.\<close>

definition classify_record ::
  "(batch_record \<Rightarrow> bool \<Rightarrow> 'w \<Rightarrow> (pystr + bool \<times> result) \<times> 'w) \<Rightarrow> nat \<Rightarrow> nat
     \<Rightarrow> batch_record \<Rightarrow> 'w \<Rightarrow> outcome \<times> event list \<times> 'w" where
  "classify_record ct n i data w =
    (case try_classify ct data w of
       (Inr out, tr, w') \<Rightarrow> (out, tr @ (if int i < int n - 1 then [Sleep 1] else []), w')
     | (Inl msg, tr, w') \<Rightarrow> (failed_outcome (index data) msg, tr, w'))"

fun classify_batch_loop ::
  "(batch_record \<Rightarrow> bool \<Rightarrow> 'w \<Rightarrow> (pystr + bool \<times> result) \<times> 'w) \<Rightarrow> nat \<Rightarrow> nat
     \<Rightarrow> batch_record list \<Rightarrow> outcome list \<Rightarrow> event list \<Rightarrow> 'w
     \<Rightarrow> outcome list \<times> event list \<times> 'w" where
  "classify_batch_loop ct n i [] results tr w = (results, tr, w)"
| "classify_batch_loop ct n i (data # rest) results tr w =
    (case classify_record ct n i data w of
       (out, tr', w') \<Rightarrow> classify_batch_loop ct n (i + 1) rest (results @ [out]) (tr @ tr') w')"

definition classify_batch ::
  "(batch_record \<Rightarrow> bool \<Rightarrow> 'w \<Rightarrow> (pystr + bool \<times> result) \<times> 'w) \<Rightarrow> batch_record list \<Rightarrow> 'w
     \<Rightarrow> outcome list \<times> event list \<times> 'w" where
  "classify_batch ct batch_data w = classify_batch_loop ct (length batch_data) 0 batch_data [] [] w"

text \<open>The client's own \<^verbatim>\<open>classify_text\<close> as the parameter of \<^verbatim>\<open>classify_batch\<close>: it
  lets no exception escape.\<close>

definition client_classify_text ::
  "env \<Rightarrow> batch_record \<Rightarrow> bool \<Rightarrow> world \<Rightarrow> (pystr + bool \<times> result) \<times> world" where
  "client_classify_text e data use_fallback w =
    (case classify_text e (title data) (description data) (content_text data) use_fallback w of
       (r, w') \<Rightarrow> (Inr r, w'))"

section \<open>src/data\_processor.py\<close>

text \<open>A row of the dataset, after \<^verbatim>\<open>load_data\<close> has checked that the three columns
  exist and hold no null.\<close>

record row =
  Tieu_de :: pystr
  Description :: pystr
  Noi_dung_tin_bai :: pystr

text \<open>\<^verbatim>\<open>df.iloc[idx]\<close>: a negative position counts from the end, a position outside
  the frame raises IndexError.\<close>

definition iloc :: "'a list \<Rightarrow> int \<Rightarrow> exn + 'a" where
  "iloc df idx =
    (let n = int (length df)
     in if 0 \<le> idx \<and> idx < n then Inr (df ! nat idx)
        else if - n \<le> idx \<and> idx < 0 then Inr (df ! nat (n + idx))
        else Inl IndexError)"

text \<open>
  The loop of \<^verbatim>\<open>process_batch\<close> over \<^verbatim>\<open>range(start_idx, end_idx)\<close>. The row is read
  outside the \<^verbatim>\<open>try\<close> block, so the IndexError leaves the function. The field
  \<^verbatim>\<open>combined_text\<close> of the record is not read by the client and is left out.
\<close>

fun process_batch_loop :: "row list \<Rightarrow> int list \<Rightarrow> batch_record list \<Rightarrow> exn + batch_record list" where
  "process_batch_loop df [] batch_data = Inr batch_data"
| "process_batch_loop df (idx # rest) batch_data =
    (case iloc df idx of
       Inl e \<Rightarrow> Inl e
     | Inr r \<Rightarrow>
         (case validate_text_record (Tieu_de r) (Description r) (Noi_dung_tin_bai r) of
            (False, errors) \<Rightarrow> process_batch_loop df rest batch_data
          | (True, errors) \<Rightarrow>
              process_batch_loop df rest
                (batch_data @ [\<lparr>index = idx, title = Tieu_de r, description = Description r,
                                content_text = Noi_dung_tin_bai r\<rparr>])))"

definition process_batch :: "row list \<Rightarrow> int \<Rightarrow> int \<Rightarrow> exn + batch_record list" where
  "process_batch df start_idx batch_size =
    (let end_idx = min (start_idx + batch_size) (int (length df))
     in process_batch_loop df [start_idx..end_idx - 1] [])"

section \<open>src/batch\_processor.py\<close>

subsection \<open>\<^verbatim>\<open>process_dataset\<close>\<close>

text \<open>The checkpoint dictionary. A fresh checkpoint has no \<^verbatim>\<open>successful_count\<close>; the
  time stamps are left out.\<close>

record checkpoint =
  last_processed_index :: int
  checkpoint_total_cost :: real
  processed_count :: nat
  successful_count :: "nat option"

text \<open>
  The variables of the loop of \<^verbatim>\<open>process_dataset\<close>, the checkpoint (the dictionary
  and the file are written together), the result file, and the state and the trace
  of the classification client. Writing the two files is taken to succeed; a failure
  to write is caught and logged inside \<^verbatim>\<open>save_results\<close> and \<^verbatim>\<open>save_checkpoint\<close>.
\<close>

record 'w run_state =
  current_index :: int
  total_processed :: nat
  total_successful :: nat
  total_cost :: real
  all_batch_results :: "outcome list"
  ckpt :: checkpoint
  results_file :: "outcome list"
  client_state :: 'w
  client_trace :: "event list"

text \<open>\<^verbatim>\<open>r.get('metadata', {}).get('cost', 0)\<close>.\<close>

definition outcome_cost :: "outcome \<Rightarrow> real" where
  "outcome_cost r = (case outcome_metadata r of None \<Rightarrow> 0 | Some m \<Rightarrow> meta_cost m)"

text \<open>
  The \<^verbatim>\<open>try\<close> block of one iteration of the \<^verbatim>\<open>while\<close> loop. \<open>Inl\<close> is an exception
  that reaches the \<^verbatim>\<open>except Exception\<close> clause. A user interrupt is an asynchronous
  signal and is not modelled.
\<close>

definition batch_body ::
  "(batch_record \<Rightarrow> bool \<Rightarrow> 'w \<Rightarrow> (pystr + bool \<times> result) \<times> 'w) \<Rightarrow> row list \<Rightarrow> int \<Rightarrow> int
     \<Rightarrow> 'w run_state \<Rightarrow> exn + 'w run_state" where
  "batch_body ct df batch_size end_index st =
    (let actual_batch_size = min batch_size (end_index - current_index st)
     in (case process_batch df (current_index st) actual_batch_size of
           Inl e \<Rightarrow> Inl e
         | Inr batch_data \<Rightarrow>
             (if batch_data = []
              then Inr (st\<lparr>current_index := current_index st + actual_batch_size\<rparr>)
              else
                (case classify_batch ct batch_data (client_state st) of
                   (batch_results, tr, w') \<Rightarrow>
                     (let successful_in_batch = length (filter success batch_results);
                          batch_cost = sum_list (map outcome_cost (filter success batch_results));
                          total_processed' = total_processed st + length batch_results;
                          total_successful' = total_successful st + successful_in_batch;
                          total_cost' = total_cost st + batch_cost
                      in Inr (st\<lparr>
                           total_processed := total_processed',
                           total_successful := total_successful',
                           total_cost := total_cost',
                           all_batch_results := all_batch_results st @ batch_results,
                           results_file := results_file st @ batch_results,
                           ckpt := (ckpt st)\<lparr>
                             last_processed_index := current_index st + int (length batch_data),
                             checkpoint_total_cost := total_cost',
                             processed_count := total_processed',
                             successful_count := Some total_successful'\<rparr>,
                           client_state := w',
                           client_trace := client_trace st @ tr,
                           current_index := current_index st + int (length batch_data)\<rparr>))))))"

text \<open>One iteration: the \<^verbatim>\<open>try\<close> block and the \<^verbatim>\<open>except Exception\<close> clause, which
  skips the batch.\<close>

definition batch_iteration ::
  "(batch_record \<Rightarrow> bool \<Rightarrow> 'w \<Rightarrow> (pystr + bool \<times> result) \<times> 'w) \<Rightarrow> row list \<Rightarrow> int \<Rightarrow> int
     \<Rightarrow> 'w run_state \<Rightarrow> 'w run_state" where
  "batch_iteration ct df batch_size end_index st =
    (case batch_body ct df batch_size end_index st of
       Inr st' \<Rightarrow> st'
     | Inl e \<Rightarrow> st\<lparr>current_index := current_index st + batch_size\<rparr>)"

text \<open>
  The \<^verbatim>\<open>while current_index < end_index\<close> loop. It need not end (a batch size that
  is not positive never moves forward), so it runs on fuel: \<open>None\<close> is a loop still
  running when the fuel is used up.
\<close>

fun process_loop ::
  "nat \<Rightarrow> (batch_record \<Rightarrow> bool \<Rightarrow> 'w \<Rightarrow> (pystr + bool \<times> result) \<times> 'w) \<Rightarrow> row list \<Rightarrow> int
     \<Rightarrow> int \<Rightarrow> 'w run_state \<Rightarrow> 'w run_state option" where
  "process_loop fuel ct df batch_size end_index st =
    (if current_index st < end_index
     then (case fuel of
             0 \<Rightarrow> None
           | Suc fuel' \<Rightarrow>
               process_loop fuel' ct df batch_size end_index
                 (batch_iteration ct df batch_size end_index st))
     else Some st)"

declare process_loop.simps [simp del]

text \<open>The state after \<open>n\<close> iterations of the loop (fewer when the loop has ended).\<close>

fun after_batches ::
  "nat \<Rightarrow> (batch_record \<Rightarrow> bool \<Rightarrow> 'w \<Rightarrow> (pystr + bool \<times> result) \<times> 'w) \<Rightarrow> row list \<Rightarrow> int
     \<Rightarrow> int \<Rightarrow> 'w run_state \<Rightarrow> 'w run_state" where
  "after_batches 0 ct df batch_size end_index st = st"
| "after_batches (Suc n) ct df batch_size end_index st =
    (let s = after_batches n ct df batch_size end_index st
     in if current_index s < end_index then batch_iteration ct df batch_size end_index s
        else s)"

text \<open>
  The start of \<^verbatim>\<open>process_dataset\<close>: the arguments \<^verbatim>\<open>batch_size\<close>, \<^verbatim>\<open>start_from\<close>
  and \<^verbatim>\<open>max_records\<close> may be \<^verbatim>\<open>None\<close>; \<open>loaded\<close> is what \<^verbatim>\<open>load_checkpoint\<close>
  returned and \<open>config_BATCH_SIZE\<close> the configured batch size.
\<close>

definition start_index_of :: "int option \<Rightarrow> checkpoint \<Rightarrow> int" where
  "start_index_of start_from loaded =
     (case start_from of Some s \<Rightarrow> s | None \<Rightarrow> last_processed_index loaded)"

definition batch_size_of :: "int option \<Rightarrow> int \<Rightarrow> int" where
  "batch_size_of batch_size config_BATCH_SIZE =
     (case batch_size of
        None \<Rightarrow> config_BATCH_SIZE
      | Some b \<Rightarrow> (if b = 0 then config_BATCH_SIZE else b))"

definition end_index_of :: "int option \<Rightarrow> int \<Rightarrow> row list \<Rightarrow> int" where
  "end_index_of max_records start_index df =
     (case max_records of
        None \<Rightarrow> int (length df)
      | Some m \<Rightarrow> (if m = 0 then int (length df)
                   else min (start_index + m) (int (length df))))"

definition initial_state :: "int option \<Rightarrow> checkpoint \<Rightarrow> outcome list \<Rightarrow> 'w \<Rightarrow> 'w run_state" where
  "initial_state start_from loaded file w =
     \<lparr>current_index = start_index_of start_from loaded,
      total_processed = 0, total_successful = 0,
      total_cost = checkpoint_total_cost loaded,
      all_batch_results = [], ckpt = loaded, results_file = file,
      client_state = w, client_trace = []\<rparr>"

definition process_dataset ::
  "nat \<Rightarrow> (batch_record \<Rightarrow> bool \<Rightarrow> 'w \<Rightarrow> (pystr + bool \<times> result) \<times> 'w) \<Rightarrow> int \<Rightarrow> row list
     \<Rightarrow> int option \<Rightarrow> int option \<Rightarrow> int option \<Rightarrow> checkpoint \<Rightarrow> outcome list \<Rightarrow> 'w
     \<Rightarrow> 'w run_state option" where
  "process_dataset fuel ct config_BATCH_SIZE df batch_size start_from max_records loaded file w =
    (let start_index = start_index_of start_from loaded;
         bs = batch_size_of batch_size config_BATCH_SIZE;
         end_index = end_index_of max_records start_index df
     in process_loop fuel ct df bs end_index (initial_state start_from loaded file w))"

text \<open>The state of a run of \<^verbatim>\<open>process_dataset\<close> after \<open>n\<close> iterations of its loop.\<close>

definition run_after ::
  "nat \<Rightarrow> (batch_record \<Rightarrow> bool \<Rightarrow> 'w \<Rightarrow> (pystr + bool \<times> result) \<times> 'w) \<Rightarrow> int \<Rightarrow> row list
     \<Rightarrow> int option \<Rightarrow> int option \<Rightarrow> int option \<Rightarrow> checkpoint \<Rightarrow> outcome list \<Rightarrow> 'w
     \<Rightarrow> 'w run_state" where
  "run_after n ct config_BATCH_SIZE df batch_size start_from max_records loaded file w =
    (let start_index = start_index_of start_from loaded;
         bs = batch_size_of batch_size config_BATCH_SIZE;
         end_index = end_index_of max_records start_index df
     in after_batches n ct df bs end_index (initial_state start_from loaded file w))"

subsection \<open>\<^verbatim>\<open>create_final_csv\<close>\<close>

record csv_row =
  original :: row
  predicted_labels :: pystr
  prediction_confidence :: pystr
  csv_model_used :: pystr
  classification_success :: bool

text \<open>\<^verbatim>\<open>sep.join(xs)\<close>.\<close>

fun join :: "pystr \<Rightarrow> pystr list \<Rightarrow> pystr" where
  "join sep [] = []"
| "join sep [x] = x"
| "join sep (x # y # ys) = x @ sep @ join sep (y # ys)"

text \<open>The dictionary comprehension \<^verbatim>\<open>{r['index']: r for r in results}\<close>: a later
  entry replaces an earlier one with the same index.\<close>

definition results_dict :: "outcome list \<Rightarrow> int \<Rightarrow> outcome option" where
  "results_dict results = foldl (\<lambda>m r. m(outcome_index r \<mapsto> r)) Map.empty results"

text \<open>
  The loop over \<^verbatim>\<open>df_original.iterrows()\<close>; the index of a frame read from a CSV
  file counts the rows from 0. \<open>fmt\<close> is the format \<^verbatim>\<open>f"{c:.2f}"\<close> of the interpreter.
\<close>

fun final_rows ::
  "(pyfloat \<Rightarrow> pystr) \<Rightarrow> (int \<Rightarrow> outcome option) \<Rightarrow> int \<Rightarrow> row list \<Rightarrow> csv_row list" where
  "final_rows fmt rd idx [] = []"
| "final_rows fmt rd idx (r # rest) =
    (let dflt = \<lparr>original = r, predicted_labels = [], prediction_confidence = [],
                 csv_model_used = [], classification_success = False\<rparr>;
         new_row =
           (case rd idx of
              None \<Rightarrow> dflt
            | Some res \<Rightarrow>
                (if success res
                 then dflt\<lparr>predicted_labels := join (ascii ''; '') (map label (outcome_labels res)),
                           prediction_confidence :=
                             join (ascii ''; '') (map (\<lambda>l. fmt (confidence l)) (outcome_labels res)),
                           csv_model_used :=
                             (case outcome_metadata res of None \<Rightarrow> []
                              | Some m \<Rightarrow> meta_model_used m),
                           classification_success := True\<rparr>
                 else dflt))
     in new_row # final_rows fmt rd (idx + 1) rest)"

text \<open>\<open>None\<close> for the result file is a file that does not exist.\<close>

definition create_final_csv ::
  "(pyfloat \<Rightarrow> pystr) \<Rightarrow> row list \<Rightarrow> outcome list option \<Rightarrow> exn + csv_row list" where
  "create_final_csv fmt df_original file =
    (case file of
       None \<Rightarrow> Inl FileNotFoundError
     | Some results \<Rightarrow> Inr (final_rows fmt (results_dict results) 0 df_original))"

section \<open>Verification\<close>

subsection \<open>C6: \<^verbatim>\<open>validate_labels\<close> filters the labels and cleans the confidences\<close>

text \<open>
  The loop is compared with a description of what it does to each item on its own:
  which items are kept, what the cleaned entry of a kept item is, which warnings an
  item gives. The description follows the wording of the specification, with the
  two places made exact where the source differs from it: a confidence that is
  \<^emph>\<open>missing\<close> becomes 0.0 without a warning (the default of \<^verbatim>\<open>item.get\<close>), and only
  a confidence that is present but does not convert becomes 0.5 with a warning.
  The description covers the lists on which the function returns: an integer
  confidence beyond the doubles, on an entry that is kept, makes \<^verbatim>\<open>float\<close> raise an
  OverflowError that the function does not catch.
\<close>

definition str_label :: "json \<Rightarrow> bool" where
  "str_label item = (case item of
      JObj d \<Rightarrow> (case map_of d (ascii ''label'') of None \<Rightarrow> True | Some (JStr s) \<Rightarrow> True | Some _ \<Rightarrow> False)
    | _ \<Rightarrow> False)"

definition item_label :: "json \<Rightarrow> pystr" where
  "item_label item = (case item of
      JObj d \<Rightarrow> (case map_of d (ascii ''label'') of Some (JStr s) \<Rightarrow> strip s | _ \<Rightarrow> [])
    | _ \<Rightarrow> [])"

definition item_confidence :: "json \<Rightarrow> json option" where
  "item_confidence item = (case item of JObj d \<Rightarrow> map_of d (ascii ''confidence'') | _ \<Rightarrow> None)"

definition in_taxonomy :: "json \<Rightarrow> bool" where
  "in_taxonomy item \<longleftrightarrow> item_label item \<in> set get_label_list"

definition representable :: "json \<Rightarrow> bool" where
  "representable item =
     (case item_confidence item of Some (JInt i) \<Rightarrow> \<bar>i\<bar> < float_limit | _ \<Rightarrow> True)"

definition cleanable :: "json \<Rightarrow> bool" where
  "cleanable item \<longleftrightarrow> str_label item \<and> (in_taxonomy item \<longrightarrow> representable item)"

definition clamp01 :: "pyfloat \<Rightarrow> pyfloat" where
  "clamp01 c = (case c of Fin r \<Rightarrow> Fin (max 0 (min 1 r)) | PosInf \<Rightarrow> Fin 1 | NegInf \<Rightarrow> Fin 0 | NaN \<Rightarrow> Fin 1)"

definition cleaned_confidence :: "(pystr \<Rightarrow> pyfloat option) \<Rightarrow> json \<Rightarrow> pyfloat" where
  "cleaned_confidence pf item =
     (case item_confidence item of
        None \<Rightarrow> Fin 0
      | Some v \<Rightarrow> (case py_float pf v of Inl e \<Rightarrow> Fin 0.5 | Inr c \<Rightarrow> clamp01 c))"

definition cleaned_entry :: "(pystr \<Rightarrow> pyfloat option) \<Rightarrow> json \<Rightarrow> label_pred" where
  "cleaned_entry pf item = \<lparr>label = item_label item, confidence = cleaned_confidence pf item\<rparr>"

definition entry_warnings :: "(pystr \<Rightarrow> pyfloat option) \<Rightarrow> json \<Rightarrow> pystr list" where
  "entry_warnings pf item =
     (if \<not> in_taxonomy item then [invalid_label_warning (item_label item)]
      else (case item_confidence item of
              None \<Rightarrow> []
            | Some v \<Rightarrow> (case py_float pf v of
                           Inl e \<Rightarrow> [invalid_confidence_warning (item_label item)]
                         | Inr c \<Rightarrow> [])))"

lemma clamp_eq: "py_max (Fin 0) (py_min (Fin 1) c) = clamp01 c"
  by (cases c) (auto simp: py_max_def py_min_def clamp01_def)

lemma clamp01_zero: "clamp01 (Fin 0) = Fin 0"
  by (simp add: clamp01_def)

lemma strip_Nil: "strip [] = []"
  by (simp add: strip_def)

lemma head_label:
  "str_label (JObj d) \<Longrightarrow> \<exists>s. dict_get d (ascii ''label'') (JStr []) = JStr s \<and> strip s = item_label (JObj d)"
  by (auto simp: str_label_def dict_get_def item_label_def strip_Nil split: option.splits json.splits)

lemma py_float_raises:
  "py_float pf v = Inl e \<Longrightarrow>
     (e = ValueError \<or> e = TypeError) \<and> (\<forall>i. v \<noteq> JInt i) \<or>
     e = OverflowError \<and> (\<exists>i. v = JInt i \<and> \<not> \<bar>i\<bar> < float_limit)"
  by (cases v) (auto split: option.splits if_splits)

lemma representable_caught:
  assumes "representable (JObj d)" and "map_of d (ascii ''confidence'') = Some v"
    and "py_float pf v = Inl e"
  shows "e = ValueError \<or> e = TypeError"
  using py_float_raises[OF assms(3)] assms(1,2)
  by (auto simp: representable_def item_confidence_def)

lemma unrepresentable_raised:
  assumes "\<not> representable (JObj d)"
  shows "\<exists>v. map_of d (ascii ''confidence'') = Some v \<and> py_float pf v = Inl OverflowError"
  using assms
  by (auto simp: representable_def item_confidence_def split: option.splits json.splits)

lemma loop_step:
  assumes "str_label (JObj d)" and "in_taxonomy (JObj d) \<longrightarrow> representable (JObj d)"
  shows "validate_labels_loop pf (JObj d # rest) cl ws =
           validate_labels_loop pf rest
             (cl @ map (cleaned_entry pf) (filter in_taxonomy [JObj d]))
             (ws @ entry_warnings pf (JObj d))"
proof -
  from head_label[OF assms(1)] obtain s where
    s: "dict_get d (ascii ''label'') (JStr []) = JStr s" "strip s = item_label (JObj d)" by blast
  have c: "item_confidence (JObj d) = map_of d (ascii ''confidence'')"
    by (simp add: item_confidence_def)
  have r: "e = ValueError \<or> e = TypeError"
    if "item_label (JObj d) \<in> set get_label_list"
      and "map_of d (ascii ''confidence'') = Some v" and "py_float pf v = Inl e" for v e
    using representable_caught[OF _ that(2,3)] assms(2) that(1) by (simp add: in_taxonomy_def)
  show ?thesis
    using s c r
    by (auto simp: in_taxonomy_def entry_warnings_def cleaned_entry_def cleaned_confidence_def
        clamp_eq clamp01_zero Let_def dict_get_def split: option.splits sum.splits)
qed

lemma loop_raise:
  assumes "str_label (JObj d)" and "in_taxonomy (JObj d)" and "\<not> representable (JObj d)"
  shows "validate_labels_loop pf (JObj d # rest) cl ws = Inl FloatOverflow"
proof -
  from head_label[OF assms(1)] obtain s where
    s: "dict_get d (ascii ''label'') (JStr []) = JStr s" "strip s = item_label (JObj d)" by blast
  from unrepresentable_raised[OF assms(3)] obtain v where
    v: "map_of d (ascii ''confidence'') = Some v" "py_float pf v = Inl OverflowError" by blast
  show ?thesis
    using s v assms(2) by (simp add: in_taxonomy_def dict_get_def)
qed

lemma loop_spec:
  "\<forall>item\<in>set items. cleanable item \<Longrightarrow>
   validate_labels_loop pf items cl ws =
     Inr (cl @ map (cleaned_entry pf) (filter in_taxonomy items),
          ws @ concat (map (entry_warnings pf) items))"
proof (induction items arbitrary: cl ws)
  case Nil
  then show ?case by simp
next
  case (Cons item items)
  then obtain d where d: "item = JObj d"
    by (auto simp: cleanable_def str_label_def split: json.splits)
  from Cons.prems d have sl: "str_label (JObj d)"
    and rp: "in_taxonomy (JObj d) \<longrightarrow> representable (JObj d)"
    by (simp_all add: cleanable_def)
  have rest: "\<forall>i\<in>set items. cleanable i" using Cons.prems by simp
  show ?case
    unfolding d loop_step[OF sl rp] Cons.IH[OF rest] by simp
qed

text \<open>The other lists of such objects: as soon as one kept entry has an integer
  confidence beyond the doubles, the function raises.\<close>

lemma loop_overflow:
  "\<forall>item\<in>set items. str_label item \<Longrightarrow>
   \<exists>item\<in>set items. in_taxonomy item \<and> \<not> representable item \<Longrightarrow>
   validate_labels_loop pf items cl ws = Inl FloatOverflow"
proof (induction items arbitrary: cl ws)
  case Nil
  then show ?case by simp
next
  case (Cons item items)
  then obtain d where d: "item = JObj d" by (auto simp: str_label_def split: json.splits)
  from Cons.prems(1) d have sl: "str_label (JObj d)" by simp
  have rest: "\<forall>i\<in>set items. str_label i" using Cons.prems(1) by simp
  show ?case
  proof (cases "in_taxonomy (JObj d) \<and> \<not> representable (JObj d)")
    case True
    then show ?thesis unfolding d using loop_raise[OF sl] by simp
  next
    case False
    then have rp: "in_taxonomy (JObj d) \<longrightarrow> representable (JObj d)" by blast
    from False Cons.prems(2) d
    have "\<exists>item\<in>set items. in_taxonomy item \<and> \<not> representable item" by auto
    from Cons.IH[OF rest this] show ?thesis
      unfolding d loop_step[OF sl rp] .
  qed
qed

lemma validate_labels_overflow:
  assumes "\<forall>item\<in>set items. str_label item"
    and "\<exists>item\<in>set items. in_taxonomy item \<and> \<not> representable item"
  shows "validate_labels pf items = Inl FloatOverflow"
  using loop_overflow[OF assms] by (simp add: validate_labels_def)

text \<open>Two labels for the examples: the twelfth label of the taxonomy, and a label that
  is not in it.\<close>

definition Khac :: pystr where "Khac = [75, 104, 225, 99]"

lemma Khac_in: "Khac \<in> set get_label_list"
  by (simp add: Khac_def get_label_list_def TNMT_LABELS_def)

lemma strip_Khac: "strip Khac = Khac"
  by (simp add: strip_def Khac_def is_space_def)


text \<open>
  \<^bold>\<open>C6\<close> (as amended). For every candidate list of objects whose label, when present,
  is a string, and in which the confidence of an entry with a taxonomy label, when it
  is an integer, is within the range of a float (below \<open>2 ^ 1024 - 2 ^ 970\<close> in
  absolute value), \<^verbatim>\<open>validate_labels\<close> returns normally; it keeps, in order, exactly
  the entries whose trimmed label is one of the taxonomy labels and emits one warning
  for each entry it drops; the confidence of every kept entry lies in \<open>[0, 1]\<close>: a
  numeric confidence is clamped, a missing one becomes 0.0 with no warning, one that is
  present and does not convert to a float (\<^verbatim>\<open>float\<close> raises ValueError or TypeError)
  becomes 0.5 with one warning.
\<close>

theorem validate_labels_cleaning:
  assumes "\<forall>item\<in>set items. cleanable item"
  shows "validate_labels pf items =
           Inr (map (cleaned_entry pf) (filter in_taxonomy items),
                concat (map (entry_warnings pf) items))
         \<and> (\<forall>p\<in>set (map (cleaned_entry pf) (filter in_taxonomy items)).
               label p \<in> set get_label_list \<and>
               (\<exists>r. confidence p = Fin r \<and> 0 \<le> r \<and> r \<le> 1))"
proof
  show "validate_labels pf items =
           Inr (map (cleaned_entry pf) (filter in_taxonomy items),
                concat (map (entry_warnings pf) items))"
    using loop_spec[OF assms, of pf "[]" "[]"] by (simp add: validate_labels_def)
next
  have c: "\<exists>r. clamp01 c = Fin r \<and> 0 \<le> r \<and> r \<le> 1" for c
    by (cases c) (auto simp: clamp01_def)
  have h: "\<exists>r::real. Fin 0.5 = Fin r \<and> 0 \<le> r \<and> r \<le> 1"
    by (rule exI[of _ "0.5"]) simp
  have z: "\<exists>r::real. Fin 0 = Fin r \<and> 0 \<le> r \<and> r \<le> 1"
    by (rule exI[of _ 0]) simp
  have "\<exists>r. cleaned_confidence pf item = Fin r \<and> 0 \<le> r \<and> r \<le> 1" for item
    unfolding cleaned_confidence_def using c h z
    by (simp split: option.splits sum.splits)
  then show "\<forall>p\<in>set (map (cleaned_entry pf) (filter in_taxonomy items)).
               label p \<in> set get_label_list \<and>
               (\<exists>r. confidence p = Fin r \<and> 0 \<le> r \<and> r \<le> 1)"
    by (auto simp: cleaned_entry_def in_taxonomy_def)
qed

lemma ascii_label_conf: "ascii ''label'' \<noteq> ascii ''confidence''" "ascii ''confidence'' \<noteq> ascii ''label''"
  by (simp_all add: ascii_def)

definition Sports :: pystr where "Sports = ascii ''Sports''"

lemma Sports_out: "Sports \<notin> set get_label_list"
  by (simp add: Sports_def ascii_def get_label_list_def TNMT_LABELS_def)

lemma strip_Sports: "strip Sports = Sports"
  by (simp add: strip_def Sports_def ascii_def is_space_def)

lemma strip_padded_Khac: "strip (32 # Khac @ [32]) = Khac"
  by (simp add: strip_def Khac_def is_space_def)

text \<open>
  The theorem at three lists. One valid label (padded with blanks, confidence \<open>-0.3\<close>)
  and one invalid label give one cleaned entry with confidence 0.0 and one warning;
  the confidence 1.7 becomes 1.0 and the confidence \<^verbatim>\<open>"high"\<close> becomes 0.5 with a
  warning; the integer confidence 3 becomes 1.0.
\<close>

theorem validate_labels_cleaning_witness:
  "validate_labels (\<lambda>s. None)
     [JObj [(ascii ''label'', JStr (32 # Khac @ [32])), (ascii ''confidence'', JFloat (Fin (- 0.3)))],
      JObj [(ascii ''label'', JStr Sports), (ascii ''confidence'', JFloat (Fin 0.9))]]
   = Inr ([\<lparr>label = Khac, confidence = Fin 0\<rparr>], [invalid_label_warning Sports])
   \<and> validate_labels (\<lambda>s. None)
     [JObj [(ascii ''label'', JStr Khac), (ascii ''confidence'', JFloat (Fin 1.7))],
      JObj [(ascii ''label'', JStr Khac), (ascii ''confidence'', JStr (ascii ''high''))]]
   = Inr ([\<lparr>label = Khac, confidence = Fin 1\<rparr>, \<lparr>label = Khac, confidence = Fin 0.5\<rparr>],
          [invalid_confidence_warning Khac])
   \<and> validate_labels (\<lambda>s. None)
     [JObj [(ascii ''label'', JStr Khac), (ascii ''confidence'', JInt 3)]]
   = Inr ([\<lparr>label = Khac, confidence = Fin 1\<rparr>], [])"
proof (intro conjI)
  let ?a = "[JObj [(ascii ''label'', JStr (32 # Khac @ [32])), (ascii ''confidence'', JFloat (Fin (- 0.3)))],
      JObj [(ascii ''label'', JStr Sports), (ascii ''confidence'', JFloat (Fin 0.9))]]"
  have "\<forall>item\<in>set ?a. cleanable item"
    by (simp add: cleanable_def str_label_def representable_def item_confidence_def
        ascii_label_conf)
  from validate_labels_cleaning[OF this, of "\<lambda>s. None"]
  show "validate_labels (\<lambda>s. None) ?a
      = Inr ([\<lparr>label = Khac, confidence = Fin 0\<rparr>], [invalid_label_warning Sports])"
    by (simp add: in_taxonomy_def item_label_def cleaned_entry_def cleaned_confidence_def
        item_confidence_def entry_warnings_def clamp01_def ascii_label_conf
        strip_padded_Khac strip_Sports Khac_in Sports_out)
next
  let ?b = "[JObj [(ascii ''label'', JStr Khac), (ascii ''confidence'', JFloat (Fin 1.7))],
      JObj [(ascii ''label'', JStr Khac), (ascii ''confidence'', JStr (ascii ''high''))]]"
  have "\<forall>item\<in>set ?b. cleanable item"
    by (simp add: cleanable_def str_label_def representable_def item_confidence_def
        ascii_label_conf)
  from validate_labels_cleaning[OF this, of "\<lambda>s. None"]
  show "validate_labels (\<lambda>s. None) ?b
   = Inr ([\<lparr>label = Khac, confidence = Fin 1\<rparr>, \<lparr>label = Khac, confidence = Fin 0.5\<rparr>],
          [invalid_confidence_warning Khac])"
    by (simp add: in_taxonomy_def item_label_def cleaned_entry_def cleaned_confidence_def
        item_confidence_def entry_warnings_def clamp01_def ascii_label_conf
        strip_Khac Khac_in)
next
  let ?c = "[JObj [(ascii ''label'', JStr Khac), (ascii ''confidence'', JInt 3)]]"
  have "\<forall>item\<in>set ?c. cleanable item"
    by (simp add: cleanable_def str_label_def representable_def item_confidence_def
        ascii_label_conf float_limit_def)
  from validate_labels_cleaning[OF this, of "\<lambda>s. None"]
  show "validate_labels (\<lambda>s. None) ?c = Inr ([\<lparr>label = Khac, confidence = Fin 1\<rparr>], [])"
    by (simp add: in_taxonomy_def item_label_def cleaned_entry_def cleaned_confidence_def
        item_confidence_def entry_warnings_def clamp01_def ascii_label_conf
        strip_Khac Khac_in float_limit_def)
qed

text \<open>
  The claim as it is written fails for a missing confidence: the entry gets 0.0,
  not 0.5, and no warning is emitted.
\<close>

theorem validate_labels_missing_confidence:
  "validate_labels (\<lambda>s. None) [JObj [(ascii ''label'', JStr Khac)]]
     = Inr ([\<lparr>label = Khac, confidence = Fin 0\<rparr>], [])
   \<and> validate_labels (\<lambda>s. None) [JObj [(ascii ''label'', JStr Khac)]]
     \<noteq> Inr ([\<lparr>label = Khac, confidence = Fin 0.5\<rparr>], [invalid_confidence_warning Khac])"
  by (simp add: validate_labels_def dict_get_def strip_Khac Khac_in ascii_label_conf
      py_max_def py_min_def)

text \<open>
  The hypothesis on integer confidences is needed: on a kept entry whose confidence is
  the integer \<open>10 ^ 400\<close> the function raises, where a clamp to 1.0 might be expected.
\<close>

lemma validate_labels_raises_overflow:
  "validate_labels pf
     [JObj [(ascii ''label'', JStr Khac), (ascii ''confidence'', JInt (10 ^ 400))]]
   = Inl FloatOverflow"
  by (rule validate_labels_overflow)
     (simp_all add: str_label_def in_taxonomy_def item_label_def representable_def
        item_confidence_def ascii_label_conf strip_Khac Khac_in float_limit_def)

subsection \<open>C7: rows that fail the record validation never reach the client\<close>

lemma strip_empty_iff: "strip s = [] \<longleftrightarrow> (\<forall>c\<in>set s. is_space c)"
proof -
  have "(\<forall>x\<in>set (dropWhile is_space s). is_space x) \<longleftrightarrow> (\<forall>x\<in>set s. is_space x)"
  proof
    assume a: "\<forall>x\<in>set (dropWhile is_space s). is_space x"
    have "dropWhile is_space s = []"
    proof (rule ccontr)
      assume n: "dropWhile is_space s \<noteq> []"
      then have "\<not> is_space (hd (dropWhile is_space s))" by (rule hd_dropWhile)
      moreover have "hd (dropWhile is_space s) \<in> set (dropWhile is_space s)" using n by simp
      ultimately show False using a by blast
    qed
    then show "\<forall>x\<in>set s. is_space x" by simp
  next
    assume "\<forall>x\<in>set s. is_space x"
    then show "\<forall>x\<in>set (dropWhile is_space s). is_space x"
      by (meson set_dropWhileD)
  qed
  then show ?thesis by (simp add: strip_def)
qed

lemma length_strip_le: "length (strip s) \<le> length s"
proof -
  have "length (dropWhile is_space (rev (dropWhile is_space s)))
          \<le> length (rev (dropWhile is_space s))"
    by (rule length_dropWhile_le)
  also have "\<dots> = length (dropWhile is_space s)" by simp
  also have "\<dots> \<le> length s" by (rule length_dropWhile_le)
  finally show ?thesis by (simp add: strip_def)
qed

text \<open>A string is blank when it is empty or consists of white space only; a row is
  rejected, in the words of the specification, when one of its three texts is blank
  or its title has fewer than 5 characters.\<close>

definition blank :: "pystr \<Rightarrow> bool" where
  "blank s \<longleftrightarrow> (\<forall>c\<in>set s. is_space c)"

definition rejected :: "row \<Rightarrow> bool" where
  "rejected r \<longleftrightarrow> blank (Tieu_de r) \<or> blank (Description r) \<or> blank (Noi_dung_tin_bai r)
                   \<or> length (Tieu_de r) < 5"

lemma validate_text_record_iff:
  "fst (validate_text_record t d c) \<longleftrightarrow>
     \<not> blank t \<and> \<not> blank d \<and> \<not> blank c \<and> 5 \<le> length (strip t)"
  by (auto simp: validate_text_record_def blank_def strip_empty_iff Let_def)

lemma rejected_fails:
  "rejected r \<Longrightarrow> \<not> fst (validate_text_record (Tieu_de r) (Description r) (Noi_dung_tin_bai r))"
  using length_strip_le[of "Tieu_de r"] by (auto simp: validate_text_record_iff rejected_def)

text \<open>The record \<^verbatim>\<open>process_batch\<close> builds from the row at position \<open>idx\<close>.\<close>

definition record_of :: "int \<Rightarrow> row \<Rightarrow> batch_record" where
  "record_of idx r = \<lparr>index = idx, title = Tieu_de r, description = Description r,
                      content_text = Noi_dung_tin_bai r\<rparr>"

lemma process_batch_loop_members:
  "process_batch_loop df idxs acc = Inr out \<Longrightarrow> d \<in> set out \<Longrightarrow>
   d \<in> set acc \<or> (\<exists>r. index d \<in> set idxs \<and> iloc df (index d) = Inr r \<and> d = record_of (index d) r \<and>
        fst (validate_text_record (Tieu_de r) (Description r) (Noi_dung_tin_bai r)))"
proof (induction idxs arbitrary: acc)
  case Nil
  then show ?case by simp
next
  case (Cons idx idxs)
  from Cons.prems(1) obtain r where r: "iloc df idx = Inr r"
    by (auto split: sum.splits)
  show ?case
  proof (cases "fst (validate_text_record (Tieu_de r) (Description r) (Noi_dung_tin_bai r))")
    case True
    with Cons.prems(1) r have
      "process_batch_loop df idxs (acc @ [record_of idx r]) = Inr out"
      by (auto simp: record_of_def split: prod.splits bool.splits)
    from Cons.IH[OF this Cons.prems(2)] True r show ?thesis
      by (auto simp: record_of_def)
  next
    case False
    with Cons.prems(1) r have "process_batch_loop df idxs acc = Inr out"
      by (auto split: prod.splits bool.splits)
    from Cons.IH[OF this Cons.prems(2)] show ?thesis by auto
  qed
qed

lemma try_classify_index:
  "try_classify ct data w = (Inr out, tr, w') \<Longrightarrow> outcome_index out = index data"
  by (auto simp: try_classify_def success_outcome_def failed_outcome_def
      split: prod.splits sum.splits bool.splits result.splits)

lemma try_classify_trace:
  "try_classify ct data w = (res, tr, w') \<Longrightarrow>
     tr = [Call (index data) False] \<or> tr = [Call (index data) False, Call (index data) True]"
  by (auto simp: try_classify_def split: prod.splits sum.splits bool.splits result.splits)

lemma classify_record_index:
  "classify_record ct n i data w = (out, tr, w') \<Longrightarrow> outcome_index out = index data"
  by (auto simp: classify_record_def failed_outcome_def dest: try_classify_index
      split: prod.splits sum.splits)

lemma classify_record_trace:
  "classify_record ct n i data w = (out, tr, w') \<Longrightarrow> ev \<in> set tr \<Longrightarrow>
     ev = Sleep 1 \<or> (\<exists>fb. ev = Call (index data) fb)"
  by (auto simp: classify_record_def dest!: try_classify_trace
      split: prod.splits sum.splits if_splits)

lemma classify_batch_loop_indices:
  "classify_batch_loop ct n i batch results tr w = (results', tr', w') \<Longrightarrow>
     map outcome_index results' = map outcome_index results @ map index batch"
proof (induction batch arbitrary: i results tr w)
  case Nil
  then show ?case by simp
next
  case (Cons data batch)
  obtain out t w1 where r: "classify_record ct n i data w = (out, t, w1)"
    by (cases "classify_record ct n i data w") auto
  with Cons.prems have "classify_batch_loop ct n (i + 1) batch (results @ [out]) (tr @ t) w1
      = (results', tr', w')" by simp
  from Cons.IH[OF this] classify_record_index[OF r] show ?case by simp
qed

lemma classify_batch_loop_trace:
  "classify_batch_loop ct n i batch results tr w = (results', tr', w') \<Longrightarrow> ev \<in> set tr' \<Longrightarrow>
     ev \<in> set tr \<or> ev = Sleep 1 \<or> (\<exists>d\<in>set batch. \<exists>fb. ev = Call (index d) fb)"
proof (induction batch arbitrary: i results tr w)
  case Nil
  then show ?case by auto
next
  case (Cons data batch)
  obtain out t w1 where r: "classify_record ct n i data w = (out, t, w1)"
    by (cases "classify_record ct n i data w") auto
  with Cons.prems have "classify_batch_loop ct n (i + 1) batch (results @ [out]) (tr @ t) w1
      = (results', tr', w')" by simp
  from Cons.IH[OF this Cons.prems(2)]
  consider "ev \<in> set tr" | "ev \<in> set t" | "ev = Sleep 1"
    | "\<exists>d\<in>set batch. \<exists>fb. ev = Call (index d) fb" by auto
  then show ?case
  proof cases
    case 2
    from classify_record_trace[OF r this] show ?thesis by auto
  qed auto
qed

lemma classify_batch_indices:
  "classify_batch ct batch w = (results, tr, w') \<Longrightarrow> map outcome_index results = map index batch"
  unfolding classify_batch_def by (drule classify_batch_loop_indices) simp

lemma classify_batch_trace:
  "classify_batch ct batch w = (results, tr, w') \<Longrightarrow> ev \<in> set tr \<Longrightarrow>
     ev = Sleep 1 \<or> (\<exists>d\<in>set batch. \<exists>fb. ev = Call (index d) fb)"
  unfolding classify_batch_def by (drule classify_batch_loop_trace) auto

text \<open>
  \<^bold>\<open>C7\<close>. Let \<^verbatim>\<open>process_batch\<close> return a batch and let the batch be handed to
  \<^verbatim>\<open>classify_batch\<close>, with any \<^verbatim>\<open>classify_text\<close>. Every record of the batch is built
  from the row at its index, and that row passes \<^verbatim>\<open>validate_text_record\<close> and is not
  rejected. A rejected row fails \<^verbatim>\<open>validate_text_record\<close>; its index is the index of
  no record of the batch, of no outcome, and of no call of \<^verbatim>\<open>classify_text\<close>.
\<close>

theorem invalid_rows_excluded:
  assumes "process_batch df start_idx batch_size = Inr batch"
    and "classify_batch ct batch w = (results, tr, w')"
  shows "(\<forall>d\<in>set batch. \<exists>r. iloc df (index d) = Inr r \<and> d = record_of (index d) r \<and>
            fst (validate_text_record (Tieu_de r) (Description r) (Noi_dung_tin_bai r)) \<and>
            \<not> rejected r)
       \<and> (\<forall>idx r. iloc df idx = Inr r \<and> rejected r \<longrightarrow>
            \<not> fst (validate_text_record (Tieu_de r) (Description r) (Noi_dung_tin_bai r)) \<and>
            idx \<notin> index ` set batch \<and> idx \<notin> outcome_index ` set results \<and>
            (\<forall>fb. Call idx fb \<notin> set tr))"
proof -
  have members: "\<exists>r. iloc df (index d) = Inr r \<and> d = record_of (index d) r \<and>
            fst (validate_text_record (Tieu_de r) (Description r) (Noi_dung_tin_bai r)) \<and>
            \<not> rejected r" if "d \<in> set batch" for d
    using process_batch_loop_members[OF assms(1)[unfolded process_batch_def Let_def] that]
      rejected_fails by auto
  have excl: "idx \<notin> index ` set batch" if "iloc df idx = Inr r" "rejected r" for idx r
    using members that by force
  have res: "outcome_index ` set results = index ` set batch"
    using classify_batch_indices[OF assms(2)] by (metis set_map)
  have calls: "Call idx fb \<notin> set tr" if "idx \<notin> index ` set batch" for idx fb
    using classify_batch_trace[OF assms(2), of "Call idx fb"] that by auto
  show ?thesis
  proof (intro conjI allI impI ballI)
    fix d assume "d \<in> set batch"
    then show "\<exists>r. iloc df (index d) = Inr r \<and> d = record_of (index d) r \<and>
            fst (validate_text_record (Tieu_de r) (Description r) (Noi_dung_tin_bai r)) \<and>
            \<not> rejected r" by (rule members)
  next
    fix idx r fb assume a: "iloc df idx = Inr r \<and> rejected r"
    then show "\<not> fst (validate_text_record (Tieu_de r) (Description r) (Noi_dung_tin_bai r))"
      using rejected_fails by blast
    from a have e: "idx \<notin> index ` set batch" using excl by blast
    then show "idx \<notin> index ` set batch" .
    from e show "idx \<notin> outcome_index ` set results" using res by simp
    from e show "Call idx fb \<notin> set tr" by (rule calls)
  qed
qed

text \<open>A frame of three rows: a valid one, one whose title has four characters, one
  whose description is blank; and a \<^verbatim>\<open>classify_text\<close> that fails every time.\<close>

definition good_row :: row where
  "good_row = \<lparr>Tieu_de = ascii ''Flood warning'', Description = ascii ''Heavy rain'',
               Noi_dung_tin_bai = ascii ''Rivers are rising''\<rparr>"

definition short_row :: row where
  "short_row = \<lparr>Tieu_de = ascii ''Rain'', Description = ascii ''Heavy rain'',
                Noi_dung_tin_bai = ascii ''Rivers are rising''\<rparr>"

definition blank_row :: row where
  "blank_row = \<lparr>Tieu_de = ascii ''Flood warning'', Description = ascii ''   '',
                Noi_dung_tin_bai = ascii ''Rivers are rising''\<rparr>"

definition always_fails :: "batch_record \<Rightarrow> bool \<Rightarrow> unit \<Rightarrow> (pystr + bool \<times> result) \<times> unit" where
  "always_fails data fb w =
     (Inr (False, Failure \<lparr>error = ascii ''Invalid response format'', validation_message = None,
                            failed_response = None\<rparr>), w)"

lemma good_row_valid:
  "validate_text_record (Tieu_de good_row) (Description good_row) (Noi_dung_tin_bai good_row) = (True, [])"
  by (simp add: validate_text_record_def good_row_def ascii_def strip_def is_space_def)

lemma short_row_invalid:
  "validate_text_record (Tieu_de short_row) (Description short_row) (Noi_dung_tin_bai short_row)
     = (False, [ascii ''Title too short (< 5 characters)''])"
  by (simp add: validate_text_record_def short_row_def ascii_def strip_def is_space_def)

lemma blank_row_invalid:
  "validate_text_record (Tieu_de blank_row) (Description blank_row) (Noi_dung_tin_bai blank_row)
     = (False, [ascii ''Description is empty''])"
  by (simp add: validate_text_record_def blank_row_def ascii_def strip_def is_space_def)

lemma upto_0_2: "[0..2::int] = [0, 1, 2]"
  by (simp add: upto.simps)

lemma example_batch:
  "process_batch [good_row, short_row, blank_row] 0 3 = Inr [record_of 0 good_row]"
  by (simp add: process_batch_def upto_0_2 iloc_def good_row_valid short_row_invalid
      blank_row_invalid record_of_def)

lemma example_classified:
  "classify_batch always_fails [record_of 0 good_row] () =
     ([failed_outcome 0 (ascii ''Invalid response format'')], [Call 0 False, Call 0 True], ())"
  by (simp add: classify_batch_def classify_record_def try_classify_def always_fails_def
      record_of_def get_error_def)

theorem invalid_rows_excluded_witness:
  "process_batch [good_row, short_row, blank_row] 0 3 = Inr [record_of 0 good_row]
   \<and> classify_batch always_fails [record_of 0 good_row] () =
     ([failed_outcome 0 (ascii ''Invalid response format'')], [Call 0 False, Call 0 True], ())
   \<and> rejected short_row \<and> rejected blank_row
   \<and> 1 \<notin> index ` set [record_of 0 good_row]
   \<and> 2 \<notin> outcome_index ` set [failed_outcome 0 (ascii ''Invalid response format'')]
   \<and> (\<forall>fb. Call 1 fb \<notin> set [Call 0 False, Call 0 True])"
proof -
  have s: "rejected short_row" by (simp add: rejected_def short_row_def ascii_def)
  have b: "rejected blank_row"
    by (simp add: rejected_def blank_row_def blank_def ascii_def is_space_def)
  have i1: "iloc [good_row, short_row, blank_row] 1 = Inr short_row" by (simp add: iloc_def)
  have i2: "iloc [good_row, short_row, blank_row] 2 = Inr blank_row" by (simp add: iloc_def)
  note t = invalid_rows_excluded[OF example_batch example_classified]
  from t i1 s have "1 \<notin> index ` set [record_of 0 good_row]"
    "\<forall>fb. Call 1 fb \<notin> set [Call 0 False, Call 0 True]" by blast+
  moreover from t i2 b
  have "2 \<notin> outcome_index ` set [failed_outcome 0 (ascii ''Invalid response format'')]" by blast
  ultimately show ?thesis using example_batch example_classified s b by blast
qed

subsection \<open>C5: the retry schedule of \<^verbatim>\<open>_make_api_call\<close>\<close>

text \<open>The sleep a failed attempt makes inside the function before it raises again, and
  the model the call is made with.\<close>

definition cooldown :: "api_error \<Rightarrow> nat list" where
  "cooldown err = (case err of RateLimitError m \<Rightarrow> [60] | _ \<Rightarrow> [])"

definition model_to_use :: "env \<Rightarrow> pystr \<Rightarrow> pystr" where
  "model_to_use e model_arg = (if model_arg = [] then model e else model_arg)"

lemma body_eq:
  "make_api_call_body e m msgs w =
     (case create e (attempts w) (model_to_use e m) msgs of
        Completed r \<Rightarrow> (Inr (r, model_to_use e m), w\<lparr>attempts := Suc (attempts w)\<rparr>)
      | Raised err \<Rightarrow>
          (Inl err, w\<lparr>attempts := Suc (attempts w), slept := slept w @ cooldown err\<rparr>))"
  by (simp add: make_api_call_body_def model_to_use_def cooldown_def
      split: attempt.splits api_error.splits)

lemma retry_3:
  "retry 3 d b f w =
    (case f w of
       (Inr r, w1) \<Rightarrow> (Inr (Some r), w1)
     | (Inl e1, w1) \<Rightarrow>
        (case f (w1\<lparr>slept := slept w1 @ [d]\<rparr>) of
           (Inr r, w2) \<Rightarrow> (Inr (Some r), w2)
         | (Inl e2, w2) \<Rightarrow>
            (case f (w2\<lparr>slept := slept w2 @ [d * b]\<rparr>) of
               (Inr r, w3) \<Rightarrow> (Inr (Some r), w3)
             | (Inl e3, w3) \<Rightarrow> (Inl e3, w3))))"
  by (simp add: numeral_3_eq_3 split: prod.splits sum.splits)

text \<open>
  \<^bold>\<open>C5\<close>. \<^verbatim>\<open>_make_api_call\<close> calls the completion service at most three times, the
  \<open>k\<close>-th call being call number \<open>attempts w + k\<close> of the service. It returns the first
  response it gets. After a failed first attempt it sleeps 1 second, after a failed
  second attempt 2 seconds, and a third failure is raised to the caller. Every attempt
  that fails with a rate-limit error sleeps 60 seconds of its own before the
  exception goes on to the retry wrapper, so the 60 seconds come before, and in
  addition to, the backoff sleep.
\<close>

theorem make_api_call_retries:
  fixes e :: env and m msgs and w :: world
  defines "a \<equiv> \<lambda>k. create e (attempts w + k) (model_to_use e m) msgs"
  shows "(\<forall>r. a 0 = Completed r \<longrightarrow>
            make_api_call e m msgs w =
              (Inr (Some (r, model_to_use e m)), w\<lparr>attempts := attempts w + 1\<rparr>))
       \<and> (\<forall>e1 r. a 0 = Raised e1 \<and> a 1 = Completed r \<longrightarrow>
            make_api_call e m msgs w =
              (Inr (Some (r, model_to_use e m)),
               w\<lparr>attempts := attempts w + 2, slept := slept w @ cooldown e1 @ [1]\<rparr>))
       \<and> (\<forall>e1 e2 r. a 0 = Raised e1 \<and> a 1 = Raised e2 \<and> a 2 = Completed r \<longrightarrow>
            make_api_call e m msgs w =
              (Inr (Some (r, model_to_use e m)),
               w\<lparr>attempts := attempts w + 3,
                  slept := slept w @ cooldown e1 @ [1] @ cooldown e2 @ [2]\<rparr>))
       \<and> (\<forall>e1 e2 e3. a 0 = Raised e1 \<and> a 1 = Raised e2 \<and> a 2 = Raised e3 \<longrightarrow>
            make_api_call e m msgs w =
              (Inl e3,
               w\<lparr>attempts := attempts w + 3,
                  slept := slept w @ cooldown e1 @ [1] @ cooldown e2 @ [2] @ cooldown e3\<rparr>))"
proof -
  have a0: "a 0 = create e (attempts w) (model_to_use e m) msgs"
    and a1: "a 1 = create e (Suc (attempts w)) (model_to_use e m) msgs"
    and a2: "a 2 = create e (Suc (Suc (attempts w))) (model_to_use e m) msgs"
    by (simp_all add: a_def)
  show ?thesis
    unfolding a0 a1 a2
  proof (intro conjI allI impI)
    fix r assume "create e (attempts w) (model_to_use e m) msgs = Completed r"
    then show "make_api_call e m msgs w =
              (Inr (Some (r, model_to_use e m)), w\<lparr>attempts := attempts w + 1\<rparr>)"
      by (simp add: make_api_call_def retry_3 body_eq)
  next
    fix e1 r
    assume "create e (attempts w) (model_to_use e m) msgs = Raised e1 \<and>
            create e (Suc (attempts w)) (model_to_use e m) msgs = Completed r"
    then show "make_api_call e m msgs w =
              (Inr (Some (r, model_to_use e m)),
               w\<lparr>attempts := attempts w + 2, slept := slept w @ cooldown e1 @ [1]\<rparr>)"
      by (simp add: make_api_call_def retry_3 body_eq)
  next
    fix e1 e2 r
    assume "create e (attempts w) (model_to_use e m) msgs = Raised e1 \<and>
            create e (Suc (attempts w)) (model_to_use e m) msgs = Raised e2 \<and>
            create e (Suc (Suc (attempts w))) (model_to_use e m) msgs = Completed r"
    then show "make_api_call e m msgs w =
              (Inr (Some (r, model_to_use e m)),
               w\<lparr>attempts := attempts w + 3,
                  slept := slept w @ cooldown e1 @ [1] @ cooldown e2 @ [2]\<rparr>)"
      by (simp add: make_api_call_def retry_3 body_eq)
  next
    fix e1 e2 e3
    assume "create e (attempts w) (model_to_use e m) msgs = Raised e1 \<and>
            create e (Suc (attempts w)) (model_to_use e m) msgs = Raised e2 \<and>
            create e (Suc (Suc (attempts w))) (model_to_use e m) msgs = Raised e3"
    then show "make_api_call e m msgs w =
              (Inl e3,
               w\<lparr>attempts := attempts w + 3,
                  slept := slept w @ cooldown e1 @ [1] @ cooldown e2 @ [2] @ cooldown e3\<rparr>)"
      by (simp add: make_api_call_def retry_3 body_eq)
  qed
qed

text \<open>A service that answers every call with a rate-limit error: three attempts, and
  the sleeps 60, 1, 60, 2, 60.\<close>

definition busy_env :: env where
  "busy_env = \<lparr>create = (\<lambda>k m t. Raised (RateLimitError (ascii ''Rate limit exceeded''))),
               json_loads = (\<lambda>s. None), parse_float = (\<lambda>s. None),
               calculate_cost = (\<lambda>i out. 0), model = ascii ''gpt-4o-mini-2024-07-18'',
               fallback_model = ascii ''gpt-4o-mini'', CONFIDENCE_THRESHOLD = Fin 0.7\<rparr>"

theorem make_api_call_retries_witness:
  "make_api_call busy_env (ascii ''gpt-4o-mini'') ([], [], []) \<lparr>attempts = 0, slept = []\<rparr> =
     (Inl (RateLimitError (ascii ''Rate limit exceeded'')),
      \<lparr>attempts = 3, slept = [60, 1, 60, 2, 60]\<rparr>)"
proof -
  have "create busy_env k m t = Raised (RateLimitError (ascii ''Rate limit exceeded''))" for k m t
    by (simp add: busy_env_def)
  with make_api_call_retries[of busy_env "\<lparr>attempts = 0, slept = []\<rparr>" "ascii ''gpt-4o-mini''" "([], [], [])"]
  have "make_api_call busy_env (ascii ''gpt-4o-mini'') ([], [], []) \<lparr>attempts = 0, slept = []\<rparr> =
     (Inl (RateLimitError (ascii ''Rate limit exceeded'')),
      \<lparr>attempts = 0, slept = []\<rparr>\<lparr>attempts := attempts \<lparr>attempts = 0, slept = []\<rparr> + 3,
         slept := slept \<lparr>attempts = 0, slept = []\<rparr> @
           cooldown (RateLimitError (ascii ''Rate limit exceeded'')) @ [1] @
           cooldown (RateLimitError (ascii ''Rate limit exceeded'')) @ [2] @
           cooldown (RateLimitError (ascii ''Rate limit exceeded''))\<rparr>)"
    by blast
  then show ?thesis by (simp add: cooldown_def)
qed

subsection \<open>C10 and C2: \<^verbatim>\<open>classify_batch\<close> escalates once to the fallback model\<close>

text \<open>What \<^verbatim>\<open>classify_text\<close> returns: with the success flag a classification, without
  it a failure whose error is one of three texts of the source or the message of an
  exception the completion service raised.\<close>

lemma make_api_call_error_source:
  "make_api_call e m msgs w = (Inl err, w') \<Longrightarrow>
     \<exists>k. create e k (model_to_use e m) msgs = Raised err"
  by (auto simp: make_api_call_def retry_3 body_eq split: prod.splits sum.splits attempt.splits)

definition NoneType_message :: pystr where
  "NoneType_message = [39] @ ascii ''NoneType'' @ [39] @ ascii '' object is not subscriptable''"

lemma classify_text_success:
  "classify_text e t d c fb w = ((True, r), w') \<Longrightarrow> \<exists>cl. r = Labelled cl"
  by (auto simp: classify_text_def Let_def
      split: prod.splits sum.splits option.splits bool.splits)

lemma classify_text_failure:
  "classify_text e t d c fb w = ((False, r), w') \<Longrightarrow>
     \<exists>f. r = Failure f \<and>
       (error f = ascii ''Invalid response format'' \<or> error f = NoneType_message \<or>
        (\<exists>ae. error f = str_labels_exn ae) \<or>
        (\<exists>k m err. create e k m (t, d, c) = Raised err \<and> error f = str_api_error err))"
  unfolding classify_text_def Let_def NoneType_message_def
  by (auto split: prod.splits sum.splits option.splits bool.splits
      dest!: make_api_call_error_source) blast

lemma client_returns:
  "\<exists>ok r w'. client_classify_text e data fb w = (Inr (ok, r), w')"
  by (cases "classify_text e (title data) (description data) (content_text data) fb w")
     (auto simp: client_classify_text_def)

lemma client_eq:
  "client_classify_text e data fb w = (x, w') \<longleftrightarrow>
     (\<exists>ok r. x = Inr (ok, r) \<and>
        classify_text e (title data) (description data) (content_text data) fb w = ((ok, r), w'))"
  by (cases "classify_text e (title data) (description data) (content_text data) fb w")
     (auto simp: client_classify_text_def)

text \<open>The pacing sleep after record \<open>i\<close> of \<open>n\<close>.\<close>

definition pause :: "nat \<Rightarrow> nat \<Rightarrow> event list" where
  "pause n i = (if int i < int n - 1 then [Sleep 1] else [])"

lemma try_classify_both_fail:
  assumes "ct data False w = (Inr (False, r1), w1)"
    and "ct data True w1 = (Inr (False, r2), w2)"
  shows "try_classify ct data w =
           (Inr (failed_outcome (index data) (get_error r1)),
            [Call (index data) False, Call (index data) True], w2)"
  unfolding try_classify_def assms(1) by (simp add: assms(2))

lemma classify_record_both_fail:
  assumes "ct data False w = (Inr (False, r1), w1)"
    and "ct data True w1 = (Inr (False, r2), w2)"
  shows "classify_record ct n i data w =
           (failed_outcome (index data) (get_error r1),
            [Call (index data) False, Call (index data) True] @ pause n i, w2)"
  unfolding classify_record_def
    try_classify_both_fail[where ct=ct and data=data and w=w, OF assms]
  by (simp add: pause_def)

lemma classify_batch_single:
  "classify_batch ct [data] w =
     (case classify_record ct 1 0 data w of (out, tr, w') \<Rightarrow> ([out], tr, w'))"
  by (simp add: classify_batch_def split: prod.splits)

text \<open>
  \<^bold>\<open>C10\<close>. When the primary call of \<^verbatim>\<open>classify_text\<close> returns a failure \<open>f1\<close> and the
  fallback call returns a failure too, whatever its result \<open>r2\<close> is, the outcome
  recorded for the record carries the error of \<open>f1\<close>; nothing of \<open>r2\<close> is kept. This
  holds for every \<^verbatim>\<open>classify_text\<close>, in the loop body and in a batch of one record.
\<close>

theorem primary_error_recorded:
  assumes "ct data False w = (Inr (False, Failure f1), w1)"
    and "ct data True w1 = (Inr (False, r2), w2)"
  shows "classify_record ct n i data w =
           (failed_outcome (index data) (error f1),
            [Call (index data) False, Call (index data) True] @ pause n i, w2)
         \<and> outcome_error (failed_outcome (index data) (error f1)) = Some (error f1)
         \<and> classify_batch ct [data] w =
             ([failed_outcome (index data) (error f1)],
              [Call (index data) False, Call (index data) True], w2)"
proof -
  have g: "get_error (Failure f1) = error f1" by (simp add: get_error_def)
  note r = classify_record_both_fail[where ct=ct and data=data and w=w, OF assms, unfolded g]
  have "classify_batch ct [data] w =
             ([failed_outcome (index data) (error f1)],
              [Call (index data) False, Call (index data) True], w2)"
    unfolding classify_batch_single r by (simp add: pause_def)
  then show ?thesis using r by (simp add: failed_outcome_def)
qed


text \<open>A \<^verbatim>\<open>classify_text\<close> whose primary call fails on the response format and whose
  fallback call fails on the connection: the format error is the one recorded.\<close>

definition primary_invalid_fallback_down ::
  "batch_record \<Rightarrow> bool \<Rightarrow> unit \<Rightarrow> (pystr + bool \<times> result) \<times> unit" where
  "primary_invalid_fallback_down data fb w =
     (if fb
      then (Inr (False, Failure \<lparr>error = ascii ''Connection error.'', validation_message = None,
                                  failed_response = None\<rparr>), w)
      else (Inr (False, Failure \<lparr>error = ascii ''Invalid response format'',
                                  validation_message = Some Invalid_JSON,
                                  failed_response = Some (ascii ''not json'')\<rparr>), w))"

definition record_7 :: batch_record where
  "record_7 = \<lparr>index = 7, title = ascii ''Flood warning'', description = ascii ''Heavy rain'',
        content_text = ascii ''Rivers are rising''\<rparr>"

theorem primary_error_recorded_witness:
  "classify_batch primary_invalid_fallback_down [record_7] ()
    = ([failed_outcome 7 (ascii ''Invalid response format'')], [Call 7 False, Call 7 True], ())"
proof -
  have 1: "primary_invalid_fallback_down record_7 False () =
     (Inr (False, Failure \<lparr>error = ascii ''Invalid response format'',
                                  validation_message = Some Invalid_JSON,
                                  failed_response = Some (ascii ''not json'')\<rparr>), ())"
    by (simp add: primary_invalid_fallback_down_def)
  have 2: "primary_invalid_fallback_down record_7 True () =
     (Inr (False, Failure \<lparr>error = ascii ''Connection error.'', validation_message = None,
                                  failed_response = None\<rparr>), ())"
    by (simp add: primary_invalid_fallback_down_def)
  from primary_error_recorded[where ct=primary_invalid_fallback_down and data=record_7
      and w="()" and n=1 and i=0, OF 1 2]
  show ?thesis by (simp add: record_7_def)
qed

text \<open>
  The exceptions of the completion service carry a message that is not empty; the
  calls of a trace with and without \<^verbatim>\<open>use_fallback\<close>; the outcomes that came out of a
  fallback call (a failure, or a success marked \<^verbatim>\<open>used_fallback\<close>).
\<close>

definition messages_nonempty :: "env \<Rightarrow> bool" where
  "messages_nonempty e \<longleftrightarrow> (\<forall>k m t err. create e k m t = Raised err \<longrightarrow> str_api_error err \<noteq> [])"

definition is_primary_call :: "event \<Rightarrow> bool" where
  "is_primary_call ev = (case ev of Call i fb \<Rightarrow> \<not> fb | Sleep s \<Rightarrow> False)"

definition is_fallback_call :: "event \<Rightarrow> bool" where
  "is_fallback_call ev = (case ev of Call i fb \<Rightarrow> fb | Sleep s \<Rightarrow> False)"

definition fallback_used :: "outcome \<Rightarrow> bool" where
  "fallback_used out = (case outcome_metadata out of None \<Rightarrow> False | Some m \<Rightarrow> used_fallback m)"

definition escalated :: "outcome \<Rightarrow> bool" where
  "escalated out \<longleftrightarrow> \<not> success out \<or> fallback_used out"

lemma classify_text_error_nonempty:
  assumes "messages_nonempty e" and "classify_text e t d c fb w = ((False, r), w')"
  shows "get_error r \<noteq> []"
proof -
  from classify_text_failure[OF assms(2)] obtain f where f: "r = Failure f"
    and cases: "error f = ascii ''Invalid response format'' \<or> error f = NoneType_message \<or>
        (\<exists>ae. error f = str_labels_exn ae) \<or>
        (\<exists>k m err. create e k m (t, d, c) = Raised err \<and> error f = str_api_error err)"
    by blast
  have a: "str_labels_exn ae \<noteq> []" for ae by (cases ae) (simp_all add: overflow_message_def ascii_def)
  have "error f \<noteq> []"
    using cases a assms(1)
    by (auto simp: messages_nonempty_def NoneType_message_def ascii_def)
  then show ?thesis by (simp add: f get_error_def)
qed

lemma client_record:
  "classify_record (client_classify_text e) n i data w =
    (case classify_text e (title data) (description data) (content_text data) False w of
       ((True, r1), w1) \<Rightarrow>
         (case r1 of
            Labelled c \<Rightarrow>
              (success_outcome (index data) c False, [Call (index data) False] @ pause n i, w1)
          | Failure f \<Rightarrow>
              (failed_outcome (index data) ([39] @ ascii ''labels'' @ [39]),
               [Call (index data) False], w1))
     | ((False, r1), w1) \<Rightarrow>
         (case classify_text e (title data) (description data) (content_text data) True w1 of
            ((True, r2), w2) \<Rightarrow>
              (case r2 of
                 Labelled c \<Rightarrow>
                   (success_outcome (index data) c True,
                    [Call (index data) False, Call (index data) True] @ pause n i, w2)
               | Failure f \<Rightarrow>
                   (failed_outcome (index data) ([39] @ ascii ''labels'' @ [39]),
                    [Call (index data) False, Call (index data) True], w2))
          | ((False, r2), w2) \<Rightarrow>
              (failed_outcome (index data) (get_error r1),
               [Call (index data) False, Call (index data) True] @ pause n i, w2)))"
  by (simp add: classify_record_def try_classify_def client_classify_text_def pause_def
      split: prod.splits bool.splits result.splits)

lemma client_record_primary_ok:
  assumes "classify_text e (title data) (description data) (content_text data) False w
             = ((True, r1), w1)"
  shows "\<exists>c. r1 = Labelled c \<and> classify_record (client_classify_text e) n i data w =
           (success_outcome (index data) c False, [Call (index data) False] @ pause n i, w1)"
proof -
  from classify_text_success[OF assms] obtain c where "r1 = Labelled c" by blast
  then show ?thesis by (simp add: client_record assms)
qed

lemma client_record_primary_failed:
  assumes "classify_text e (title data) (description data) (content_text data) False w
             = ((False, r1), w1)"
    and "classify_text e (title data) (description data) (content_text data) True w1
             = ((ok2, r2), w2)"
  shows "\<exists>out. classify_record (client_classify_text e) n i data w =
           (out, [Call (index data) False, Call (index data) True] @ pause n i, w2) \<and>
           escalated out \<and>
           (\<not> ok2 \<longrightarrow> out = failed_outcome (index data) (get_error r1))"
proof (cases ok2)
  case True
  with assms(2) have "classify_text e (title data) (description data) (content_text data) True w1
        = ((True, r2), w2)" by simp
  from classify_text_success[OF this] obtain c where "r2 = Labelled c" by blast
  then show ?thesis using True assms
    by (simp add: client_record escalated_def fallback_used_def success_outcome_def)
next
  case False
  then show ?thesis using assms
    by (simp add: client_record escalated_def failed_outcome_def)
qed

lemma pause_counts:
  "filter is_primary_call (pause n i) = []" "filter is_fallback_call (pause n i) = []"
  by (simp_all add: pause_def is_primary_call_def is_fallback_call_def)

lemma client_record_counts:
  assumes "classify_record (client_classify_text e) n i data w = (out, t, w')"
  shows "length (filter is_primary_call t) = 1 \<and>
         length (filter is_fallback_call t) = (if escalated out then 1 else 0)"
proof -
  obtain ok1 r1 w1 where
    1: "classify_text e (title data) (description data) (content_text data) False w
          = ((ok1, r1), w1)"
    by (metis prod.exhaust)
  show ?thesis
  proof (cases ok1)
    case True
    with 1 have "classify_text e (title data) (description data) (content_text data) False w
          = ((True, r1), w1)" by simp
    from client_record_primary_ok[OF this, of n i] assms show ?thesis
      by (auto simp: pause_counts is_primary_call_def is_fallback_call_def escalated_def
          fallback_used_def success_outcome_def)
  next
    case False
    with 1 have "classify_text e (title data) (description data) (content_text data) False w
          = ((False, r1), w1)" by simp
    moreover obtain ok2 r2 w2 where
      "classify_text e (title data) (description data) (content_text data) True w1
          = ((ok2, r2), w2)" by (metis prod.exhaust)
    ultimately have "\<exists>out. classify_record (client_classify_text e) n i data w =
           (out, [Call (index data) False, Call (index data) True] @ pause n i, w2) \<and>
           escalated out \<and>
           (\<not> ok2 \<longrightarrow> out = failed_outcome (index data) (get_error r1))"
      by (rule client_record_primary_failed)
    with assms show ?thesis
      by (auto simp: pause_counts is_primary_call_def is_fallback_call_def)
  qed
qed

lemma client_loop_counts:
  "classify_batch_loop (client_classify_text e) n i batch results tr w = (results', tr', w') \<Longrightarrow>
     length (filter is_primary_call tr') = length (filter is_primary_call tr) + length batch \<and>
     length (filter is_fallback_call tr') + length (filter escalated results) =
       length (filter is_fallback_call tr) + length (filter escalated results')"
proof (induction batch arbitrary: i results tr w)
  case Nil
  then show ?case by simp
next
  case (Cons data batch)
  obtain out t w1 where r: "classify_record (client_classify_text e) n i data w = (out, t, w1)"
    by (metis prod.exhaust)
  with Cons.prems have "classify_batch_loop (client_classify_text e) n (i + 1) batch
      (results @ [out]) (tr @ t) w1 = (results', tr', w')" by simp
  from Cons.IH[OF this] client_record_counts[OF r] show ?case
    by (auto split: if_splits)
qed

lemma client_batch_counts:
  "classify_batch (client_classify_text e) batch w = (results, tr, w') \<Longrightarrow>
     length (filter is_primary_call tr) = length batch \<and>
     length (filter is_fallback_call tr) = length (filter escalated results)"
  unfolding classify_batch_def by (drule client_loop_counts) simp


text \<open>
  \<^bold>\<open>C2\<close> (as amended). \<^verbatim>\<open>classify_batch\<close> returns one outcome for every record of
  the batch, in order, whatever \<^verbatim>\<open>classify_text\<close> does, also when it raises: no
  exception leaves the function. With the client's own \<^verbatim>\<open>classify_text\<close>, the trace
  of a batch holds one primary call for every record and as many fallback calls as
  there are outcomes that came out of a fallback call. For one record: when the primary
  call succeeds there is no fallback call; when it fails there is exactly one, and
  when that fails too the outcome has \<^verbatim>\<open>success: False\<close> and the error of the primary
  failure, which is not empty provided the messages of the service's exceptions are
  not empty.
\<close>

theorem classify_batch_escalates_once:
  fixes ct :: "batch_record \<Rightarrow> bool \<Rightarrow> 'w \<Rightarrow> (pystr + bool \<times> result) \<times> 'w"
  shows "map outcome_index (fst (classify_batch ct batch w0)) = map index batch
    \<and> (\<exists>results tr w'.
          classify_batch (client_classify_text e) batch w = (results, tr, w') \<and>
          map outcome_index results = map index batch \<and>
          length (filter is_primary_call tr) = length batch \<and>
          length (filter is_fallback_call tr) = length (filter escalated results))
    \<and> (\<forall>r1 w1.
          classify_text e (title data) (description data) (content_text data) False w
            = ((True, r1), w1) \<longrightarrow>
          (\<exists>out. classify_record (client_classify_text e) n i data w =
                   (out, [Call (index data) False] @ pause n i, w1) \<and>
                 success out \<and> \<not> escalated out))
    \<and> (\<forall>r1 w1 ok2 r2 w2.
          classify_text e (title data) (description data) (content_text data) False w
            = ((False, r1), w1) \<and>
          classify_text e (title data) (description data) (content_text data) True w1
            = ((ok2, r2), w2) \<longrightarrow>
          (\<exists>out. classify_record (client_classify_text e) n i data w =
                   (out, [Call (index data) False, Call (index data) True] @ pause n i, w2) \<and>
                 escalated out \<and>
                 (\<not> ok2 \<longrightarrow> out = failed_outcome (index data) (get_error r1) \<and>
                    \<not> success out \<and> outcome_error out = Some (get_error r1) \<and>
                    (messages_nonempty e \<longrightarrow> get_error r1 \<noteq> []))))"
proof (intro conjI allI impI)
  show "map outcome_index (fst (classify_batch ct batch w0)) = map index batch"
    by (metis classify_batch_indices prod.collapse)
next
  obtain results tr w' where
    r: "classify_batch (client_classify_text e) batch w = (results, tr, w')"
    by (metis prod.exhaust)
  from classify_batch_indices[OF r] client_batch_counts[OF r] r
  show "\<exists>results tr w'.
          classify_batch (client_classify_text e) batch w = (results, tr, w') \<and>
          map outcome_index results = map index batch \<and>
          length (filter is_primary_call tr) = length batch \<and>
          length (filter is_fallback_call tr) = length (filter escalated results)"
    by blast
next
  fix r1 w1
  assume 1: "classify_text e (title data) (description data) (content_text data) False w
            = ((True, r1), w1)"
  from client_record_primary_ok[OF 1, of n i]
  show "\<exists>out. classify_record (client_classify_text e) n i data w =
                   (out, [Call (index data) False] @ pause n i, w1) \<and>
                 success out \<and> \<not> escalated out"
    by (auto simp: success_outcome_def escalated_def fallback_used_def)
next
  fix r1 w1 ok2 r2 w2
  assume h: "classify_text e (title data) (description data) (content_text data) False w
            = ((False, r1), w1) \<and>
          classify_text e (title data) (description data) (content_text data) True w1
            = ((ok2, r2), w2)"
  then have 1: "classify_text e (title data) (description data) (content_text data) False w
            = ((False, r1), w1)"
    and 2: "classify_text e (title data) (description data) (content_text data) True w1
            = ((ok2, r2), w2)" by simp_all
  from client_record_primary_failed[OF 1 2, of n i] obtain out where
    out: "classify_record (client_classify_text e) n i data w =
           (out, [Call (index data) False, Call (index data) True] @ pause n i, w2)"
      "escalated out" "\<not> ok2 \<longrightarrow> out = failed_outcome (index data) (get_error r1)"
    by blast
  have ne: "messages_nonempty e \<longrightarrow> get_error r1 \<noteq> []"
    using classify_text_error_nonempty[OF _ 1] by blast
  show "\<exists>out. classify_record (client_classify_text e) n i data w =
                   (out, [Call (index data) False, Call (index data) True] @ pause n i, w2) \<and>
                 escalated out \<and>
                 (\<not> ok2 \<longrightarrow> out = failed_outcome (index data) (get_error r1) \<and>
                    \<not> success out \<and> outcome_error out = Some (get_error r1) \<and>
                    (messages_nonempty e \<longrightarrow> get_error r1 \<noteq> []))"
    using out ne by (auto simp: failed_outcome_def)
qed

text \<open>A service that raises an exception with an empty message on every call.\<close>

definition silent_env :: env where
  "silent_env = \<lparr>create = (\<lambda>k m t. Raised (OtherError [])),
               json_loads = (\<lambda>s. None), parse_float = (\<lambda>s. None),
               calculate_cost = (\<lambda>i out. 0), model = ascii ''gpt-4o-mini-2024-07-18'',
               fallback_model = ascii ''gpt-4o-mini'', CONFIDENCE_THRESHOLD = Fin 0.7\<rparr>"

lemma busy_classify_text:
  "classify_text busy_env t d c fb w =
     ((False, Failure \<lparr>error = ascii ''Rate limit exceeded'', validation_message = None,
                        failed_response = None\<rparr>),
      w\<lparr>attempts := attempts w + 3, slept := slept w @ [60, 1, 60, 2, 60]\<rparr>)"
  by (simp add: classify_text_def make_api_call_def retry_3 body_eq busy_env_def cooldown_def)

lemma silent_classify_text:
  "classify_text silent_env t d c fb w =
     ((False, Failure \<lparr>error = [], validation_message = None, failed_response = None\<rparr>),
      w\<lparr>attempts := attempts w + 3, slept := slept w @ [1, 2]\<rparr>)"
  by (simp add: classify_text_def make_api_call_def retry_3 body_eq silent_env_def cooldown_def)

text \<open>The theorem at the service that is always rate-limited: two calls of
  \<^verbatim>\<open>classify_text\<close>, six attempts, and the failure recorded with the message of the
  rate-limit error.\<close>

theorem classify_batch_escalates_once_witness:
  "messages_nonempty busy_env
   \<and> classify_record (client_classify_text busy_env) 1 0 record_7 \<lparr>attempts = 0, slept = []\<rparr> =
       (failed_outcome 7 (ascii ''Rate limit exceeded''), [Call 7 False, Call 7 True],
        \<lparr>attempts = 6, slept = [60, 1, 60, 2, 60, 60, 1, 60, 2, 60]\<rparr>)
   \<and> ascii ''Rate limit exceeded'' \<noteq> []"
proof -
  let ?w0 = "\<lparr>attempts = 0, slept = []\<rparr>"
  let ?f = "Failure \<lparr>error = ascii ''Rate limit exceeded'', validation_message = None,
                        failed_response = None\<rparr>"
  let ?w1 = "?w0\<lparr>attempts := attempts ?w0 + 3, slept := slept ?w0 @ [60, 1, 60, 2, 60]\<rparr>"
  let ?w2 = "?w1\<lparr>attempts := attempts ?w1 + 3, slept := slept ?w1 @ [60, 1, 60, 2, 60]\<rparr>"
  have m: "messages_nonempty busy_env"
    by (simp add: messages_nonempty_def busy_env_def ascii_def)
  have 1: "classify_text busy_env (title record_7) (description record_7) (content_text record_7)
             False ?w0 = ((False, ?f), ?w1)"
    by (rule busy_classify_text)
  have 2: "classify_text busy_env (title record_7) (description record_7) (content_text record_7)
             True ?w1 = ((False, ?f), ?w2)"
    by (rule busy_classify_text)
  have "\<exists>out. classify_record (client_classify_text busy_env) 1 0 record_7 ?w0 =
                   (out, [Call (index record_7) False, Call (index record_7) True] @ pause 1 0, ?w2) \<and>
                 escalated out \<and>
                 (\<not> False \<longrightarrow> out = failed_outcome (index record_7) (get_error ?f) \<and>
                    \<not> success out \<and> outcome_error out = Some (get_error ?f) \<and>
                    (messages_nonempty busy_env \<longrightarrow> get_error ?f \<noteq> []))"
    using classify_batch_escalates_once[where e=busy_env and data=record_7 and w="?w0"
        and n=1 and i=0 and ct="client_classify_text busy_env" and batch="[]"] 1 2
    by blast
  then show ?thesis using m
    by (auto simp: get_error_def pause_def record_7_def)
qed

text \<open>The claim as it is written fails where the exception has an empty message: the
  error recorded is the empty string.\<close>

theorem empty_exception_message_recorded:
  "classify_batch (client_classify_text silent_env) [record_7] \<lparr>attempts = 0, slept = []\<rparr> =
     ([failed_outcome 7 []], [Call 7 False, Call 7 True],
      \<lparr>attempts = 6, slept = [1, 2, 1, 2]\<rparr>)
   \<and> outcome_error (failed_outcome 7 []) = Some []"
  by (simp add: classify_batch_single client_record silent_classify_text get_error_def
      pause_def record_7_def failed_outcome_def)

subsection \<open>C9: a valid response holds only confidences in the unit interval\<close>

lemma unit_interval:
  "fle (Fin 0) c \<and> fle c (Fin 1) \<longleftrightarrow> (\<exists>x. c = Fin x \<and> 0 \<le> x \<and> x \<le> 1)"
  by (cases c) auto

text \<open>
  An item as the validation loop lets it pass: an object with a label and a
  confidence that converts to a finite float between 0 and 1, which the clamping of
  \<^verbatim>\<open>validate_labels\<close> leaves as it is. And what \<^verbatim>\<open>validate_labels\<close> then does with
  a list of such items: every confidence it returns is the converted confidence of an
  item, neither clamped nor replaced, and its only warnings are about labels.
\<close>

definition well_formed_item :: "(pystr \<Rightarrow> pyfloat option) \<Rightarrow> json \<Rightarrow> bool" where
  "well_formed_item pf item \<longleftrightarrow>
     (\<exists>d v x. item = JObj d \<and> map_of d (ascii ''label'') \<noteq> None \<and>
        map_of d (ascii ''confidence'') = Some v \<and> py_float pf v = Inr (Fin x) \<and>
        0 \<le> x \<and> x \<le> 1 \<and>
        py_max (Fin 0) (py_min (Fin 1) (Fin x)) = Fin x)"

definition passed_unchanged ::
  "(pystr \<Rightarrow> pyfloat option) \<Rightarrow> json list \<Rightarrow> label_pred list \<Rightarrow> pystr list \<Rightarrow> bool" where
  "passed_unchanged pf items cleaned warns \<longleftrightarrow>
     (\<forall>p\<in>set cleaned. \<exists>item\<in>set items. \<exists>v.
         item_confidence item = Some v \<and> py_float pf v = Inr (confidence p)) \<and>
     (\<forall>wn\<in>set warns. \<exists>l. wn = invalid_label_warning l)"

lemma in_range_not_clamped:
  assumes "map_of d (ascii ''label'') \<noteq> None"
    and "map_of d (ascii ''confidence'') = Some v"
    and "py_float pf v = Inr (Fin x)" and "0 \<le> x" and "x \<le> 1"
  shows "well_formed_item pf (JObj d)"
proof -
  have "py_max (Fin 0) (py_min (Fin 1) (Fin x)) = Fin x"
    using assms(4,5) by (auto simp: py_max_def py_min_def)
  with assms show ?thesis unfolding well_formed_item_def by blast
qed

lemma loop_attribute_error:
  "\<not> str_label item \<Longrightarrow> \<exists>e. validate_labels_loop pf (item # rest) cl ws = Inl e"
  by (cases item)
     (auto simp: str_label_def dict_get_def split: option.splits json.splits)

lemma validate_labels_loop_cleanable:
  "validate_labels_loop pf items cl ws = Inr res \<Longrightarrow> \<forall>item\<in>set items. cleanable item"
proof (induction items arbitrary: cl ws)
  case Nil
  then show ?case by simp
next
  case (Cons item items)
  from Cons.prems loop_attribute_error[of item pf items cl ws] have h: "str_label item"
    by auto
  then obtain d where d: "item = JObj d" by (auto simp: str_label_def split: json.splits)
  from h d have sl: "str_label (JObj d)" by simp
  from Cons.prems loop_raise[OF sl, of pf items cl ws]
  have rp: "in_taxonomy (JObj d) \<longrightarrow> representable (JObj d)"
    unfolding d by auto
  from sl rp d have "cleanable item" by (simp add: cleanable_def)
  with Cons.prems[unfolded d loop_step[OF sl rp]] Cons.IH show ?case by auto
qed

lemma well_formed_cleaned:
  assumes "well_formed_item pf item"
  shows "\<exists>v. item_confidence item = Some v \<and> py_float pf v = Inr (cleaned_confidence pf item)"
    and "entry_warnings pf item = [] \<or>
         entry_warnings pf item = [invalid_label_warning (item_label item)]"
  using assms
  by (auto simp: well_formed_item_def item_confidence_def cleaned_confidence_def clamp01_def
      entry_warnings_def)

lemma well_formed_passed_unchanged:
  assumes "\<forall>item\<in>set items. well_formed_item pf item"
    and "validate_labels pf items = Inr (cleaned, warns)"
  shows "passed_unchanged pf items cleaned warns"
proof -
  from assms(2) have "\<forall>item\<in>set items. cleanable item"
    unfolding validate_labels_def by (rule validate_labels_loop_cleanable)
  from loop_spec[OF this, of pf "[]" "[]"] assms(2)
  have c: "cleaned = map (cleaned_entry pf) (filter in_taxonomy items)"
    and w: "warns = concat (map (entry_warnings pf) items)"
    by (simp_all add: validate_labels_def)
  have "\<exists>item\<in>set items. \<exists>v.
         item_confidence item = Some v \<and> py_float pf v = Inr (confidence p)"
    if "p \<in> set cleaned" for p
  proof -
    from that c obtain item where i: "item \<in> set items" "p = cleaned_entry pf item" by auto
    from well_formed_cleaned(1)[of pf item] assms(1) i show ?thesis
      by (auto simp: cleaned_entry_def)
  qed
  moreover have "\<exists>l. wn = invalid_label_warning l" if "wn \<in> set warns" for wn
  proof -
    from that w obtain item where i: "item \<in> set items" "wn \<in> set (entry_warnings pf item)"
      by auto
    from well_formed_cleaned(2)[of pf item] assms(1) i show ?thesis by auto
  qed
  ultimately show ?thesis unfolding passed_unchanged_def by blast
qed

lemma validate_items_None:
  "validate_items pf i xs = None \<Longrightarrow> \<forall>item\<in>set xs. well_formed_item pf item"
proof (induction xs arbitrary: i)
  case Nil
  then show ?case by simp
next
  case (Cons item xs)
  from Cons.prems obtain d where d: "item = JObj d" by (auto split: json.splits)
  from Cons.prems d have l: "map_of d (ascii ''label'') \<noteq> None" by (auto split: if_splits)
  from Cons.prems d l obtain v where v: "map_of d (ascii ''confidence'') = Some v"
    by (auto split: option.splits)
  from Cons.prems d l v obtain c where c: "py_float pf v = Inr c"
    by (auto split: sum.splits if_splits)
  from Cons.prems d l v c have r: "fle (Fin 0) c \<and> fle c (Fin 1)"
    and rest: "validate_items pf (i + 1) xs = None"
    by (auto split: if_splits)
  from r obtain x where x: "c = Fin x" "0 \<le> x" "x \<le> 1" unfolding unit_interval by blast
  have "well_formed_item pf item"
    unfolding d using l v c[unfolded x(1)] x(2,3) by (rule in_range_not_clamped)
  with Cons.IH[OF rest] show ?case by simp
qed

lemma validate_items_diagnostic: "validate_items pf i xs \<noteq> Some Valid"
  by (induction xs arbitrary: i)
     (auto split: json.splits option.splits sum.splits if_splits)

lemma validate_parsed_cases:
  "validate_parsed pf parsed = (ok, r, m) \<Longrightarrow>
     (if ok then \<exists>items. r = Some items \<and> m = Valid \<and> validate_items pf 0 items = None
      else r = None \<and> m \<noteq> Valid)"
  using validate_items_diagnostic[of pf 0]
  by (auto simp: validate_parsed_def Let_def
      split: json.splits sum.splits option.splits if_splits)


text \<open>
  \<^bold>\<open>C9\<close>. When \<^verbatim>\<open>validate_json_response\<close> returns \<^verbatim>\<open>is_valid = True\<close>, it returns a list
  and every item of the list is an object with a label and with a confidence that
  converts to a float in \<open>[0, 1]\<close>; \<^verbatim>\<open>validate_labels\<close>, which \<^verbatim>\<open>classify_text\<close> calls
  on that list, then clamps nothing and replaces no confidence. Otherwise no list is
  returned and the message is a diagnostic.
\<close>

theorem valid_response_items_in_range:
  "case validate_json_response loads pf response of
     (ok, r, m) \<Rightarrow>
       (if ok
        then \<exists>items. r = Some items \<and> m = Valid \<and>
                (\<forall>item\<in>set items. well_formed_item pf item) \<and>
                (\<forall>cleaned warns. validate_labels pf items = Inr (cleaned, warns) \<longrightarrow>
                    passed_unchanged pf items cleaned warns)
        else r = None \<and> m \<noteq> Valid)"
proof (cases "loads (clean_response response)")
  case None
  then show ?thesis by (simp add: validate_json_response_def)
next
  case (Some parsed)
  obtain ok r m where v: "validate_parsed pf parsed = (ok, r, m)"
    by (metis prod.exhaust)
  have "if ok
        then \<exists>items. r = Some items \<and> m = Valid \<and>
                (\<forall>item\<in>set items. well_formed_item pf item) \<and>
                (\<forall>cleaned warns. validate_labels pf items = Inr (cleaned, warns) \<longrightarrow>
                    passed_unchanged pf items cleaned warns)
        else r = None \<and> m \<noteq> Valid"
  proof (cases ok)
    case True
    with validate_parsed_cases[OF v] obtain items where
      i: "r = Some items" "m = Valid" "validate_items pf 0 items = None" by auto
    from validate_items_None[OF i(3)] have "\<forall>item\<in>set items. well_formed_item pf item" .
    with i True well_formed_passed_unchanged show ?thesis by auto
  next
    case False
    with validate_parsed_cases[OF v] show ?thesis by auto
  qed
  then show ?thesis by (simp add: validate_json_response_def Some v)
qed

text \<open>A parser for three responses: one label with confidence \<open>-0.3\<close>, with 1.7, with 0.9.\<close>

definition three_responses :: "pystr \<Rightarrow> json option" where
  "three_responses s =
     (if s = ascii ''low'' then Some (JArr [label_item (JStr Khac) (Fin (- 0.3))])
      else if s = ascii ''high'' then Some (JArr [label_item (JStr Khac) (Fin 1.7)])
      else if s = ascii ''fine'' then Some (JArr [label_item (JStr Khac) (Fin 0.9)])
      else None)"

lemma clean_short:
  "clean_response (ascii ''low'') = ascii ''low''"
  "clean_response (ascii ''high'') = ascii ''high''"
  "clean_response (ascii ''fine'') = ascii ''fine''"
  by (simp_all add: clean_response_def strip_def ascii_def is_space_def startswith_def
      endswith_def)

lemma three_responses_validated:
  "validate_json_response three_responses (\<lambda>s. None) (ascii ''low'')
     = (False, None, Item_confidence_range 0)"
  "validate_json_response three_responses (\<lambda>s. None) (ascii ''high'')
     = (False, None, Item_confidence_range 0)"
  "validate_json_response three_responses (\<lambda>s. None) (ascii ''fine'')
     = (True, Some [label_item (JStr Khac) (Fin 0.9)], Valid)"
  unfolding validate_json_response_def clean_short
  by (simp_all add: three_responses_def validate_parsed_def label_item_def ascii_def)

text \<open>The confidences \<open>-0.3\<close> and 1.7 make the response invalid, with the diagnostic of
  the range check for item 0; the confidence 0.9 passes and reaches the cleaned entry
  unchanged.\<close>

theorem valid_response_items_in_range_witness:
  "validate_json_response three_responses (\<lambda>s. None) (ascii ''low'')
     = (False, None, Item_confidence_range 0)
   \<and> validate_json_response three_responses (\<lambda>s. None) (ascii ''high'')
     = (False, None, Item_confidence_range 0)
   \<and> validate_json_response three_responses (\<lambda>s. None) (ascii ''fine'')
     = (True, Some [label_item (JStr Khac) (Fin 0.9)], Valid)
   \<and> well_formed_item (\<lambda>s. None) (label_item (JStr Khac) (Fin 0.9))
   \<and> validate_labels (\<lambda>s. None) [label_item (JStr Khac) (Fin 0.9)]
     = Inr ([\<lparr>label = Khac, confidence = Fin 0.9\<rparr>], [])"
proof -
  from valid_response_items_in_range[where loads=three_responses and pf="\<lambda>s. None"
      and response="ascii ''fine''"]
  have "well_formed_item (\<lambda>s. None) (label_item (JStr Khac) (Fin 0.9))"
    by (simp add: three_responses_validated)
  moreover have "validate_labels (\<lambda>s. None) [label_item (JStr Khac) (Fin 0.9)]
     = Inr ([\<lparr>label = Khac, confidence = Fin 0.9\<rparr>], [])"
    by (simp add: validate_labels_def label_item_def dict_get_def strip_Khac Khac_in
        ascii_label_conf py_max_def py_min_def)
  ultimately show ?thesis by (simp add: three_responses_validated)
qed

text \<open>
  An integer confidence beyond the doubles makes \<^verbatim>\<open>float\<close> raise OverflowError, which
  neither \<^verbatim>\<open>except (ValueError, TypeError)\<close> of the validation loop nor the clause of
  the flat reconstruction catches: the response is invalid, with the message of the
  clause \<^verbatim>\<open>except Exception\<close>.
\<close>

lemma validate_parsed_overflow:
  "validate_parsed pf
     (JArr [JObj [(ascii ''label'', JStr Khac), (ascii ''confidence'', JInt (10 ^ 400))]])
   = (False, None, Validation_error OverflowError)"
  by (simp add: validate_parsed_def ascii_label_conf float_limit_def)

lemma validate_parsed_flat_overflow:
  "validate_parsed pf
     (JObj [(ascii ''label1'', JStr Khac), (ascii ''confidence1'', JInt (10 ^ 400))])
   = (False, None, Validation_error OverflowError)"
proof -
  define data where
    "data = [(ascii ''label1'', JStr Khac), (ascii ''confidence1'', JInt (10 ^ 400))]"
  have k: "known_key_array data possible_keys = None"
    by (simp add: data_def possible_keys_def ascii_def)
  have l1: "map_of data (ascii ''label'' @ str_nat (Suc 0)) = Some (JStr Khac)"
    and c1: "map_of data (ascii ''confidence'' @ str_nat (Suc 0)) = Some (JInt (10 ^ 400))"
    by (simp_all add: data_def str_nat.simps ascii_def)
  have n1: "numbered_loop pf data (Suc 0) [] = Inl OverflowError"
    by (subst numbered_loop.simps) (simp add: l1 c1 float_limit_def)
  have f: "find_array_recursive 5 (JObj data) = None"
    by (simp add: data_def eval_nat_numeral)
  have "validate_parsed pf (JObj data) = (False, None, Validation_error OverflowError)"
    by (simp add: validate_parsed_def k f try_reconstruct_from_flat_structure_def n1 handled_def)
  then show ?thesis by (simp add: data_def)
qed

subsection \<open>C8: \<^verbatim>\<open>create_final_csv\<close> joins the dataset with the last outcome of each index\<close>

text \<open>
  The outcome of the log that counts for an index is the last one with that index.
  A row of the final file is the row of the dataset with the four new columns: the
  defaults, or the joined labels, the joined formatted confidences, the model and
  \<^verbatim>\<open>True\<close>.
\<close>

definition last_outcome :: "outcome list \<Rightarrow> int \<Rightarrow> outcome option" where
  "last_outcome results idx =
     (let matching = filter (\<lambda>r. outcome_index r = idx) results
      in if matching = [] then None else Some (last matching))"

definition unlabelled_row :: "row \<Rightarrow> csv_row" where
  "unlabelled_row r = \<lparr>original = r, predicted_labels = [], prediction_confidence = [],
                        csv_model_used = [], classification_success = False\<rparr>"

definition labelled_row :: "(pyfloat \<Rightarrow> pystr) \<Rightarrow> row \<Rightarrow> outcome \<Rightarrow> csv_row" where
  "labelled_row fmt r res =
     \<lparr>original = r,
      predicted_labels = join (ascii ''; '') (map label (outcome_labels res)),
      prediction_confidence =
        join (ascii ''; '') (map (\<lambda>l. fmt (confidence l)) (outcome_labels res)),
      csv_model_used = (case outcome_metadata res of None \<Rightarrow> [] | Some m \<Rightarrow> meta_model_used m),
      classification_success = True\<rparr>"

definition joined_row :: "(pyfloat \<Rightarrow> pystr) \<Rightarrow> outcome list \<Rightarrow> int \<Rightarrow> row \<Rightarrow> csv_row" where
  "joined_row fmt results idx r =
     (case last_outcome results idx of
        None \<Rightarrow> unlabelled_row r
      | Some res \<Rightarrow> (if success res then labelled_row fmt r res else unlabelled_row r))"

lemma foldl_update_last:
  "foldl (\<lambda>m r. m(outcome_index r \<mapsto> r)) m0 results idx =
     (case last_outcome results idx of None \<Rightarrow> m0 idx | Some r \<Rightarrow> Some r)"
proof (induction results arbitrary: m0)
  case Nil
  then show ?case by (simp add: last_outcome_def)
next
  case (Cons r results)
  show ?case
    unfolding foldl_Cons Cons.IH
    by (simp add: last_outcome_def Let_def)
qed

lemma results_dict_last: "results_dict results idx = last_outcome results idx"
  unfolding results_dict_def foldl_update_last by (simp split: option.splits)

lemma final_rows_length: "length (final_rows fmt rd k rows) = length rows"
  by (induction rows arbitrary: k) (simp_all add: Let_def)

lemma final_rows_nth:
  "i < length rows \<Longrightarrow>
   final_rows fmt (results_dict results) k rows ! i = joined_row fmt results (k + int i) (rows ! i)"
proof (induction rows arbitrary: k i)
  case Nil
  then show ?case by simp
next
  case (Cons r rows)
  show ?case
  proof (cases i)
    case 0
    then show ?thesis
      by (simp add: Let_def joined_row_def results_dict_last unlabelled_row_def
          labelled_row_def split: option.splits)
  next
    case (Suc j)
    with Cons.prems have "j < length rows" by simp
    from Cons.IH[OF this, of "k + 1"] Suc show ?thesis
      by (simp add: Let_def add.assoc)
  qed
qed

text \<open>
  \<^bold>\<open>C8\<close>. Without a result file \<^verbatim>\<open>create_final_csv\<close> raises. With one it returns a row
  for every row of the dataset; row \<open>i\<close> is joined with the last outcome of the log whose
  index is \<open>i\<close>: when that outcome is successful the row holds its labels joined by
  \<^verbatim>\<open>"; "\<close>, its confidences formatted and joined by \<^verbatim>\<open>"; "\<close>, the model of its
  metadata and \<^verbatim>\<open>classification_success = True\<close>; when it failed, or when no outcome has
  the index, the row keeps the empty strings and \<^verbatim>\<open>False\<close>.
\<close>

theorem final_csv_joins_last_outcome:
  "create_final_csv fmt df None = Inl FileNotFoundError
   \<and> (\<exists>rows. create_final_csv fmt df (Some results) = Inr rows \<and> length rows = length df \<and>
         (\<forall>i<length df. rows ! i = joined_row fmt results (int i) (df ! i)))"
  by (simp add: create_final_csv_def final_rows_length final_rows_nth)


text \<open>
  A log with two outcomes for row 0 (a failure, then a success) and two for row 1 (a
  success, then a failure), and none for row 2: row 0 is labelled, rows 1 and 2 keep
  the defaults.
\<close>

definition two_labels :: classification where
  "two_labels = \<lparr>labels = [\<lparr>label = Khac, confidence = Fin 0.9\<rparr>,
                            \<lparr>label = ascii ''Sea'', confidence = Fin 0.75\<rparr>],
                  model_used = ascii ''gpt-4o-mini'', input_tokens = 900, output_tokens = 40,
                  cost = 0.000141, warnings = [], quality_issues = [],
                  raw_response = ascii ''[..]''\<rparr>"

definition toy_format :: "pyfloat \<Rightarrow> pystr" where
  "toy_format c = (if c = Fin 0.9 then ascii ''0.90'' else ascii ''0.75'')"

definition example_log :: "outcome list" where
  "example_log =
     [failed_outcome 0 (ascii ''Invalid response format''),
      success_outcome 0 two_labels False,
      success_outcome 1 two_labels True,
      failed_outcome 1 (ascii ''Invalid response format'')]"

lemma example_log_last:
  "last_outcome example_log 0 = Some (success_outcome 0 two_labels False)"
  "last_outcome example_log 1 = Some (failed_outcome 1 (ascii ''Invalid response format''))"
  "last_outcome example_log 2 = None"
  by (simp_all add: last_outcome_def example_log_def failed_outcome_def success_outcome_def)

theorem final_csv_joins_last_outcome_witness:
  "\<exists>rows. create_final_csv toy_format [good_row, short_row, blank_row] (Some example_log)
            = Inr rows \<and>
     rows ! 0 = \<lparr>original = good_row, predicted_labels = Khac @ ascii ''; Sea'',
                prediction_confidence = ascii ''0.90; 0.75'',
                csv_model_used = ascii ''gpt-4o-mini'', classification_success = True\<rparr> \<and>
     rows ! 1 = unlabelled_row short_row \<and>
     rows ! 2 = unlabelled_row blank_row"
proof -
  from final_csv_joins_last_outcome[of toy_format "[good_row, short_row, blank_row]" example_log]
  obtain rows where r:
    "create_final_csv toy_format [good_row, short_row, blank_row] (Some example_log) = Inr rows"
    and n: "\<forall>i<length [good_row, short_row, blank_row].
       rows ! i = joined_row toy_format example_log (int i) ([good_row, short_row, blank_row] ! i)"
    by blast
  from n have "rows ! 0 = joined_row toy_format example_log 0 good_row"
    and "rows ! 1 = joined_row toy_format example_log 1 short_row"
    and "rows ! 2 = joined_row toy_format example_log 2 blank_row"
    by (simp_all add: nth_Cons')
  then have "rows ! 0 = \<lparr>original = good_row, predicted_labels = Khac @ ascii ''; Sea'',
                prediction_confidence = ascii ''0.90; 0.75'',
                csv_model_used = ascii ''gpt-4o-mini'', classification_success = True\<rparr>"
    and "rows ! 1 = unlabelled_row short_row" and "rows ! 2 = unlabelled_row blank_row"
    by (simp_all add: joined_row_def example_log_last labelled_row_def success_outcome_def
        failed_outcome_def two_labels_def toy_format_def ascii_def)
  with r show ?thesis by blast
qed

subsection \<open>C4 and C1: the iterations of \<^verbatim>\<open>process_dataset\<close>\<close>

text \<open>
  The width of the slice an iteration asks \<^verbatim>\<open>process_batch\<close> for; the width by which
  the iteration moves \<^verbatim>\<open>current_index\<close> (the number of valid records of the slice, the
  slice width when the slice has no valid record, \<^verbatim>\<open>batch_size\<close> when the slice raises);
  and whether the iteration classifies a batch, which is when it writes the checkpoint.
  None of the three depends on what \<^verbatim>\<open>classify_text\<close> answers.
\<close>

definition slice_width :: "int \<Rightarrow> int \<Rightarrow> 'w run_state \<Rightarrow> int" where
  "slice_width batch_size end_index st = min batch_size (end_index - current_index st)"

definition iteration_width :: "row list \<Rightarrow> int \<Rightarrow> int \<Rightarrow> 'w run_state \<Rightarrow> int" where
  "iteration_width df batch_size end_index st =
     (case process_batch df (current_index st) (slice_width batch_size end_index st) of
        Inl e \<Rightarrow> batch_size
      | Inr [] \<Rightarrow> slice_width batch_size end_index st
      | Inr (d # ds) \<Rightarrow> int (length (d # ds)))"

definition classifies :: "row list \<Rightarrow> int \<Rightarrow> int \<Rightarrow> 'w run_state \<Rightarrow> bool" where
  "classifies df batch_size end_index st =
     (case process_batch df (current_index st) (slice_width batch_size end_index st) of
        Inl e \<Rightarrow> False
      | Inr [] \<Rightarrow> False
      | Inr (d # ds) \<Rightarrow> True)"

lemma iteration_current:
  "current_index (batch_iteration ct df batch_size end_index st) =
     current_index st + iteration_width df batch_size end_index st"
  by (simp add: batch_iteration_def batch_body_def iteration_width_def slice_width_def Let_def
      split: sum.splits list.splits prod.splits)

lemma iteration_unwritten:
  "\<not> classifies df batch_size end_index st \<Longrightarrow>
     ckpt (batch_iteration ct df batch_size end_index st) = ckpt st \<and>
     results_file (batch_iteration ct df batch_size end_index st) = results_file st \<and>
     all_batch_results (batch_iteration ct df batch_size end_index st) = all_batch_results st"
  by (simp add: batch_iteration_def batch_body_def classifies_def slice_width_def Let_def
      split: sum.splits list.splits prod.splits)

lemma iteration_written:
  "classifies df batch_size end_index st \<Longrightarrow>
     last_processed_index (ckpt (batch_iteration ct df batch_size end_index st)) =
       current_index st + iteration_width df batch_size end_index st"
  by (simp add: batch_iteration_def batch_body_def classifies_def iteration_width_def
      slice_width_def Let_def split: sum.splits list.splits prod.splits)

lemma batch_body_raises:
  "batch_body ct df batch_size end_index st = Inl e \<longleftrightarrow>
     process_batch df (current_index st) (slice_width batch_size end_index st) = Inl e"
  by (simp add: batch_body_def slice_width_def Let_def
      split: sum.splits list.splits prod.splits)

text \<open>
  \<^bold>\<open>C4\<close>. When the \<^verbatim>\<open>try\<close> block of an iteration raises an exception, the iteration
  changes nothing but \<^verbatim>\<open>current_index\<close>, which it advances by \<^verbatim>\<open>batch_size\<close>: no outcome
  is added to the result file or to the results of the run, the checkpoint is not
  written, and the loop goes on with the state so advanced. In the model the block
  raises exactly when \<^verbatim>\<open>process_batch\<close> does (\<open>batch_body_raises\<close>).
\<close>

theorem failed_batch_skipped:
  assumes "batch_body ct df batch_size end_index st = Inl e"
  shows "batch_iteration ct df batch_size end_index st
           = st\<lparr>current_index := current_index st + batch_size\<rparr>
       \<and> results_file (batch_iteration ct df batch_size end_index st) = results_file st
       \<and> all_batch_results (batch_iteration ct df batch_size end_index st) = all_batch_results st
       \<and> ckpt (batch_iteration ct df batch_size end_index st) = ckpt st
       \<and> (current_index st < end_index \<longrightarrow>
            process_loop (Suc fuel) ct df batch_size end_index st =
              process_loop fuel ct df batch_size end_index
                (st\<lparr>current_index := current_index st + batch_size\<rparr>))"
proof -
  have 1: "batch_iteration ct df batch_size end_index st
           = st\<lparr>current_index := current_index st + batch_size\<rparr>"
    by (simp add: batch_iteration_def assms)
  have "current_index st < end_index \<longrightarrow>
            process_loop (Suc fuel) ct df batch_size end_index st =
              process_loop fuel ct df batch_size end_index
                (st\<lparr>current_index := current_index st + batch_size\<rparr>)"
    by (subst process_loop.simps) (simp add: 1)
  with 1 show ?thesis by simp
qed

text \<open>
  A run over three rows that starts four rows before the frame, with batches of 4: the
  first slice raises IndexError, the loop moves on to index 0 and classifies the one
  valid row, then skips the two invalid ones. And a run capped at 2 records that starts
  ten rows before the frame: the slice is 2 wide, the skip is 4.
\<close>

definition fresh_checkpoint :: checkpoint where
  "fresh_checkpoint = \<lparr>last_processed_index = 0, checkpoint_total_cost = 0,
                        processed_count = 0, successful_count = None\<rparr>"

definition three_rows :: "row list" where
  "three_rows = [good_row, short_row, blank_row]"

lemma upto_m4_m1: "[- 4..- 1::int] = [- 4, - 3, - 2, - 1]"
  by (simp add: upto.simps)

lemma upto_1_2: "[1..2::int] = [1, 2]"
  by (simp add: upto.simps)

lemma upto_m10_m9: "[- 10..- 9::int] = [- 10, - 9]"
  by (simp add: upto.simps)

lemma three_rows_before_start:
  "process_batch three_rows (- 4) 4 = Inl IndexError"
  "process_batch three_rows (- 10) 2 = Inl IndexError"
  by (simp_all add: process_batch_def three_rows_def upto_m4_m1 upto_m10_m9 iloc_def)

lemma three_rows_first: "process_batch three_rows 0 3 = Inr [record_of 0 good_row]"
  unfolding three_rows_def by (rule example_batch)

lemma three_rows_rest: "process_batch three_rows 1 2 = Inr []"
  by (simp add: process_batch_def three_rows_def upto_1_2 iloc_def short_row_invalid
      blank_row_invalid)

lemma skipped_run_first:
  "batch_body always_fails three_rows 4 3 (initial_state (Some (- 4)) fresh_checkpoint [] ())
     = Inl IndexError"
  by (simp add: batch_body_def initial_state_def start_index_of_def three_rows_before_start)

lemma skipped_run_narrow:
  "batch_body always_fails three_rows 4 (- 8) (initial_state (Some (- 10)) fresh_checkpoint [] ())
     = Inl IndexError"
  by (simp add: batch_body_def initial_state_def start_index_of_def three_rows_before_start)

lemma skipped_run_second:
  "batch_iteration always_fails three_rows 4 3
     ((initial_state (Some (- 4)) fresh_checkpoint [] ())\<lparr>current_index := 0\<rparr>)
   = \<lparr>current_index = 1, total_processed = 1, total_successful = 0, total_cost = 0,
      all_batch_results = [failed_outcome 0 (ascii ''Invalid response format'')],
      ckpt = \<lparr>last_processed_index = 1, checkpoint_total_cost = 0, processed_count = 1,
               successful_count = Some 0\<rparr>,
      results_file = [failed_outcome 0 (ascii ''Invalid response format'')],
      client_state = (), client_trace = [Call 0 False, Call 0 True]\<rparr>"
  by (simp add: batch_iteration_def batch_body_def initial_state_def start_index_of_def
      three_rows_first example_classified fresh_checkpoint_def failed_outcome_def)

lemma skipped_run_third:
  "batch_iteration always_fails three_rows 4 3
     \<lparr>current_index = 1, total_processed = 1, total_successful = 0, total_cost = 0,
      all_batch_results = [failed_outcome 0 (ascii ''Invalid response format'')],
      ckpt = \<lparr>last_processed_index = 1, checkpoint_total_cost = 0, processed_count = 1,
               successful_count = Some 0\<rparr>,
      results_file = [failed_outcome 0 (ascii ''Invalid response format'')],
      client_state = (), client_trace = [Call 0 False, Call 0 True]\<rparr>
   = \<lparr>current_index = 3, total_processed = 1, total_successful = 0, total_cost = 0,
      all_batch_results = [failed_outcome 0 (ascii ''Invalid response format'')],
      ckpt = \<lparr>last_processed_index = 1, checkpoint_total_cost = 0, processed_count = 1,
               successful_count = Some 0\<rparr>,
      results_file = [failed_outcome 0 (ascii ''Invalid response format'')],
      client_state = (), client_trace = [Call 0 False, Call 0 True]\<rparr>"
  by (simp add: batch_iteration_def batch_body_def three_rows_rest)

theorem failed_batch_skipped_witness:
  "batch_body always_fails three_rows 4 3 (initial_state (Some (- 4)) fresh_checkpoint [] ())
     = Inl IndexError
   \<and> batch_iteration always_fails three_rows 4 3
       (initial_state (Some (- 4)) fresh_checkpoint [] ())
     = (initial_state (Some (- 4)) fresh_checkpoint [] ())\<lparr>current_index := 0\<rparr>
   \<and> (\<exists>final. process_loop 3 always_fails three_rows 4 3
                  (initial_state (Some (- 4)) fresh_checkpoint [] ()) = Some final
         \<and> current_index final = 3
         \<and> results_file final = [failed_outcome 0 (ascii ''Invalid response format'')])
   \<and> slice_width 4 (- 8) (initial_state (Some (- 10)) fresh_checkpoint [] ()) = 2
   \<and> current_index (batch_iteration always_fails three_rows 4 (- 8)
        (initial_state (Some (- 10)) fresh_checkpoint [] ())) = - 6"
proof -
  let ?s0 = "initial_state (Some (- 4)) fresh_checkpoint [] ()"
  have c0: "current_index ?s0 = - 4" by (simp add: initial_state_def start_index_of_def)
  note t = failed_batch_skipped[where ct=always_fails and df=three_rows and batch_size=4
      and end_index=3 and st="?s0" and fuel=2, OF skipped_run_first]
  from t have it: "batch_iteration always_fails three_rows 4 3 ?s0 = ?s0\<lparr>current_index := 0\<rparr>"
    by (simp add: c0)
  from t have "process_loop 3 always_fails three_rows 4 3 ?s0 =
      process_loop 2 always_fails three_rows 4 3 (?s0\<lparr>current_index := 0\<rparr>)"
    by (simp add: c0 numeral_3_eq_3 numeral_2_eq_2)
  also have "\<dots> = process_loop 1 always_fails three_rows 4 3
      (batch_iteration always_fails three_rows 4 3 (?s0\<lparr>current_index := 0\<rparr>))"
    by (subst process_loop.simps) (simp add: numeral_2_eq_2)
  also have "\<dots> = process_loop 0 always_fails three_rows 4 3
      (batch_iteration always_fails three_rows 4 3
        (batch_iteration always_fails three_rows 4 3 (?s0\<lparr>current_index := 0\<rparr>)))"
    unfolding skipped_run_second by (subst process_loop.simps) simp
  finally have "\<exists>final. process_loop 3 always_fails three_rows 4 3 ?s0 = Some final
         \<and> current_index final = 3
         \<and> results_file final = [failed_outcome 0 (ascii ''Invalid response format'')]"
    unfolding skipped_run_second skipped_run_third by (subst (asm) process_loop.simps) simp
  moreover
  let ?s1 = "initial_state (Some (- 10)) fresh_checkpoint [] ()"
  have c1: "current_index ?s1 = - 10" by (simp add: initial_state_def start_index_of_def)
  from failed_batch_skipped[where ct=always_fails and df=three_rows and batch_size=4
      and end_index="- 8" and st="?s1" and fuel=0, OF skipped_run_narrow]
  have "current_index (batch_iteration always_fails three_rows 4 (- 8) ?s1) = - 6"
    by (simp add: c1)
  moreover have "slice_width 4 (- 8) ?s1 = 2" by (simp add: slice_width_def c1)
  ultimately show ?thesis using skipped_run_first it by blast
qed

text \<open>The widths by which the first \<open>n\<close> iterations of the loop moved
  \<^verbatim>\<open>current_index\<close>, in order.\<close>

fun attempted_widths ::
  "nat \<Rightarrow> (batch_record \<Rightarrow> bool \<Rightarrow> 'w \<Rightarrow> (pystr + bool \<times> result) \<times> 'w) \<Rightarrow> row list \<Rightarrow> int
     \<Rightarrow> int \<Rightarrow> 'w run_state \<Rightarrow> int list" where
  "attempted_widths 0 ct df batch_size end_index st = []"
| "attempted_widths (Suc n) ct df batch_size end_index st =
    (let s = after_batches n ct df batch_size end_index st
     in attempted_widths n ct df batch_size end_index st @
        (if current_index s < end_index then [iteration_width df batch_size end_index s]
         else []))"

lemma after_batches_current:
  "current_index (after_batches n ct df bs fin st) =
     current_index st + sum_list (attempted_widths n ct df bs fin st)"
  by (induction n) (simp_all add: Let_def iteration_current)

lemma empty_range_batch:
  "width \<le> 0 \<Longrightarrow> process_batch df start width = Inr []"
  by (simp add: process_batch_def Let_def)

lemma classifies_positive:
  assumes "classifies df bs fin st"
  shows "0 < bs"
proof (rule ccontr)
  assume "\<not> 0 < bs"
  then have "slice_width bs fin st \<le> 0" by (simp add: slice_width_def)
  from empty_range_batch[OF this] assms show False by (simp add: classifies_def)
qed

lemma iteration_width_nonneg:
  assumes "0 \<le> bs" and "current_index st < fin"
  shows "0 \<le> iteration_width df bs fin st"
  using assms
  by (simp add: iteration_width_def slice_width_def split: sum.splits list.splits)

lemma after_batches_step:
  "after_batches (Suc n) ct df bs fin st =
     (if current_index (after_batches n ct df bs fin st) < fin
      then batch_iteration ct df bs fin (after_batches n ct df bs fin st)
      else after_batches n ct df bs fin st)"
  by (simp add: Let_def)

lemma checkpoint_step:
  "last_processed_index (ckpt (batch_iteration ct df bs fin st)) =
     (if classifies df bs fin st then current_index (batch_iteration ct df bs fin st)
      else last_processed_index (ckpt st))"
  by (simp add: iteration_written iteration_unwritten iteration_current)

lemma checkpoint_behind:
  assumes "0 \<le> bs" and "last_processed_index (ckpt st) \<le> current_index st"
  shows "last_processed_index (ckpt (after_batches n ct df bs fin st))
           \<le> current_index (after_batches n ct df bs fin st)"
proof (induction n)
  case 0
  with assms show ?case by simp
next
  case (Suc n)
  let ?s = "after_batches n ct df bs fin st"
  show ?case
  proof (cases "current_index ?s < fin")
    case True
    from iteration_width_nonneg[OF assms(1) True, of df]
    have "current_index ?s \<le> current_index (batch_iteration ct df bs fin ?s)"
      by (simp add: iteration_current)
    with Suc True show ?thesis
      unfolding after_batches_step by (simp add: checkpoint_step)
  next
    case False
    with Suc show ?thesis unfolding after_batches_step by simp
  qed
qed

lemma checkpoint_monotone:
  assumes "last_processed_index (ckpt st) \<le> current_index st"
  shows "last_processed_index (ckpt (after_batches n ct df bs fin st))
           \<le> last_processed_index (ckpt (after_batches (Suc n) ct df bs fin st))"
proof -
  let ?s = "after_batches n ct df bs fin st"
  show ?thesis
  proof (cases "current_index ?s < fin \<and> classifies df bs fin ?s")
    case True
    then have bs: "0 \<le> bs" using classifies_positive[of df bs fin ?s] by simp
    from iteration_width_nonneg[OF bs, of ?s fin df] True
    have "current_index ?s \<le> current_index (batch_iteration ct df bs fin ?s)"
      by (simp add: iteration_current)
    moreover from checkpoint_behind[OF bs assms, of n ct df fin]
    have "last_processed_index (ckpt ?s) \<le> current_index ?s" .
    ultimately show ?thesis using True
      unfolding after_batches_step by (simp add: checkpoint_step)
  next
    case False
    then show ?thesis unfolding after_batches_step by (auto simp: checkpoint_step)
  qed
qed

text \<open>
  \<^bold>\<open>C1\<close> (as amended). In every run of \<^verbatim>\<open>process_dataset\<close>, whatever the outcomes of
  the records are: after \<open>n\<close> iterations \<^verbatim>\<open>current_index\<close> is the start index plus the sum
  of the widths of these iterations; an iteration that classifies a batch leaves
  \<^verbatim>\<open>last_processed_index\<close> equal to that sum; an iteration that classifies nothing (no
  valid record in the slice, or an exception) and the end of the loop leave the
  checkpoint as it was; and \<^verbatim>\<open>last_processed_index\<close> never decreases from one
  iteration to the next, provided the run does not start below the loaded checkpoint.
\<close>

theorem checkpoint_follows_current_index:
  fixes ct :: "batch_record \<Rightarrow> bool \<Rightarrow> 'w \<Rightarrow> (pystr + bool \<times> result) \<times> 'w"
    and cfg :: int and df :: "row list" and batch_size start_from max_records :: "int option"
    and loaded :: checkpoint and logged :: "outcome list" and w :: 'w
  defines "start \<equiv> start_index_of start_from loaded"
    and "bs \<equiv> batch_size_of batch_size cfg"
  defines "fin \<equiv> end_index_of max_records start df"
    and "s \<equiv> \<lambda>n. run_after n ct cfg df batch_size start_from max_records loaded logged w"
  defines "widths \<equiv> \<lambda>n. attempted_widths n ct df bs fin (initial_state start_from loaded logged w)"
  shows "current_index (s n) = start + sum_list (widths n)
    \<and> (current_index (s n) < fin \<and> classifies df bs fin (s n) \<longrightarrow>
          last_processed_index (ckpt (s (Suc n))) = start + sum_list (widths (Suc n)))
    \<and> (\<not> (current_index (s n) < fin \<and> classifies df bs fin (s n)) \<longrightarrow>
          ckpt (s (Suc n)) = ckpt (s n))
    \<and> (last_processed_index loaded \<le> start \<longrightarrow>
          last_processed_index (ckpt (s n)) \<le> last_processed_index (ckpt (s (Suc n))))"
proof -
  let ?st = "initial_state start_from loaded logged w"
  have s: "s k = after_batches k ct df bs fin ?st" for k
    by (simp add: s_def run_after_def bs_def fin_def start_def Let_def)
  have c0: "current_index ?st = start" and k0: "ckpt ?st = loaded"
    by (simp_all add: initial_state_def start_def)
  have cur: "current_index (s k) = start + sum_list (widths k)" for k
    unfolding s widths_def after_batches_current c0 ..
  have written: "last_processed_index (ckpt (s (Suc n))) = start + sum_list (widths (Suc n))"
    if "current_index (s n) < fin \<and> classifies df bs fin (s n)"
  proof -
    from that have "last_processed_index (ckpt (s (Suc n))) = current_index (s (Suc n))"
      unfolding s after_batches_step by (simp add: checkpoint_step)
    then show ?thesis by (simp add: cur)
  qed
  have unwritten: "ckpt (s (Suc n)) = ckpt (s n)"
    if "\<not> (current_index (s n) < fin \<and> classifies df bs fin (s n))"
    using that unfolding s after_batches_step by (auto simp: iteration_unwritten)
  have mono: "last_processed_index (ckpt (s n)) \<le> last_processed_index (ckpt (s (Suc n)))"
    if "last_processed_index loaded \<le> start"
    unfolding s by (rule checkpoint_monotone) (simp add: c0 k0 that)
  from cur written unwritten mono show ?thesis by blast
qed

text \<open>
  Two runs against the claim as it is written. Over four rows of which the first two
  are invalid, with batches of 2, the first iteration moves on by 2 and leaves
  \<^verbatim>\<open>last_processed_index\<close> at 0, and the second, which classifies 2 records, sets it
  to 4. With a loaded checkpoint at 3 and \<^verbatim>\<open>start_from = 0\<close>, as the command line
  passes it by default, the first iteration sets \<^verbatim>\<open>last_processed_index\<close> back to 1.
\<close>

definition four_rows :: "row list" where
  "four_rows = [short_row, blank_row, good_row, good_row]"

definition resumed_checkpoint :: checkpoint where
  "resumed_checkpoint = \<lparr>last_processed_index = 3, checkpoint_total_cost = 0,
                          processed_count = 3, successful_count = Some 0\<rparr>"

lemma upto_0_1: "[0..1::int] = [0, 1]"
  by (simp add: upto.simps)

lemma upto_2_3: "[2..3::int] = [2, 3]"
  by (simp add: upto.simps)

lemma four_rows_batches:
  "process_batch four_rows 0 2 = Inr []"
  "process_batch four_rows 2 2 = Inr [record_of 2 good_row, record_of 3 good_row]"
  by (simp_all add: process_batch_def four_rows_def upto_0_1 upto_2_3 iloc_def
      short_row_invalid blank_row_invalid good_row_valid record_of_def)

lemma four_rows_classified:
  "classify_batch always_fails [record_of 2 good_row, record_of 3 good_row] () =
     ([failed_outcome 2 (ascii ''Invalid response format''),
       failed_outcome 3 (ascii ''Invalid response format'')],
      [Call 2 False, Call 2 True, Sleep 1, Call 3 False, Call 3 True], ())"
  by (simp add: classify_batch_def classify_record_def try_classify_def always_fails_def
      record_of_def get_error_def)

lemma four_rows_run_1:
  "run_after 1 always_fails 10 four_rows (Some 2) None None fresh_checkpoint [] () =
     (initial_state None fresh_checkpoint [] ())\<lparr>current_index := 2\<rparr>"
  by (simp add: run_after_def batch_size_of_def end_index_of_def start_index_of_def
      initial_state_def fresh_checkpoint_def four_rows_def[THEN arg_cong, of length]
      batch_iteration_def batch_body_def four_rows_batches)

lemma four_rows_run_2:
  "run_after 2 always_fails 10 four_rows (Some 2) None None fresh_checkpoint [] () =
     \<lparr>current_index = 4, total_processed = 2, total_successful = 0, total_cost = 0,
      all_batch_results = [failed_outcome 2 (ascii ''Invalid response format''),
                           failed_outcome 3 (ascii ''Invalid response format'')],
      ckpt = \<lparr>last_processed_index = 4, checkpoint_total_cost = 0, processed_count = 2,
               successful_count = Some 0\<rparr>,
      results_file = [failed_outcome 2 (ascii ''Invalid response format''),
                      failed_outcome 3 (ascii ''Invalid response format'')],
      client_state = (),
      client_trace = [Call 2 False, Call 2 True, Sleep 1, Call 3 False, Call 3 True]\<rparr>"
proof -
  have "run_after 2 always_fails 10 four_rows (Some 2) None None fresh_checkpoint [] () =
      batch_iteration always_fails four_rows 2 4
        (run_after 1 always_fails 10 four_rows (Some 2) None None fresh_checkpoint [] ())"
    unfolding four_rows_run_1
    using four_rows_run_1
    by (simp add: run_after_def batch_size_of_def end_index_of_def start_index_of_def
        four_rows_def[THEN arg_cong, of length] numeral_2_eq_2)
  then show ?thesis
    unfolding four_rows_run_1
    by (simp add: batch_iteration_def batch_body_def four_rows_batches four_rows_classified
        initial_state_def fresh_checkpoint_def failed_outcome_def start_index_of_def)
qed

lemma three_rows_resumed_run_1:
  "run_after 1 always_fails 10 three_rows (Some 4) (Some 0) None resumed_checkpoint [] () =
     \<lparr>current_index = 1, total_processed = 1, total_successful = 0, total_cost = 0,
      all_batch_results = [failed_outcome 0 (ascii ''Invalid response format'')],
      ckpt = \<lparr>last_processed_index = 1, checkpoint_total_cost = 0, processed_count = 1,
               successful_count = Some 0\<rparr>,
      results_file = [failed_outcome 0 (ascii ''Invalid response format'')],
      client_state = (), client_trace = [Call 0 False, Call 0 True]\<rparr>"
  by (simp add: run_after_def batch_size_of_def end_index_of_def start_index_of_def
      initial_state_def resumed_checkpoint_def three_rows_def[THEN arg_cong, of length]
      batch_iteration_def batch_body_def three_rows_first example_classified
      failed_outcome_def)

theorem checkpoint_lags_and_falls_back:
  "last_processed_index
     (ckpt (run_after 1 always_fails 10 four_rows (Some 2) None None fresh_checkpoint [] ())) = 0
   \<and> attempted_widths 1 always_fails four_rows 2 4 (initial_state None fresh_checkpoint [] ()) = [2]
   \<and> last_processed_index
       (ckpt (run_after 2 always_fails 10 four_rows (Some 2) None None fresh_checkpoint [] ())) = 4
   \<and> length (results_file
       (run_after 2 always_fails 10 four_rows (Some 2) None None fresh_checkpoint [] ())) = 2
   \<and> last_processed_index
       (ckpt (run_after 0 always_fails 10 three_rows (Some 4) (Some 0) None resumed_checkpoint [] ()))
       = 3
   \<and> last_processed_index
       (ckpt (run_after 1 always_fails 10 three_rows (Some 4) (Some 0) None resumed_checkpoint [] ()))
       = 1
   \<and> last_processed_index
       (ckpt (run_after 1 always_fails 10 four_rows (Some 2) None None fresh_checkpoint [] ()))
       \<noteq> start_index_of None fresh_checkpoint
           + sum_list (attempted_widths 1 always_fails four_rows 2 4
                         (initial_state None fresh_checkpoint [] ()))
   \<and> \<not> last_processed_index
       (ckpt (run_after 0 always_fails 10 three_rows (Some 4) (Some 0) None resumed_checkpoint [] ()))
       \<le> last_processed_index
       (ckpt (run_after 1 always_fails 10 three_rows (Some 4) (Some 0) None resumed_checkpoint [] ()))"
proof -
  have "attempted_widths 1 always_fails four_rows 2 4 (initial_state None fresh_checkpoint [] ())
          = [2]"
    by (simp add: initial_state_def start_index_of_def fresh_checkpoint_def iteration_width_def
        slice_width_def four_rows_batches)
  moreover have "last_processed_index
       (ckpt (run_after 0 always_fails 10 three_rows (Some 4) (Some 0) None resumed_checkpoint [] ()))
       = 3"
    by (simp add: run_after_def initial_state_def resumed_checkpoint_def)
  ultimately show ?thesis
    unfolding four_rows_run_1 four_rows_run_2 three_rows_resumed_run_1
    by (simp add: initial_state_def fresh_checkpoint_def start_index_of_def)
qed

text \<open>The theorem at a fresh run over the three rows, with batches of 4: the first
  iteration classifies one record and the checkpoint moves from 0 to 1.\<close>

theorem checkpoint_follows_current_index_witness:
  "current_index (run_after 0 always_fails 10 three_rows (Some 4) None None fresh_checkpoint [] ())
     < 3
   \<and> classifies three_rows 4 3
       (run_after 0 always_fails 10 three_rows (Some 4) None None fresh_checkpoint [] ())
   \<and> attempted_widths 1 always_fails three_rows 4 3 (initial_state None fresh_checkpoint [] ())
       = [1]
   \<and> last_processed_index
       (ckpt (run_after 1 always_fails 10 three_rows (Some 4) None None fresh_checkpoint [] ()))
       = 1
   \<and> last_processed_index fresh_checkpoint \<le> start_index_of None fresh_checkpoint
   \<and> last_processed_index
       (ckpt (run_after 0 always_fails 10 three_rows (Some 4) None None fresh_checkpoint [] ()))
       \<le> last_processed_index
       (ckpt (run_after 1 always_fails 10 three_rows (Some 4) None None fresh_checkpoint [] ()))"
proof -
  let ?s0 = "initial_state None fresh_checkpoint [] ()"
  have p: "start_index_of None fresh_checkpoint = 0" "batch_size_of (Some 4) 10 = 4"
    "end_index_of None 0 three_rows = 3"
    by (simp_all add: start_index_of_def fresh_checkpoint_def batch_size_of_def
        end_index_of_def three_rows_def)
  have r0: "run_after 0 always_fails 10 three_rows (Some 4) None None fresh_checkpoint [] () = ?s0"
    by (simp add: run_after_def)
  have c0: "current_index ?s0 = 0" by (simp add: initial_state_def p)
  have cls: "classifies three_rows 4 3 ?s0"
    by (simp add: classifies_def slice_width_def c0 three_rows_first)
  have w1: "attempted_widths (Suc 0) always_fails three_rows 4 3 ?s0 = [1]"
    by (simp add: c0 iteration_width_def slice_width_def three_rows_first)
  note t = checkpoint_follows_current_index[where ct=always_fails and cfg=10 and df=three_rows
      and batch_size="Some 4" and start_from=None and max_records=None
      and loaded=fresh_checkpoint and logged="[]" and w="()" and n=0, unfolded p r0]
  have f1: "current_index
      (run_after 0 always_fails 10 three_rows (Some 4) None None fresh_checkpoint [] ()) < 3"
    unfolding r0 c0 by simp
  have f2: "classifies three_rows 4 3
       (run_after 0 always_fails 10 three_rows (Some 4) None None fresh_checkpoint [] ())"
    unfolding r0 by (rule cls)
  have f3: "attempted_widths 1 always_fails three_rows 4 3 ?s0 = [1]"
    using w1 by simp
  from t cls c0 w1 have f4: "last_processed_index
       (ckpt (run_after 1 always_fails 10 three_rows (Some 4) None None fresh_checkpoint [] ()))
       = 1" by simp
  have f5: "last_processed_index fresh_checkpoint \<le> start_index_of None fresh_checkpoint"
    by (simp add: start_index_of_def)
  have "last_processed_index (ckpt ?s0) = 0"
    by (simp add: initial_state_def fresh_checkpoint_def)
  with f4 have f6: "last_processed_index
       (ckpt (run_after 0 always_fails 10 three_rows (Some 4) None None fresh_checkpoint [] ()))
       \<le> last_processed_index
       (ckpt (run_after 1 always_fails 10 three_rows (Some 4) None None fresh_checkpoint [] ()))"
    unfolding r0 by simp
  from f1 f2 f3 f4 f5 f6 show ?thesis by blast
qed

subsection \<open>C3: the four shapes of a response\<close>

text \<open>
  A payload is a list of labels with their confidences, finite floats. Its normalized
  list holds one object \<^verbatim>\<open>{label, confidence}\<close> for each pair. \<open>nest ks v\<close> wraps a
  value under the keys \<open>ks\<close>, one object for each key.
\<close>

definition normalized :: "(pystr \<times> real) list \<Rightarrow> json list" where
  "normalized payload = map (\<lambda>(l, x). label_item (JStr l) (Fin x)) payload"

definition in_unit_interval :: "(pystr \<times> real) list \<Rightarrow> bool" where
  "in_unit_interval payload \<longleftrightarrow> (\<forall>(l, x)\<in>set payload. 0 \<le> x \<and> x \<le> 1)"

fun nest :: "pystr list \<Rightarrow> json \<Rightarrow> json" where
  "nest [] v = v"
| "nest (k # ks) v = JObj [(k, nest ks v)]"

lemma label_item_lookup:
  "map_of [(ascii ''label'', l), (ascii ''confidence'', c)] (ascii ''label'') = Some l"
  "map_of [(ascii ''label'', l), (ascii ''confidence'', c)] (ascii ''confidence'') = Some c"
  by (simp_all add: ascii_label_conf)

lemma validate_items_normalized:
  "in_unit_interval payload \<Longrightarrow> validate_items pf i (normalized payload) = None"
proof (induction payload arbitrary: i)
  case Nil
  then show ?case by (simp add: normalized_def)
next
  case (Cons p payload)
  obtain l x where p: "p = (l, x)" by (cases p)
  from Cons.prems p have x: "0 \<le> x" "x \<le> 1" and rest: "in_unit_interval payload"
    by (simp_all add: in_unit_interval_def)
  from Cons.IH[OF rest, of "i + 1"] x show ?case
    by (simp add: normalized_def p label_item_def ascii_label_conf)
qed

lemma validated:
  assumes "in_unit_interval payload"
  shows "(case validate_items pf 0 (normalized payload) of
            Some msg \<Rightarrow> (False, None, msg)
          | None \<Rightarrow> (True, Some (normalized payload), Valid))
         = (True, Some (normalized payload), Valid)"
  by (simp add: validate_items_normalized[OF assms])

lemma direct_array:
  "in_unit_interval payload \<Longrightarrow>
     validate_parsed pf (JArr (normalized payload)) = (True, Some (normalized payload), Valid)"
  by (simp add: validate_parsed_def validate_items_normalized)

lemma known_key_single:
  "known_key_array [(k, v)] keys =
     (if k \<in> set keys then (case v of JArr xs \<Rightarrow> Some xs | _ \<Rightarrow> None) else None)"
  by (induction keys) (auto split: json.splits)

lemma under_known_key:
  "in_unit_interval payload \<Longrightarrow> k \<in> set possible_keys \<Longrightarrow>
     validate_parsed pf (JObj [(k, JArr (normalized payload))])
       = (True, Some (normalized payload), Valid)"
  by (simp add: validate_parsed_def known_key_single validate_items_normalized)

lemma normalized_head:
  "payload \<noteq> [] \<Longrightarrow> \<exists>it its. normalized payload = it # its \<and> is_label_object it"
  by (cases payload)
     (auto simp: normalized_def is_label_object_def label_item_def ascii_label_conf)

lemma find_nested:
  "is_label_object it \<Longrightarrow> length ks \<le> n \<Longrightarrow>
     find_array_recursive (Suc n) (nest ks (JArr (it # its))) = Some (it # its)"
proof (induction ks arbitrary: n)
  case Nil
  then show ?case by simp
next
  case (Cons k ks)
  then obtain m where m: "n = Suc m" "length ks \<le> m" by (cases n) auto
  from Cons.IH[OF Cons.prems(1) m(2)] show ?case by (simp add: m(1))
qed

lemma nested_array:
  assumes "in_unit_interval payload" and "payload \<noteq> []" and "length ks \<le> 4"
  shows "validate_parsed pf (nest ks (JArr (normalized payload)))
           = (True, Some (normalized payload), Valid)"
proof (cases ks)
  case Nil
  with assms(1) show ?thesis by (simp add: direct_array)
next
  case (Cons k ks')
  from normalized_head[OF assms(2)] obtain it its where
    n: "normalized payload = it # its" "is_label_object it" by blast
  from assms(3) Cons have "length ks \<le> 4" by simp
  from find_nested[OF n(2) this, of its]
  have f: "find_array_recursive 5 (nest ks (JArr (normalized payload))) = Some (normalized payload)"
    by (simp add: n(1) eval_nat_numeral)
  have "known_key_array [(k, nest ks' (JArr (normalized payload)))] possible_keys = None
        \<or> known_key_array [(k, nest ks' (JArr (normalized payload)))] possible_keys
            = Some (normalized payload)"
    by (cases ks') (simp_all add: known_key_single)
  then show ?thesis
    using f validate_items_normalized[OF assms(1), of pf 0]
    by (auto simp: validate_parsed_def Cons)
qed

text \<open>
  A flat object holds, for each pair of the payload, the label under a label key and
  the confidence under a confidence key. The numbered keys are
  \<^verbatim>\<open>label1\<close>, \<^verbatim>\<open>confidence1\<close>, \<^verbatim>\<open>label2\<close>, ...; other key pairs are told apart by the
  substrings the source looks for.
\<close>

fun flat_object :: "(pystr \<times> pystr) list \<Rightarrow> (pystr \<times> real) list \<Rightarrow> (pystr \<times> json) list" where
  "flat_object ((lk, ck) # kps) ((l, x) # payload) =
     (lk, JStr l) # (ck, JFloat (Fin x)) # flat_object kps payload"
| "flat_object kps payload = []"

definition numbered_keys :: "nat \<Rightarrow> (pystr \<times> pystr) list" where
  "numbered_keys n =
     map (\<lambda>j. (ascii ''label'' @ str_nat j, ascii ''confidence'' @ str_nat j)) [1..<Suc n]"

definition is_label_key :: "pystr \<Rightarrow> bool" where
  "is_label_key k \<longleftrightarrow> contains (lower k) (ascii ''label'')"

definition is_conf_key :: "pystr \<Rightarrow> bool" where
  "is_conf_key k \<longleftrightarrow> contains (lower k) (ascii ''confidence'') \<or> contains (lower k) (ascii ''conf'')"

definition separate_keys :: "(pystr \<times> pystr) list \<Rightarrow> bool" where
  "separate_keys kps \<longleftrightarrow>
     distinct (map fst kps) \<and> distinct (map snd kps) \<and> fst ` set kps \<inter> snd ` set kps = {}"

lemma flat_lookup:
  "length kps = length payload \<Longrightarrow> separate_keys kps \<Longrightarrow> j < length kps \<Longrightarrow>
     map_of (flat_object kps payload) (fst (kps ! j)) = Some (JStr (fst (payload ! j))) \<and>
     map_of (flat_object kps payload) (snd (kps ! j)) = Some (JFloat (Fin (snd (payload ! j))))"
proof (induction kps payload arbitrary: j rule: list_induct2)
  case Nil
  then show ?case by simp
next
  case (Cons kp kps p payload)
  obtain lk ck l x where kp: "kp = (lk, ck)" and p: "p = (l, x)" by (cases kp, cases p)
  from Cons.prems(1) have sep: "separate_keys kps" and ne: "ck \<noteq> lk"
    by (auto simp: separate_keys_def kp)
  show ?case
  proof (cases j)
    case 0
    with ne show ?thesis by (simp add: kp p)
  next
    case (Suc j')
    with Cons.prems(2) have j': "j' < length kps" by simp
    then have m: "kps ! j' \<in> set kps" by simp
    from m Cons.prems(1) have "fst (kps ! j') \<noteq> lk" "fst (kps ! j') \<noteq> ck"
      "snd (kps ! j') \<noteq> lk" "snd (kps ! j') \<noteq> ck"
      by (auto simp: separate_keys_def kp)
    with Cons.IH[OF sep j'] show ?thesis by (simp add: kp p Suc)
  qed
qed

lemma flat_missing:
  "k \<notin> fst ` set kps \<Longrightarrow> k \<notin> snd ` set kps \<Longrightarrow> map_of (flat_object kps payload) k = None"
  by (induction kps payload rule: flat_object.induct) auto

lemma flat_values:
  "(k, v) \<in> set (flat_object kps payload) \<Longrightarrow> (\<exists>l. v = JStr l) \<or> (\<exists>c. v = JFloat c)"
  by (induction kps payload rule: flat_object.induct) auto

lemma first_some_None: "(\<And>x. x \<in> set xs \<Longrightarrow> f x = None) \<Longrightarrow> first_some f xs = None"
  by (induction xs) auto

lemma flat_no_known_key: "known_key_array (flat_object kps payload) keys = None"
proof (induction keys)
  case Nil
  then show ?case by simp
next
  case (Cons key keys)
  show ?case
  proof (cases "map_of (flat_object kps payload) key")
    case None
    with Cons show ?thesis by simp
  next
    case (Some v)
    from flat_values[OF map_of_SomeD[OF Some]] Cons Some show ?thesis by auto
  qed
qed

lemma flat_no_nested_array:
  "find_array_recursive (Suc (Suc n)) (JObj (flat_object kps payload)) = None"
proof -
  have "find_array_recursive (Suc n) v = None" if "v \<in> set (map snd (flat_object kps payload))" for v
  proof -
    from that obtain k where "(k, v) \<in> set (flat_object kps payload)" by auto
    from flat_values[OF this] show ?thesis by auto
  qed
  then have "first_some (find_array_recursive (Suc n)) (map snd (flat_object kps payload)) = None"
    by (rule first_some_None)
  then show ?thesis by simp
qed

lemma flat_validated:
  assumes "in_unit_interval payload" and "payload \<noteq> []"
    and "try_reconstruct_from_flat_structure pf (flat_object kps payload)
           = Inr (Some (normalized payload))"
  shows "validate_parsed pf (JObj (flat_object kps payload))
           = (True, Some (normalized payload), Valid)"
proof -
  have "find_array_recursive 5 (JObj (flat_object kps payload)) = None"
    using flat_no_nested_array[of 3 kps payload] by (simp add: eval_nat_numeral)
  then show ?thesis
    using validate_items_normalized[OF assms(1), of pf 0] assms(3)
    by (simp add: validate_parsed_def flat_no_known_key)
qed

lemma prefix_differs: "ascii ''label'' @ a \<noteq> ascii ''confidence'' @ b"
  by (simp add: ascii_def)

lemma numbered_keys_nth:
  "j < n \<Longrightarrow> numbered_keys n ! j =
     (ascii ''label'' @ str_nat (Suc j), ascii ''confidence'' @ str_nat (Suc j))"
  by (simp add: numbered_keys_def nth_map_upt del: upt_Suc)

lemma numbered_keys_length: "length (numbered_keys n) = n"
  by (simp add: numbered_keys_def del: upt_Suc)

lemma numbered_keys_separate: "separate_keys (numbered_keys n)"
proof -
  have "inj_on (\<lambda>j. ascii ''label'' @ str_nat j) A" for A
    by (rule inj_onI) (simp add: str_nat_inj)
  moreover have "inj_on (\<lambda>j. ascii ''confidence'' @ str_nat j) A" for A
    by (rule inj_onI) (simp add: str_nat_inj)
  ultimately show ?thesis
    unfolding separate_keys_def numbered_keys_def
    using prefix_differs
    by (auto simp: distinct_map comp_def simp del: upt_Suc)
qed

lemma numbered_keys_beyond:
  "ascii ''label'' @ str_nat (Suc n) \<notin> fst ` set (numbered_keys n)"
  "ascii ''label'' @ str_nat (Suc n) \<notin> snd ` set (numbered_keys n)"
  using prefix_differs
  by (auto simp: numbered_keys_def dest!: str_nat_inj simp del: upt_Suc)

lemma numbered_loop_flat:
  assumes "length payload = n"
  shows "j \<le> n \<Longrightarrow>
     numbered_loop pf (flat_object (numbered_keys n) payload) (Suc j) acc =
       Inr (acc @ normalized (drop j payload))"
proof (induction "n - j" arbitrary: j acc)
  case 0
  then have j: "j = n" by simp
  have "map_of (flat_object (numbered_keys n) payload) (ascii ''label'' @ str_nat (Suc n)) = None"
    by (rule flat_missing) (rule numbered_keys_beyond)+
  then show ?case
    by (subst numbered_loop.simps) (simp add: j assms normalized_def)
next
  case (Suc d)
  then have j: "j < n" by simp
  obtain l x where p: "payload ! j = (l, x)" by (cases "payload ! j")
  from flat_lookup[of "numbered_keys n" payload j] j assms
  have look:
    "map_of (flat_object (numbered_keys n) payload) (ascii ''label'' @ str_nat (Suc j))
       = Some (JStr l)"
    "map_of (flat_object (numbered_keys n) payload) (ascii ''confidence'' @ str_nat (Suc j))
       = Some (JFloat (Fin x))"
    by (simp_all add: numbered_keys_length numbered_keys_separate numbered_keys_nth p)
  from Suc.hyps(2) have d: "d = n - Suc j" by simp
  from j have le: "Suc j \<le> n" by simp
  have dr: "drop j payload = (l, x) # drop (Suc j) payload"
    using j assms p by (metis Cons_nth_drop_Suc)
  show ?case
    by (subst numbered_loop.simps)
       (simp add: look Suc.hyps(1)[OF d le] dr normalized_def)
qed

lemma normalized_empty: "normalized payload = [] \<longleftrightarrow> payload = []"
  by (simp add: normalized_def)

lemma reconstruct_numbered:
  assumes "payload \<noteq> []"
  shows "try_reconstruct_from_flat_structure pf
           (flat_object (numbered_keys (length payload)) payload)
           = Inr (Some (normalized payload))"
  using numbered_loop_flat[of payload "length payload" 0 pf "[]"] assms
  by (simp add: try_reconstruct_from_flat_structure_def normalized_empty)

text \<open>
  Key pairs the unnumbered branch pairs up as they are listed: every label key
  contains \<^verbatim>\<open>label\<close> and no \<^verbatim>\<open>conf\<close>, every confidence key contains \<^verbatim>\<open>conf\<close> and no
  \<^verbatim>\<open>label\<close>, both lists of keys are in ascending order, and \<^verbatim>\<open>label1\<close> and
  \<^verbatim>\<open>confidence1\<close> are not both among them.
\<close>

definition substring_key_pairs :: "(pystr \<times> pystr) list \<Rightarrow> bool" where
  "substring_key_pairs kps \<longleftrightarrow>
     separate_keys kps \<and>
     (\<forall>(lk, ck)\<in>set kps. is_label_key lk \<and> \<not> is_conf_key lk \<and>
                            is_conf_key ck \<and> \<not> is_label_key ck) \<and>
     sorted (map fst kps) \<and> sorted (map snd kps) \<and>
     (ascii ''label'' @ str_nat 1 \<notin> fst ` set kps \<or>
      ascii ''confidence'' @ str_nat 1 \<notin> snd ` set kps)"

lemma filter_flat_keys:
  "length kps = length payload \<Longrightarrow>
   (\<forall>(lk, ck)\<in>set kps. P lk \<and> \<not> P ck) \<Longrightarrow>
     filter P (map fst (flat_object kps payload)) = map fst kps"
  "length kps = length payload \<Longrightarrow>
   (\<forall>(lk, ck)\<in>set kps. \<not> Q lk \<and> Q ck) \<Longrightarrow>
     filter Q (map fst (flat_object kps payload)) = map snd kps"
  by (induction kps payload rule: list_induct2; auto)+

lemma paired_loop_flat:
  assumes "length kps = length payload" and "separate_keys kps"
  shows "j \<le> length kps \<Longrightarrow>
     paired_loop pf (flat_object kps payload) (drop j kps) acc =
       Inr (acc @ normalized (drop j payload))"
proof (induction "length kps - j" arbitrary: j acc)
  case 0
  with assms(1) show ?case by (simp add: normalized_def)
next
  case (Suc d)
  then have j: "j < length kps" by simp
  obtain l x where p: "payload ! j = (l, x)" by (cases "payload ! j")
  obtain lk ck where k: "kps ! j = (lk, ck)" by (cases "kps ! j")
  from flat_lookup[OF assms j, unfolded k p]
  have look: "map_of (flat_object kps payload) lk = Some (JStr l)"
    "map_of (flat_object kps payload) ck = Some (JFloat (Fin x))" by simp_all
  from Suc.hyps(2) have d: "d = length kps - Suc j" by simp
  from j have le: "Suc j \<le> length kps" by simp
  have dk: "drop j kps = (lk, ck) # drop (Suc j) kps"
    using j k by (metis Cons_nth_drop_Suc)
  have dp: "drop j payload = (l, x) # drop (Suc j) payload"
    using j assms(1) p by (metis Cons_nth_drop_Suc)
  show ?case
    unfolding dk dp by (simp add: look Suc.hyps(1)[OF d le] normalized_def)
qed

lemma label1_is_label_key: "is_label_key (ascii ''label'' @ str_nat 1)"
  by (simp add: is_label_key_def str_nat.simps ascii_def lower_def startswith_def)

lemma confidence1_is_conf_key: "is_conf_key (ascii ''confidence'' @ str_nat 1)"
  by (simp add: is_conf_key_def str_nat.simps ascii_def lower_def startswith_def)

lemma reconstruct_paired:
  assumes "payload \<noteq> []" and "length kps = length payload" and "substring_key_pairs kps"
  shows "try_reconstruct_from_flat_structure pf (flat_object kps payload)
           = Inr (Some (normalized payload))"
proof -
  from assms(3) have sep: "separate_keys kps"
    and keys: "\<forall>(lk, ck)\<in>set kps. is_label_key lk \<and> \<not> is_conf_key lk \<and>
                            is_conf_key ck \<and> \<not> is_label_key ck"
    and srt: "sorted (map fst kps)" "sorted (map snd kps)"
    and first: "ascii ''label'' @ str_nat 1 \<notin> fst ` set kps \<or>
                ascii ''confidence'' @ str_nat 1 \<notin> snd ` set kps"
    by (simp_all add: substring_key_pairs_def)
  have l1: "ascii ''label'' @ str_nat 1 \<notin> snd ` set kps"
    using keys label1_is_label_key by fastforce
  have c1: "ascii ''confidence'' @ str_nat 1 \<notin> fst ` set kps"
    using keys confidence1_is_conf_key by fastforce
  have "map_of (flat_object kps payload) (ascii ''label'' @ str_nat 1) = None \<or>
     map_of (flat_object kps payload) (ascii ''confidence'' @ str_nat 1) = None"
    using flat_missing[of "ascii ''label'' @ str_nat 1" kps payload]
      flat_missing[of "ascii ''confidence'' @ str_nat 1" kps payload] l1 c1 first
    by auto
  then have num: "numbered_loop pf (flat_object kps payload) 1 [] = Inr []"
    by (subst numbered_loop.simps) (auto split: option.splits)
  have lk: "filter (\<lambda>k. contains (lower k) (ascii ''label'')) (map fst (flat_object kps payload))
              = map fst kps"
    using filter_flat_keys(1)[OF assms(2), of is_label_key] keys
    by (simp add: is_label_key_def[abs_def] case_prod_unfold)
  have ck: "filter (\<lambda>k. contains (lower k) (ascii ''confidence'') \<or>
                         contains (lower k) (ascii ''conf'')) (map fst (flat_object kps payload))
              = map snd kps"
    using filter_flat_keys(2)[OF assms(2), of is_conf_key] keys
    by (simp add: is_conf_key_def[abs_def] case_prod_unfold)
  have z: "zip (sort (map fst kps)) (sort (map snd kps)) = kps"
    by (simp add: sorted_sort_id srt zip_map_fst_snd)
  from assms(1,2) have ne: "kps \<noteq> []" by auto
  from paired_loop_flat[OF assms(2) sep, of 0 pf "[]"]
  have pl: "paired_loop pf (flat_object kps payload) kps [] = Inr (normalized payload)" by simp
  show ?thesis
    unfolding try_reconstruct_from_flat_structure_def num
    using ne assms(1) by (simp add: lk ck z pl normalized_empty Let_def)
qed

text \<open>The shapes in which a parsed response presents a payload.\<close>

inductive presents :: "(pystr \<times> real) list \<Rightarrow> json \<Rightarrow> bool" where
  direct: "presents payload (JArr (normalized payload))"
| known_key: "k \<in> set possible_keys \<Longrightarrow> presents payload (JObj [(k, JArr (normalized payload))])"
| nested: "payload \<noteq> [] \<Longrightarrow> length ks \<le> 4 \<Longrightarrow>
     presents payload (nest ks (JArr (normalized payload)))"
| numbered: "payload \<noteq> [] \<Longrightarrow>
     presents payload (JObj (flat_object (numbered_keys (length payload)) payload))"
| paired: "payload \<noteq> [] \<Longrightarrow> length kps = length payload \<Longrightarrow> substring_key_pairs kps \<Longrightarrow>
     presents payload (JObj (flat_object kps payload))"

text \<open>
  \<^bold>\<open>C3\<close> (as amended). For every payload whose confidences are floats in \<open>[0, 1]\<close>:
  when the parsed response is the array of its objects, or an object holding that
  array under one of the known keys, or, the payload not being empty, the array
  under at most four nested keys, the flat object with the numbered keys, or a flat
  object with substring key pairs, then \<^verbatim>\<open>validate_json_response\<close> returns
  \<^verbatim>\<open>is_valid = True\<close> and the normalized list of the payload.
\<close>

theorem four_shapes_same_list:
  assumes "in_unit_interval payload" and "presents payload parsed"
    and "loads (clean_response response) = Some parsed"
  shows "validate_json_response loads pf response = (True, Some (normalized payload), Valid)"
proof -
  from assms(2,1) have "validate_parsed pf parsed = (True, Some (normalized payload), Valid)"
  proof cases
    case direct
    with assms(1) show ?thesis by (simp add: direct_array)
  next
    case (known_key k)
    with assms(1) show ?thesis by (simp add: under_known_key)
  next
    case (nested ks)
    with assms(1) show ?thesis by (simp add: nested_array)
  next
    case numbered
    with assms(1) show ?thesis by (simp add: flat_validated reconstruct_numbered)
  next
    case (paired kps)
    with assms(1) show ?thesis by (simp add: flat_validated reconstruct_paired)
  qed
  then show ?thesis by (simp add: validate_json_response_def assms(3))
qed

text \<open>A payload of two pairs, and two key pairs for the unnumbered flat shape.\<close>

definition two_pairs :: "(pystr \<times> real) list" where
  "two_pairs = [(Khac, 0.9), (Sports, 0.75)]"

definition ab_keys :: "(pystr \<times> pystr) list" where
  "ab_keys = [(ascii ''label_a'', ascii ''conf_a''), (ascii ''label_b'', ascii ''conf_b'')]"

lemma two_pairs_unit: "in_unit_interval two_pairs"
  by (simp add: in_unit_interval_def two_pairs_def)

lemma two_pairs_normalized:
  "normalized two_pairs = [label_item (JStr Khac) (Fin 0.9), label_item (JStr Sports) (Fin 0.75)]"
  by (simp add: normalized_def two_pairs_def)

lemma two_pairs_numbered:
  "flat_object (numbered_keys (length two_pairs)) two_pairs =
     [(ascii ''label1'', JStr Khac), (ascii ''confidence1'', JFloat (Fin 0.9)),
      (ascii ''label2'', JStr Sports), (ascii ''confidence2'', JFloat (Fin 0.75))]"
  by (simp add: two_pairs_def numbered_keys_def str_nat.simps ascii_def)

lemma two_pairs_paired:
  "flat_object ab_keys two_pairs =
     [(ascii ''label_a'', JStr Khac), (ascii ''conf_a'', JFloat (Fin 0.9)),
      (ascii ''label_b'', JStr Sports), (ascii ''conf_b'', JFloat (Fin 0.75))]"
  by (simp add: two_pairs_def ab_keys_def)

lemma ab_keys_pairs: "substring_key_pairs ab_keys"
  by (simp add: substring_key_pairs_def separate_keys_def ab_keys_def is_label_key_def
      is_conf_key_def lower_def startswith_def str_nat.simps ascii_def)

text \<open>The payload of two pairs in the five shapes: the same list every time.\<close>

theorem four_shapes_same_list_witness:
  "validate_json_response
      (\<lambda>s. Some (JArr [label_item (JStr Khac) (Fin 0.9), label_item (JStr Sports) (Fin 0.75)]))
      (\<lambda>s. None) (ascii ''r'')
     = (True, Some [label_item (JStr Khac) (Fin 0.9), label_item (JStr Sports) (Fin 0.75)], Valid)
   \<and> validate_json_response
      (\<lambda>s. Some (JObj [(ascii ''result'',
                JArr [label_item (JStr Khac) (Fin 0.9), label_item (JStr Sports) (Fin 0.75)])]))
      (\<lambda>s. None) (ascii ''r'')
     = (True, Some [label_item (JStr Khac) (Fin 0.9), label_item (JStr Sports) (Fin 0.75)], Valid)
   \<and> validate_json_response
      (\<lambda>s. Some (JObj [(ascii ''a'', JObj [(ascii ''b'', JObj [(ascii ''c'', JObj [(ascii ''d'',
                JArr [label_item (JStr Khac) (Fin 0.9),
                      label_item (JStr Sports) (Fin 0.75)])])])])]))
      (\<lambda>s. None) (ascii ''r'')
     = (True, Some [label_item (JStr Khac) (Fin 0.9), label_item (JStr Sports) (Fin 0.75)], Valid)
   \<and> validate_json_response
      (\<lambda>s. Some (JObj [(ascii ''label1'', JStr Khac), (ascii ''confidence1'', JFloat (Fin 0.9)),
                       (ascii ''label2'', JStr Sports), (ascii ''confidence2'', JFloat (Fin 0.75))]))
      (\<lambda>s. None) (ascii ''r'')
     = (True, Some [label_item (JStr Khac) (Fin 0.9), label_item (JStr Sports) (Fin 0.75)], Valid)
   \<and> validate_json_response
      (\<lambda>s. Some (JObj [(ascii ''label_a'', JStr Khac), (ascii ''conf_a'', JFloat (Fin 0.9)),
                       (ascii ''label_b'', JStr Sports), (ascii ''conf_b'', JFloat (Fin 0.75))]))
      (\<lambda>s. None) (ascii ''r'')
     = (True, Some [label_item (JStr Khac) (Fin 0.9), label_item (JStr Sports) (Fin 0.75)], Valid)"
proof -
  note t = four_shapes_same_list[where payload=two_pairs and pf="\<lambda>s. None"
      and response="ascii ''r''", OF two_pairs_unit, unfolded two_pairs_normalized]
  have ne: "two_pairs \<noteq> []" by (simp add: two_pairs_def)
  have 1: "presents two_pairs
     (JArr [label_item (JStr Khac) (Fin 0.9), label_item (JStr Sports) (Fin 0.75)])"
    using presents.direct[of two_pairs] by (simp add: two_pairs_normalized)
  have 2: "presents two_pairs (JObj [(ascii ''result'',
                JArr [label_item (JStr Khac) (Fin 0.9), label_item (JStr Sports) (Fin 0.75)])])"
    using presents.known_key[of "ascii ''result''" two_pairs]
    by (simp add: two_pairs_normalized possible_keys_def)
  have 3: "presents two_pairs
     (JObj [(ascii ''a'', JObj [(ascii ''b'', JObj [(ascii ''c'', JObj [(ascii ''d'',
                JArr [label_item (JStr Khac) (Fin 0.9),
                      label_item (JStr Sports) (Fin 0.75)])])])])])"
    using presents.nested[OF ne, of "[ascii ''a'', ascii ''b'', ascii ''c'', ascii ''d'']"]
    by (simp add: two_pairs_normalized)
  have 4: "presents two_pairs
     (JObj [(ascii ''label1'', JStr Khac), (ascii ''confidence1'', JFloat (Fin 0.9)),
            (ascii ''label2'', JStr Sports), (ascii ''confidence2'', JFloat (Fin 0.75))])"
    using presents.numbered[OF ne] by (simp add: two_pairs_numbered)
  have 5: "presents two_pairs
     (JObj [(ascii ''label_a'', JStr Khac), (ascii ''conf_a'', JFloat (Fin 0.9)),
            (ascii ''label_b'', JStr Sports), (ascii ''conf_b'', JFloat (Fin 0.75))])"
    using presents.paired[OF ne _ ab_keys_pairs] by (simp add: two_pairs_paired ab_keys_def two_pairs_def)
  have g: "validate_json_response (\<lambda>s. Some p) (\<lambda>s. None) (ascii ''r'')
     = (True, Some [label_item (JStr Khac) (Fin 0.9), label_item (JStr Sports) (Fin 0.75)], Valid)"
    if "presents two_pairs p" for p
    by (rule t[OF that]) (rule refl)
  show ?thesis
    by (intro conjI) (rule g[OF 1], rule g[OF 2], rule g[OF 3], rule g[OF 4], rule g[OF 5])
qed

text \<open>
  Against the claim as it is written: the empty payload is valid as an array and is
  not found under a key that is not one of the known ones; an array under five nested
  keys is not found; and a confidence given as the string \<^verbatim>\<open>"0.9"\<close> is returned as
  that string from the array shape and as the float 0.9 from the flat shape.
\<close>

definition five_keys :: "pystr list" where
  "five_keys = [ascii ''a'', ascii ''b'', ascii ''c'', ascii ''d'', ascii ''e'']"

definition reads_point_nine :: "pystr \<Rightarrow> pyfloat option" where
  "reads_point_nine s = (if s = ascii ''0.9'' then Some (Fin 0.9) else None)"

lemma no_numbered_keys:
  "map_of data (ascii ''label'' @ str_nat 1) = None \<Longrightarrow>
     numbered_loop pf data (Suc 0) [] = Inr []"
  by (subst numbered_loop.simps) simp

lemma no_flat_keys:
  "try_reconstruct_from_flat_structure pf [(ascii ''answer'', v)] = Inr None"
  "try_reconstruct_from_flat_structure pf [(ascii ''a'', v)] = Inr None"
  by (simp_all add: try_reconstruct_from_flat_structure_def no_numbered_keys
      str_nat.simps ascii_def lower_def startswith_def)

theorem shapes_differ:
  "validate_parsed (\<lambda>s. None) (JArr []) = (True, Some [], Valid)
   \<and> validate_parsed (\<lambda>s. None) (JObj [(ascii ''answer'', JArr [])])
       = (False, None, No_valid_label_array [ascii ''answer''])
   \<and> validate_parsed (\<lambda>s. None) (nest five_keys (JArr [label_item (JStr Khac) (Fin 0.9)]))
       = (False, None, No_valid_label_array [ascii ''a''])
   \<and> validate_parsed reads_point_nine
         (JArr [JObj [(ascii ''label'', JStr Khac), (ascii ''confidence'', JStr (ascii ''0.9''))]])
       = (True, Some [JObj [(ascii ''label'', JStr Khac),
                            (ascii ''confidence'', JStr (ascii ''0.9''))]], Valid)
   \<and> validate_parsed reads_point_nine
         (JObj [(ascii ''label1'', JStr Khac), (ascii ''confidence1'', JStr (ascii ''0.9''))])
       = (True, Some [JObj [(ascii ''label'', JStr Khac),
                            (ascii ''confidence'', JFloat (Fin 0.9))]], Valid)"
proof (intro conjI)
  show "validate_parsed (\<lambda>s. None) (JArr []) = (True, Some [], Valid)"
    by (simp add: validate_parsed_def)
  show "validate_parsed (\<lambda>s. None) (JObj [(ascii ''answer'', JArr [])])
       = (False, None, No_valid_label_array [ascii ''answer''])"
    by (simp add: validate_parsed_def known_key_single possible_keys_def no_flat_keys
        eval_nat_numeral)
       (simp add: ascii_def)
  show "validate_parsed (\<lambda>s. None) (nest five_keys (JArr [label_item (JStr Khac) (Fin 0.9)]))
       = (False, None, No_valid_label_array [ascii ''a''])"
    by (simp add: validate_parsed_def known_key_single five_keys_def no_flat_keys
        eval_nat_numeral)
  show "validate_parsed reads_point_nine
         (JArr [JObj [(ascii ''label'', JStr Khac), (ascii ''confidence'', JStr (ascii ''0.9''))]])
       = (True, Some [JObj [(ascii ''label'', JStr Khac),
                            (ascii ''confidence'', JStr (ascii ''0.9''))]], Valid)"
    by (simp add: validate_parsed_def reads_point_nine_def ascii_label_conf)
  define data where
    "data = [(ascii ''label1'', JStr Khac), (ascii ''confidence1'', JStr (ascii ''0.9''))]"
  have k: "known_key_array data possible_keys = None"
    by (simp add: data_def possible_keys_def ascii_def)
  have l1: "map_of data (ascii ''label'' @ str_nat (Suc 0)) = Some (JStr Khac)"
    and c1: "map_of data (ascii ''confidence'' @ str_nat (Suc 0)) = Some (JStr (ascii ''0.9''))"
    and l2: "map_of data (ascii ''label'' @ str_nat (Suc (Suc 0))) = None"
    by (simp_all add: data_def str_nat.simps ascii_def)
  have n2: "numbered_loop reads_point_nine data (Suc (Suc 0)) acc = Inr acc" for acc
    by (subst numbered_loop.simps) (simp add: l2)
  have n1: "numbered_loop reads_point_nine data (Suc 0) [] = Inr [label_item (JStr Khac) (Fin 0.9)]"
    by (subst numbered_loop.simps) (simp add: l1 c1 reads_point_nine_def n2)
  have f: "find_array_recursive 5 (JObj data) = None"
    by (simp add: data_def eval_nat_numeral)
  have "validate_parsed reads_point_nine (JObj data)
       = (True, Some [JObj [(ascii ''label'', JStr Khac),
                            (ascii ''confidence'', JFloat (Fin 0.9))]], Valid)"
    by (simp add: validate_parsed_def k f try_reconstruct_from_flat_structure_def n1
        label_item_def ascii_label_conf)
  then show "validate_parsed reads_point_nine
         (JObj [(ascii ''label1'', JStr Khac), (ascii ''confidence1'', JStr (ascii ''0.9''))])
       = (True, Some [JObj [(ascii ''label'', JStr Khac),
                            (ascii ''confidence'', JFloat (Fin 0.9))]], Valid)"
    by (simp add: data_def)
qed

subsection \<open>The loop of \<^verbatim>\<open>process_dataset\<close> returns\<close>

text \<open>
  With a positive batch size every iteration moves \<^verbatim>\<open>current_index\<close> forward by at
  least one, so the loop ends: fuel for the distance from the start index to the end
  of the dataset is enough, and \<^verbatim>\<open>process_dataset\<close> returns a final state.
\<close>

lemma iteration_advances:
  assumes "0 < bs" and "current_index st < fin"
  shows "current_index st < current_index (batch_iteration ct df bs fin st)"
proof -
  have "1 \<le> iteration_width df bs fin st"
    using assms by (simp add: iteration_width_def slice_width_def split: sum.splits list.splits)
  then show ?thesis by (simp add: iteration_current)
qed

lemma process_loop_returns:
  assumes "0 < bs"
  shows "fin - current_index st \<le> int fuel \<Longrightarrow> \<exists>st'. process_loop fuel ct df bs fin st = Some st'"
proof (induction fuel arbitrary: st)
  case 0
  then show ?case by (subst process_loop.simps) simp
next
  case (Suc fuel)
  show ?case
  proof (cases "current_index st < fin")
    case True
    from iteration_advances[OF assms True, of ct df] Suc.prems
    have "fin - current_index (batch_iteration ct df bs fin st) \<le> int fuel" by simp
    from Suc.IH[OF this] True show ?thesis by (subst process_loop.simps) simp
  next
    case False
    then show ?thesis by (subst process_loop.simps) simp
  qed
qed

lemma process_dataset_returns:
  assumes "0 < batch_size_of batch_size cfg"
    and "int (length df) - start_index_of start_from loaded \<le> int fuel"
  shows "\<exists>st'. process_dataset fuel ct cfg df batch_size start_from max_records loaded logged w
           = Some st'"
proof -
  have "end_index_of max_records (start_index_of start_from loaded) df \<le> int (length df)"
    by (simp add: end_index_of_def split: option.splits)
  moreover have "current_index (initial_state start_from loaded logged w)
      = start_index_of start_from loaded" by (simp add: initial_state_def)
  ultimately show ?thesis
    unfolding process_dataset_def Let_def
    using assms(2) by (intro process_loop_returns[OF assms(1)]) simp
qed

end
